(* ===== verification/Prelude.thy ===== *)
theory Prelude
  imports Main "HOL-Library.While_Combinator"
begin

text \<open>
  Shared vocabulary of the development: the Python exceptions the crawler can raise, a
  result type that keeps the state next to the outcome (an exception does not undo the
  effects that happened before it), the bind of that result type, Python's negative
  list indexing, and the string methods \<open>str.strip\<close>, \<open>str.split\<close> and
  \<open>str.replace\<close> used by the parser, with the lemmas the component theories share.
\<close>

named_theorems py_simps \<open>evaluation rules of the modelled Python built-ins\<close>
named_theorems ext_steps \<open>calls that leave a later handler of the same session\<close>

section \<open>Exceptions and results\<close>

text \<open>
  The exceptions raised on the paths of \<open>src/synculario.py\<close> and
  \<open>src/browser_handler.py\<close>. \<open>ClickIntercepted\<close> is Selenium's
  \<open>ElementClickInterceptedException\<close>; \<open>AttributeError\<close> is what a call on
  \<open>self.driver = None\<close> raises before \<open>set_driver\<close> ran. \<open>UnexpectedTagName\<close> is
  Selenium's \<open>UnexpectedTagNameException\<close> (a \<open>Select\<close> on an element that is not a
  \<open>select\<close>) and \<open>NotImplemented\<close> Python's \<open>NotImplementedError\<close> (Selenium's answer to
  selecting a disabled option). \<open>OutsideModel\<close> is no exception of the program: it
  marks a browser answer the model does not decide (a script whose evaluation it does not
  model), so that no theorem takes such an answer for a particular exception.
\<close>

datatype py_error =
    IndexError
  | KeyError
  | AttributeError
  | NoSuchElement
  | Timeout
  | ClickIntercepted
  | WebDriverError
  | ValueError
  | UnexpectedTagName
  | NotImplemented
  | OutsideModel

type_synonym 'a py_result = "py_error + 'a"

definition rbind :: "'a py_result \<Rightarrow> ('a \<Rightarrow> 'b py_result) \<Rightarrow> 'b py_result" where
  "rbind r f = (case r of Inl e \<Rightarrow> Inl e | Inr x \<Rightarrow> f x)"

text \<open>A \<open>for\<close> loop that applies a fallible body to each element, in order, and
  stops at the first exception.\<close>

fun py_map :: "('a \<Rightarrow> 'b py_result) \<Rightarrow> 'a list \<Rightarrow> 'b list py_result" where
  "py_map f [] = Inr []"
| "py_map f (x # xs) = rbind (f x) (\<lambda>y. rbind (py_map f xs) (\<lambda>ys. Inr (y # ys)))"

section \<open>Python list indexing\<close>

text \<open>\<open>xs[i]\<close>: negative indices count from the end; out of range raises IndexError.\<close>

definition py_get :: "'a list \<Rightarrow> int \<Rightarrow> 'a py_result" where
  "py_get xs i =
     (let k = (if 0 \<le> i then i else i + int (length xs))
      in if k < 0 \<or> int (length xs) \<le> k then Inl IndexError else Inr (xs ! nat k))"

section \<open>Python strings\<close>

text \<open>
  \<open>str.isspace\<close> on one character. Strings are lists of code points below 256
  (Latin-1, as the page text the model handles): tab, line feed, vertical tab, form feed,
  carriage return, the four separators 0x1C--0x1F, space, next line (0x85) and no-break
  space (0xA0).
\<close>

definition py_isspace :: "char \<Rightarrow> bool" where
  "py_isspace c \<longleftrightarrow>
     (let n = (of_char c :: nat) in (9 \<le> n \<and> n \<le> 13) \<or> (28 \<le> n \<and> n \<le> 32) \<or> n = 133 \<or> n = 160)"

text \<open>ASCII whitespace of HTML and CSS: tab, line feed, form feed, carriage return, space.\<close>

definition is_ascii_space :: "char \<Rightarrow> bool" where
  "is_ascii_space c \<longleftrightarrow> (of_char c :: nat) \<in> {9, 10, 12, 13, 32}"

text \<open>\<open>s.strip()\<close>: leading and trailing whitespace removed.\<close>

definition py_strip :: "string \<Rightarrow> string" where
  "py_strip s = rev (dropWhile py_isspace (rev (dropWhile py_isspace s)))"

text \<open>The maximal runs of characters outside a class of separators, \<open>acc\<close> the run read so far.\<close>

fun split_runs :: "(char \<Rightarrow> bool) \<Rightarrow> string \<Rightarrow> string \<Rightarrow> string list" where
  "split_runs sep acc [] = (if acc = [] then [] else [rev acc])"
| "split_runs sep acc (c # cs) =
     (if sep c then (if acc = [] then split_runs sep [] cs else rev acc # split_runs sep [] cs)
      else split_runs sep (c # acc) cs)"

text \<open>\<open>s.split()\<close>: the maximal runs of non-whitespace characters.\<close>

definition py_split :: "string \<Rightarrow> string list" where
  "py_split s = split_runs py_isspace [] s"

text \<open>\<open>' '.join(ws)\<close>.\<close>

definition join_space :: "string list \<Rightarrow> string" where
  "join_space ws = concat (case ws of [] \<Rightarrow> [] | w # ws' \<Rightarrow> w # map (\<lambda>v. CHR '' '' # v) ws')"

text \<open>
  \<open>s.replace(old, new)\<close>: every non-overlapping occurrence of \<open>old\<close>, scanned
  from the left, is replaced; an empty \<open>old\<close> inserts \<open>new\<close> before every
  character and at the end.
\<close>

function py_replace_ne :: "string \<Rightarrow> string \<Rightarrow> string \<Rightarrow> string" where
  "py_replace_ne old new [] = []"
| "py_replace_ne old new (c # cs) =
     (if old \<noteq> [] \<and> take (length old) (c # cs) = old
      then new @ py_replace_ne old new (drop (length old) (c # cs))
      else c # py_replace_ne old new cs)"
  by pat_completeness auto
termination
  by (relation "measure (\<lambda>(old, new, s). length s)") auto

definition py_replace :: "string \<Rightarrow> string \<Rightarrow> string \<Rightarrow> string" where
  "py_replace s old new =
     (if old = [] then new @ concat (map (\<lambda>c. c # new) s) else py_replace_ne old new s)"

text \<open>\<open>old in s\<close> for strings: \<open>old\<close> occurs at some position of \<open>s\<close>.\<close>

definition py_contains :: "string \<Rightarrow> string \<Rightarrow> bool" where
  "py_contains old s = list_ex (\<lambda>k. take (length old) (drop k s) = old) [0..<Suc (length s)]"

text \<open>\<open>s.partition(sep)\<close> when \<open>sep\<close> occurs: the text before the first occurrence and
  the text after it; \<open>None\<close> when it does not occur.\<close>

fun split_first :: "'a list \<Rightarrow> 'a list \<Rightarrow> ('a list \<times> 'a list) option" where
  "split_first sep [] = None"
| "split_first sep (c # s) =
     (if take (length sep) (c # s) = sep then Some ([], drop (length sep) (c # s))
      else map_option (\<lambda>(a, r). (c # a, r)) (split_first sep s))"

section \<open>Loops left by \<open>break\<close>\<close>

text \<open>
  The reference semantics of \<open>while True: ... break\<close>: the body maps the loop
  variables either to the loop's result (\<open>Inl\<close>, it broke out) or to the variables of the
  next pass (\<open>Inr\<close>); the loop is the library's \<open>while_option\<close> iterating it until it breaks,
  and \<open>None\<close> when it never does.
\<close>

definition while_break :: "('s \<Rightarrow> 'r + 's) \<Rightarrow> 's \<Rightarrow> 'r option" where
  "while_break body x = map_option projl (while_option (\<lambda>s. \<not> isl s) (\<lambda>s. body (projr s)) (Inr x))"

section \<open>Lemmas\<close>

lemma while_break_Inl [simp]: "body x = Inl r \<Longrightarrow> while_break body x = Some r"
  by (simp add: while_break_def while_option_unfold [of _ _ "Inr x"] while_option_unfold [of _ _ "Inl r"])

lemma while_break_Inr [simp]: "body x = Inr y \<Longrightarrow> while_break body x = while_break body y"
  by (simp add: while_break_def while_option_unfold [of _ _ "Inr x"])

text \<open>Every function that unfolds like the loop agrees with it wherever the loop breaks.\<close>

lemma while_break_unfolds:
  assumes unf: "\<And>y. f y = (case body y of Inl r \<Rightarrow> Some r | Inr y' \<Rightarrow> f y')"
    and w: "while_break body x = Some r"
  shows "f x = Some r"
proof -
  from w obtain s where s: "while_option (\<lambda>s. \<not> isl s) (\<lambda>s. body (projr s)) (Inr x) = Some s" and r: "r = projl s"
    by (auto simp: while_break_def)
  let ?P = "\<lambda>s. case s of Inl r \<Rightarrow> f x = Some r | Inr y \<Rightarrow> f x = f y"
  have "?P s"
  proof (rule while_option_rule [OF _ s])
    fix t assume "?P t" "\<not> isl t"
    then obtain y where t: "t = Inr y" and fy: "f x = f y" by (cases t) auto
    show "?P (body (projr t))"
      using fy unf [of y] by (simp add: t split: sum.splits)
  qed simp
  moreover have "isl s" using while_option_stop [OF s] by simp
  ultimately show ?thesis using r by (cases s) auto
qed

text \<open>
  A loop given by its unfolding equation is the reference loop once each of its results is
  one of the reference loop's: where it does not return, neither does the reference.
\<close>

lemma while_break_eqI:
  assumes unf: "\<And>y. f y = (case body y of Inl r \<Rightarrow> Some r | Inr y' \<Rightarrow> f y')"
    and sound: "\<And>r. f x = Some r \<Longrightarrow> while_break body x = Some r"
  shows "f x = while_break body x"
proof (cases "while_break body x")
  case None
  then show ?thesis using sound by (cases "f x") auto
next
  case (Some r)
  then show ?thesis using while_break_unfolds [OF unf] by simp
qed


lemma rbind_Inl [simp, py_simps]: "rbind (Inl e) f = Inl e"
  and rbind_Inr [simp, py_simps]: "rbind (Inr x) f = f x"
  by (simp_all add: rbind_def)

lemma rbind_eq_Inr [simp]: "rbind r f = Inr y \<longleftrightarrow> (\<exists>x. r = Inr x \<and> f x = Inr y)"
  by (cases r) simp_all

lemma py_map_Inr_iff: "py_map f xs = Inr ys \<longleftrightarrow> list_all2 (\<lambda>x y. f x = Inr y) xs ys"
proof (induction xs arbitrary: ys)
  case Nil
  then show ?case by auto
next
  case (Cons x xs)
  then show ?case by (cases "f x") (auto simp: list_all2_Cons1)
qed

lemma py_map_Inr_all:
  "py_map f xs = Inr ys \<Longrightarrow> (\<And>x y. f x = Inr y \<Longrightarrow> P y) \<Longrightarrow> list_all P ys"
proof (induction xs arbitrary: ys)
  case Nil
  then show ?case by simp
next
  case (Cons x xs)
  then show ?case by (auto simp: rbind_def split: sum.splits)
qed

lemma py_map_Inl:
  assumes "x \<in> set xs" "f x = Inl e"
  shows "\<exists>e'. py_map f xs = Inl e'"
  using assms
proof (induction xs)
  case Nil
  then show ?case by simp
next
  case (Cons y ys)
  then show ?case by (cases "f y") (auto simp: rbind_def split: sum.splits)
qed

lemma py_map_append:
  "py_map f (xs @ ys) = rbind (py_map f xs) (\<lambda>as. rbind (py_map f ys) (\<lambda>bs. Inr (as @ bs)))"
  by (induction xs) (auto simp: rbind_def split: sum.splits)


lemma py_map_map: "py_map f (map g xs) = py_map (\<lambda>x. f (g x)) xs"
  by (induction xs) simp_all

lemma py_map_concat:
  "py_map f (concat xss) = rbind (py_map (py_map f) xss) (\<lambda>yss. Inr (concat yss))"
proof (induction xss)
  case Nil
  then show ?case by simp
next
  case (Cons xs xss)
  then show ?case
    by (simp add: py_map_append rbind_def split: sum.splits)
qed

lemma py_get_last [simp, py_simps]:
  "py_get xs (int (length xs) - 1) = (if xs = [] then Inl IndexError else Inr (last xs))"
  by (cases xs rule: rev_cases) (auto simp: py_get_def nth_append)

lemma py_get_map_last [simp, py_simps]:
  "py_get (map f xs) (int (length xs) - 1) = (if xs = [] then Inl IndexError else Inr (f (last xs)))"
  using py_get_last [of "map f xs"] by (simp add: last_map)

lemma py_get_Nil [simp, py_simps]: "py_get [] i = Inl IndexError"
  by (simp add: py_get_def)

lemma py_get_0 [simp, py_simps]:
  "py_get xs 0 = (case xs of [] \<Rightarrow> Inl IndexError | x # _ \<Rightarrow> Inr x)"
  by (cases xs) (simp_all add: py_get_def)

lemma py_isspace_simps [simp, py_simps]:
  "py_isspace (CHR '' '')" "py_isspace (CHR ''\<newline>'')"
  by (simp_all add: py_isspace_def)

lemma py_replace_ne_prefix:
  assumes "old \<noteq> []"
  shows "py_replace_ne old new (old @ s) = new @ py_replace_ne old new s"
proof (cases old)
  case (Cons c cs)
  then show ?thesis using assms by simp
qed (use assms in simp)

lemma py_replace_prefix [py_simps]:
  "old \<noteq> [] \<Longrightarrow> py_replace (old @ s) old new = new @ py_replace s old new"
  by (simp add: py_replace_def py_replace_ne_prefix)

text \<open>Where \<open>old\<close> does not occur, \<open>replace\<close> changes nothing.\<close>

lemma py_replace_ne_no_occurrence:
  "(\<And>k. take (length old) (drop k s) \<noteq> old) \<Longrightarrow> py_replace_ne old new s = s"
proof (induction s)
  case Nil
  then show ?case by simp
next
  case (Cons c cs)
  have "take (length old) (c # cs) \<noteq> old" using Cons.prems [of 0] by simp
  moreover have "\<And>k. take (length old) (drop k cs) \<noteq> old"
    using Cons.prems by (metis drop_Suc_Cons)
  ultimately show ?case using Cons.IH by simp
qed

lemma py_contains_iff: "py_contains old s \<longleftrightarrow> (\<exists>k. take (length old) (drop k s) = old)"
proof
  assume "py_contains old s"
  then show "\<exists>k. take (length old) (drop k s) = old"
    by (auto simp: py_contains_def list_ex_iff)
next
  assume "\<exists>k. take (length old) (drop k s) = old"
  then obtain k where k: "take (length old) (drop k s) = old" by blast
  show "py_contains old s"
  proof (cases "k \<le> length s")
    case True
    with k show ?thesis
      unfolding py_contains_def list_ex_iff by (intro bexI [of _ k]) (simp_all del: upt_Suc)
  next
    case False
    with k have "old = []" by simp
    then show ?thesis by (auto simp: py_contains_def list_ex_iff)
  qed
qed

lemma py_replace_no_occurrence [py_simps]:
  "old \<noteq> [] \<Longrightarrow> \<not> py_contains old s \<Longrightarrow> py_replace s old new = s"
  by (simp add: py_replace_def py_replace_ne_no_occurrence py_contains_iff)

lemma split_first_length: "split_first sep s = Some (a, r) \<Longrightarrow> length r \<le> length s"
  by (induction sep s arbitrary: a rule: split_first.induct) (auto split: if_splits)

lemma split_first_length_less:
  "split_first sep s = Some (a, r) \<Longrightarrow> sep \<noteq> [] \<Longrightarrow> length r < length s"
  by (induction sep s arbitrary: a rule: split_first.induct) (auto split: if_splits)

text \<open>The first occurrence is found where no earlier position starts one.\<close>

lemma split_first_append:
  assumes "sep \<noteq> []" and "\<And>i. i < length a \<Longrightarrow> take (length sep) (drop i (a @ sep @ r)) \<noteq> sep"
  shows "split_first sep (a @ sep @ r) = Some (a, r)"
  using assms(2)
proof (induction a)
  case Nil
  then show ?case using assms(1) by (cases sep) auto
next
  case (Cons x a)
  have "take (length sep) (x # a @ sep @ r) \<noteq> sep" using Cons.prems [of 0] by simp
  moreover have "split_first sep (a @ sep @ r) = Some (a, r)"
    using Cons.IH Cons.prems [of "Suc _"] by simp
  ultimately show ?case by simp
qed

text \<open>Scanning a prefix up to a delimiter.\<close>

lemma takeWhile_append_stop:
  "(\<forall>x\<in>set xs. P x) \<Longrightarrow> ys = [] \<or> \<not> P (hd ys) \<Longrightarrow> takeWhile P (xs @ ys) = xs"
  by (cases ys) (auto simp: takeWhile_append2)

lemma dropWhile_append_stop:
  "(\<forall>x\<in>set xs. P x) \<Longrightarrow> ys = [] \<or> \<not> P (hd ys) \<Longrightarrow> dropWhile P (xs @ ys) = ys"
  by (cases ys) (auto simp: dropWhile_append2)

end
