(* ===== verification/Markup.thy ===== *)
theory Markup
  imports Prelude
begin

text \<open>
  The document tree that both the browser and the parser see, and the queries of the
  structural-markup library the code calls: BeautifulSoup's \<open>find_all(name, class)\<close>,
  \<open>.text\<close> and \<open>tag[attr]\<close> (\<open>src/synculario.py\<close> lines 36--43), and the class and
  tag matching of Selenium's simple CSS selectors. The library is not part of the
  repository; these definitions follow its documented behaviour. A snapshot of a page is
  represented by the tree \<open>BeautifulSoup(html, "html.parser")\<close> builds from it.
\<close>

section \<open>Document trees\<close>

text \<open>An element has a tag name, its attributes in source order, and its children. Strings
  of the document are \<open>Text\<close> (bs4's \<open>NavigableString\<close>), \<open>Comment\<close> and
  \<open>Doctype\<close> (its subclasses for \<open><!--...-->\<close> and \<open><!DOCTYPE ...>\<close>).\<close>

datatype node =
    Elem string "(string \<times> string) list" "node list"
  | Text string
  | Comment string
  | Doctype string

type_synonym dom = node

text \<open>
  \<open>tag.descendants\<close>: every node below the tag, in document (pre-)order; the tag
  itself is not among them.
\<close>

fun descendants :: "node \<Rightarrow> node list" where
  "descendants (Text s) = []"
| "descendants (Comment s) = []"
| "descendants (Doctype s) = []"
| "descendants (Elem n as cs) = concat (map (\<lambda>c. c # descendants c) cs)"

fun tag_name :: "node \<Rightarrow> string option" where
  "tag_name (Text s) = None"
| "tag_name (Comment s) = None"
| "tag_name (Doctype s) = None"
| "tag_name (Elem n as cs) = Some n"

text \<open>Tags whose strings BeautifulSoup (4.10 and later) stores as a string type of their
  own (\<open>HTMLTreeBuilder.DEFAULT_STRING_CONTAINERS\<close>: ruby text, stylesheets, scripts,
  templates).\<close>

definition string_containers :: "string list" where
  "string_containers = [''rt'', ''rp'', ''style'', ''script'', ''template'']"

definition is_string_container :: "node \<Rightarrow> bool" where
  "is_string_container c = (case tag_name c of None \<Rightarrow> False | Some n \<Rightarrow> n \<in> set string_containers)"

text \<open>\<open>tag.text\<close> on a tag of the page: the plain strings below it, concatenated in document
  order. \<open>get_text\<close> keeps only strings of the plain type, so it skips comments and
  doctypes and every string inside a string-container tag.\<close>

fun text_of :: "node \<Rightarrow> string" where
  "text_of (Text s) = s"
| "text_of (Comment s) = []"
| "text_of (Doctype s) = []"
| "text_of (Elem n as cs) = concat (map (\<lambda>c. if is_string_container c then [] else text_of c) cs)"

fun attr_of :: "node \<Rightarrow> string \<Rightarrow> string option" where
  "attr_of (Text s) a = None"
| "attr_of (Comment s) a = None"
| "attr_of (Doctype s) a = None"
| "attr_of (Elem n as cs) a = map_of as a"

text \<open>\<open>tag[attr]\<close>: a missing attribute raises KeyError.\<close>

definition get_item :: "node \<Rightarrow> string \<Rightarrow> string py_result" where
  "get_item e a = (case attr_of e a of None \<Rightarrow> Inl KeyError | Some v \<Rightarrow> Inr v)"

section \<open>BeautifulSoup's matching\<close>

text \<open>
  \<open>class\<close> is a multi-valued attribute: BeautifulSoup splits its value at whitespace.
  A string filter matches when it equals one of the values, or else the values joined by
  single spaces (so \<open>"job-type temporary"\<close> matches \<open>class="job-type  temporary"\<close>).
\<close>

definition soup_class_matches :: "string \<Rightarrow> node \<Rightarrow> bool" where
  "soup_class_matches c e =
     (case attr_of e ''class'' of
        None \<Rightarrow> False
      | Some v \<Rightarrow> c \<in> set (py_split v) \<or> c = join_space (py_split v))"

definition soup_matches :: "string \<Rightarrow> string option \<Rightarrow> node \<Rightarrow> bool" where
  "soup_matches name cls e =
     (tag_name e = Some name \<and> (case cls of None \<Rightarrow> True | Some c \<Rightarrow> soup_class_matches c e))"

text \<open>\<open>tag.find_all(name)\<close> and \<open>tag.find_all(name, cls)\<close> (also spelled
  \<open>findAll\<close>, and \<open>attrs=cls\<close>, which a string \<open>attrs\<close> means).\<close>

definition find_all :: "node \<Rightarrow> string \<Rightarrow> string option \<Rightarrow> node list" where
  "find_all t name cls = filter (soup_matches name cls) (descendants t)"

section \<open>Lemmas\<close>

lemma descendants_Elem_Cons [simp]:
  "descendants (Elem n as (c # cs)) = c # descendants c @ descendants (Elem n as cs)"
  by simp

lemma find_all_Elem_Cons:
  "find_all (Elem n as (c # cs)) name cls =
     (if soup_matches name cls c then [c] else []) @ find_all c name cls @
     find_all (Elem n as cs) name cls"
  by (simp add: find_all_def)

lemma find_all_Elem_append:
  "find_all (Elem n as (cs @ ds)) name cls =
     find_all (Elem n as cs) name cls @ find_all (Elem n as ds) name cls"
  by (simp add: find_all_def)

lemma find_all_Text [simp]: "find_all (Text s) name cls = []"
  by (simp add: find_all_def)

lemma find_all_subset: "set (find_all t name cls) \<subseteq> set (descendants t)"
  by (auto simp: find_all_def)

lemma find_all_matches: "e \<in> set (find_all t name cls) \<Longrightarrow> soup_matches name cls e"
  by (simp add: find_all_def)

lemma soup_matches_tag: "soup_matches name cls e \<Longrightarrow> \<exists>as cs. e = Elem name as cs"
  by (cases e) (auto simp: soup_matches_def)

end
