(* ===== verification/Browser.thy ===== *)
theory Browser
  imports Markup
begin

text \<open>
  \<open>BrowserHandler\<close> of \<open>src/browser_handler.py\<close> and the part of Selenium and the
  browser it drives. The web the browser sees is a \<open>site\<close>: the document tree of each
  page, its URL, which URLs load which page, what a native click on an element of a page
  does, where activating an element by a script's \<open>click()\<close> leads (no hit test: an
  obscured element is still activated), whether an element is displayed, how tall the page
  is after a number of scrolls to the bottom, and the cookies a page sets. The driver keeps the current page, the scrolls since it loaded, the cookie
  jar, whether its window is open and the options it was launched with. The handler keeps
  the fields of the Python object and the trace of every browser action and pause, in
  order. Every method returns its outcome (a value or the exception it raises) together
  with the new handler, so that effects before an exception are kept.
\<close>

section \<open>Locators and element handles\<close>

datatype locator =
    By_CSS_SELECTOR string
  | By_ID string
  | By_TAG_NAME string
  | By_CLASS_NAME string

text \<open>A Selenium \<open>WebElement\<close>: the page it was found on and its document position.\<close>

datatype web_element = WebElement "nat option" nat

text \<open>The browser's class list: the \<open>class\<close> attribute split on ASCII whitespace.\<close>

definition has_class_token :: "string \<Rightarrow> node \<Rightarrow> bool" where
  "has_class_token c e =
     (case attr_of e ''class'' of None \<Rightarrow> False | Some v \<Rightarrow> c \<in> set (split_runs is_ascii_space [] v))"

text \<open>Simple CSS selectors: \<open>tag\<close>, \<open>.class\<close> and \<open>tag.class\<close>.\<close>

definition css_matches :: "string \<Rightarrow> node \<Rightarrow> bool" where
  "css_matches sel e =
     (let t = takeWhile (\<lambda>c. c \<noteq> CHR ''.'') sel; r = dropWhile (\<lambda>c. c \<noteq> CHR ''.'') sel
      in (t = [] \<or> tag_name e = Some t) \<and>
         (case r of [] \<Rightarrow> tag_name e \<noteq> None | _ # c \<Rightarrow> has_class_token c e))"

fun locator_matches :: "locator \<Rightarrow> node \<Rightarrow> bool" where
  "locator_matches (By_CSS_SELECTOR s) e = css_matches s e"
| "locator_matches (By_ID i) e = (attr_of e ''id'' = Some i)"
| "locator_matches (By_TAG_NAME t) e = (tag_name e = Some t)"
| "locator_matches (By_CLASS_NAME c) e = has_class_token c e"

definition match_positions :: "(node \<Rightarrow> bool) \<Rightarrow> dom \<Rightarrow> nat list" where
  "match_positions P t = filter (\<lambda>i. P (descendants t ! i)) [0..<length (descendants t)]"

section \<open>The site, the driver and the handler\<close>

datatype click_outcome = Navigates nat | Intercepted | Stays

record site =
  s_dom :: "nat \<Rightarrow> dom"
  s_url :: "nat \<Rightarrow> string"
  s_resolve :: "string \<Rightarrow> nat option"
  s_click :: "nat \<Rightarrow> nat \<Rightarrow> click_outcome"
  s_height :: "nat \<Rightarrow> nat \<Rightarrow> nat"
  s_cookies :: "nat \<Rightarrow> (string \<times> string) list"
  s_activate :: "nat \<Rightarrow> nat \<Rightarrow> nat option"
  s_displayed :: "nat \<Rightarrow> nat \<Rightarrow> bool"

text \<open>The page a freshly launched browser shows (\<open>data:,\<close>).\<close>

definition blank_dom :: dom where
  "blank_dom = Elem ''[document]'' [] [Elem ''html'' [] [Elem ''head'' [] [], Elem ''body'' [] []]]"

datatype action =
    Install
  | Launch "string list"
  | DeleteCookies
  | Get string
  | CurrentUrl
  | FindElements locator
  | PageSource
  | ExecScript string
  | Click web_element
  | Sleep nat
  | Close
  | ElementCmd string web_element

text \<open>
  The driver's state: the current page (\<open>None\<close> for the blank page), the scrolls and
  the cookies since the page loaded, whether the window is open, the launch options, and
  the form state the page's scripts and clicks changed since it loaded: the selectedness
  of options (latest first) and the values assigned to controls, by document position.
\<close>

record driver =
  d_page :: "nat option"
  d_scrolls :: nat
  d_cookies :: "(string \<times> string) list"
  d_open :: bool
  d_options :: "string list"
  d_selected :: "(nat \<times> bool) list"
  d_values :: "(nat \<times> string) list"

record browser_handler =
  driver :: "driver option"
  resource_data :: "string list"
  headless :: bool
  path_to_driver :: string
  web :: site
  trace :: "action list"

definition cur_dom :: "site \<Rightarrow> driver \<Rightarrow> dom" where
  "cur_dom w d = (case d_page d of None \<Rightarrow> blank_dom | Some i \<Rightarrow> s_dom w i)"

definition cur_url :: "site \<Rightarrow> driver \<Rightarrow> string" where
  "cur_url w d = (case d_page d of None \<Rightarrow> ''data:,'' | Some i \<Rightarrow> s_url w i)"

definition load_page :: "site \<Rightarrow> nat \<Rightarrow> driver \<Rightarrow> driver" where
  "load_page w i d =
     d\<lparr>d_page := Some i, d_scrolls := 0, d_cookies := d_cookies d @ s_cookies w i, d_selected := [], d_values := []\<rparr>"

text \<open>\<open>time.sleep(ms / 1000)\<close>.\<close>

definition sleep :: "nat \<Rightarrow> browser_handler \<Rightarrow> browser_handler" where
  "sleep ms bh = bh\<lparr>trace := trace bh @ [Sleep ms]\<rparr>"

text \<open>
  A call on \<open>self.driver\<close>: AttributeError while it is \<open>None\<close>; a
  WebDriverException (no such window) once the window is closed; otherwise the action is
  performed on the driver and recorded in the trace.
\<close>

definition drv :: "action \<Rightarrow> (site \<Rightarrow> driver \<Rightarrow> 'a py_result \<times> driver) \<Rightarrow>
    browser_handler \<Rightarrow> 'a py_result \<times> browser_handler" where
  "drv a f bh =
     (case driver bh of
        None \<Rightarrow> (Inl AttributeError, bh)
      | Some d \<Rightarrow>
          if \<not> d_open d then (Inl WebDriverError, bh)
          else (let (r, d') = f (web bh) d
                in (r, bh\<lparr>driver := Some d', trace := trace bh @ [a]\<rparr>)))"

text \<open>
  Two measures of a trace: the time spent in \<open>time.sleep\<close>, in milliseconds, and the
  number of commands sent to the browser (every action but the pauses and the driver
  install, which happens before a browser exists).
\<close>

definition sleep_time :: "action list \<Rightarrow> nat" where
  "sleep_time tr = sum_list (map (\<lambda>a. case a of Sleep ms \<Rightarrow> ms | _ \<Rightarrow> 0) tr)"

fun is_command :: "action \<Rightarrow> bool" where
  "is_command (Sleep ms) = False"
| "is_command Install = False"
| "is_command _ = True"

definition command_count :: "action list \<Rightarrow> nat" where
  "command_count tr = length (filter is_command tr)"

section \<open>The methods of BrowserHandler\<close>

text \<open>\<open>__init__\<close> with \<open>_get_web_driver\<close>: the driver binary is installed, its
  path (given by the environment) kept; no browser is running yet.\<close>

definition BrowserHandler_init :: "site \<Rightarrow> string \<Rightarrow> bool \<Rightarrow> browser_handler" where
  "BrowserHandler_init w installed hl =
     \<lparr>driver = None, resource_data = [], headless = hl, path_to_driver = installed,
      web = w, trace = [Install]\<rparr>"

definition set_resource_data :: "string list \<Rightarrow> browser_handler \<Rightarrow> browser_handler" where
  "set_resource_data rd bh = bh\<lparr>resource_data := rd\<rparr>"

definition chrome_options :: "string \<Rightarrow> bool \<Rightarrow> string list" where
  "chrome_options proxy hl =
     [''--proxy-server='' @ proxy, ''--dns-prefetch-disable'', ''--start-maximized'', ''--incognito''] @
     (if hl then [''--headless''] else []) @
     [''--no-sandbox'', ''--disable-gpu'', ''--disable-dev-shm-usage'', ''--window-size=1920,1080'']"

text \<open>\<open>set_driver\<close>: the proxy comes from \<open>os.getenv('http_proxy', '')\<close>; a new
  browser is launched on the blank page and its cookies deleted. A driver already held is
  replaced without being closed.\<close>

definition set_driver :: "string option \<Rightarrow> browser_handler \<Rightarrow> browser_handler" where
  "set_driver http_proxy bh =
     (let proxy = (case http_proxy of None \<Rightarrow> [] | Some p \<Rightarrow> p);
          opts = chrome_options proxy (headless bh);
          d = \<lparr>d_page = None, d_scrolls = 0, d_cookies = [], d_open = True, d_options = opts, d_selected = [], d_values = []\<rparr>
      in bh\<lparr>driver := Some (d\<lparr>d_cookies := []\<rparr>), trace := trace bh @ [Launch opts, DeleteCookies]\<rparr>)"

text \<open>\<open>get_url\<close>: a failed load raises a WebDriverException, which is printed and
  swallowed; any other exception propagates. The pause follows a successful load only.\<close>

definition get_url :: "string \<Rightarrow> browser_handler \<Rightarrow> unit py_result \<times> browser_handler" where
  "get_url url bh =
     (let (r, bh') = drv (Get url)
            (\<lambda>w d. case s_resolve w url of
                     None \<Rightarrow> (Inl WebDriverError, d)
                   | Some i \<Rightarrow> (Inr (), load_page w i d)) bh
      in case r of
           Inl e \<Rightarrow> (if e = WebDriverError then (Inr (), bh') else (Inl e, bh'))
         | Inr u \<Rightarrow> (Inr u, sleep 100 bh'))"

definition get_current_url :: "browser_handler \<Rightarrow> string py_result \<times> browser_handler" where
  "get_current_url bh = drv CurrentUrl (\<lambda>w d. (Inr (cur_url w d), d)) bh"

definition page_source :: "browser_handler \<Rightarrow> dom py_result \<times> browser_handler" where
  "page_source bh = drv PageSource (\<lambda>w d. (Inr (cur_dom w d), d)) bh"

definition find_elements :: "locator \<Rightarrow> browser_handler \<Rightarrow> web_element list py_result \<times> browser_handler" where
  "find_elements loc bh =
     drv (FindElements loc)
       (\<lambda>w d. (Inr (map (WebElement (d_page d)) (match_positions (locator_matches loc) (cur_dom w d))), d)) bh"

definition find_element :: "locator \<Rightarrow> browser_handler \<Rightarrow> web_element py_result \<times> browser_handler" where
  "find_element loc bh =
     (let (r, bh') = find_elements loc bh
      in (rbind r (\<lambda>es. case es of [] \<Rightarrow> Inl NoSuchElement | e # _ \<Rightarrow> Inr e), bh'))"

text \<open>Stale handles: an element of another page than the current one.\<close>

definition element_node :: "site \<Rightarrow> driver \<Rightarrow> web_element \<Rightarrow> node py_result" where
  "element_node w d e =
     (case e of WebElement p i \<Rightarrow>
        if p = d_page d \<and> i < length (descendants (cur_dom w d))
        then Inr (descendants (cur_dom w d) ! i) else Inl WebDriverError)"

text \<open>\<open>element.click()\<close>: the site decides what a native click does.\<close>

definition element_click :: "web_element \<Rightarrow> browser_handler \<Rightarrow> unit py_result \<times> browser_handler" where
  "element_click e bh =
     drv (Click e)
       (\<lambda>w d. case element_node w d e of
                Inl err \<Rightarrow> (Inl err, d)
              | Inr _ \<Rightarrow>
                  (case e of WebElement None i \<Rightarrow> (Inr (), d)
                   | WebElement (Some p) i \<Rightarrow>
                       (case s_click w p i of
                          Navigates j \<Rightarrow> (Inr (), load_page w j d)
                        | Intercepted \<Rightarrow> (Inl ClickIntercepted, d)
                        | Stays \<Rightarrow> (Inr (), d)))) bh"

definition element_text :: "web_element \<Rightarrow> browser_handler \<Rightarrow> string py_result \<times> browser_handler" where
  "element_text e bh =
     (case driver bh of
        None \<Rightarrow> (Inl AttributeError, bh)
      | Some d \<Rightarrow> (rbind (element_node (web bh) d e) (\<lambda>n. Inr (text_of n)), bh))"

definition quit_driver :: "browser_handler \<Rightarrow> unit py_result \<times> browser_handler" where
  "quit_driver bh = drv Close (\<lambda>w d. (Inr (), d\<lparr>d_open := False\<rparr>)) bh"

text \<open>\<open>clear_cookies\<close> returns \<open>self\<close>: the handler, in its state after the call.\<close>

definition clear_cookies :: "browser_handler \<Rightarrow> browser_handler py_result \<times> browser_handler" where
  "clear_cookies bh =
     (let (r, bh') = drv DeleteCookies (\<lambda>w d. (Inr (), d\<lparr>d_cookies := []\<rparr>)) bh
      in (rbind r (\<lambda>_. Inr bh'), bh'))"

definition scroll_view_to_bottom :: "browser_handler \<Rightarrow> unit py_result \<times> browser_handler" where
  "scroll_view_to_bottom bh =
     drv (ExecScript ''window.scrollTo(0,document.body.scrollHeight);'')
       (\<lambda>w d. (Inr (), d\<lparr>d_scrolls := Suc (d_scrolls d)\<rparr>)) bh"

definition scroll_to_given_element :: "web_element \<Rightarrow> browser_handler \<Rightarrow> unit py_result \<times> browser_handler" where
  "scroll_to_given_element e bh =
     drv (ExecScript ''arguments[0].scrollIntoView(true);'')
       (\<lambda>w d. (rbind (element_node w d e) (\<lambda>_. Inr ()), d)) bh"

definition scroll_element_into_view :: "locator \<Rightarrow> browser_handler \<Rightarrow> unit py_result \<times> browser_handler" where
  "scroll_element_into_view loc bh =
     (case find_element loc bh of
        (Inl e, bh') \<Rightarrow> (Inl e, bh')
      | (Inr e, bh') \<Rightarrow> scroll_to_given_element e bh')"

definition is_displayed :: "locator \<Rightarrow> browser_handler \<Rightarrow> bool py_result \<times> browser_handler" where
  "is_displayed loc bh =
     (let (r, bh') = find_elements loc bh in (rbind r (\<lambda>es. Inr (0 < length es)), bh'))"

section \<open>Waiting for elements\<close>

text \<open>
  \<open>WebDriverWait(driver, timeout).until(method)\<close> calls \<open>method\<close> at polls
  \<open>0, 0.5, 1, ...\<close> seconds up to the timeout and returns at the first poll whose value
  is true; otherwise it raises TimeoutException. The value \<open>cond k\<close> is the truth of
  what \<open>method\<close> returns at poll \<open>k\<close>.
\<close>

definition wdw_until :: "(nat \<Rightarrow> bool) \<Rightarrow> nat \<Rightarrow> bool py_result" where
  "wdw_until cond timeout =
     (if list_ex cond [0..<Suc (2 * timeout)] then Inr True else Inl Timeout)"

text \<open>
  \<open>ec.visibility_of_element_located(locator)\<close> builds a condition object; it does not
  evaluate it. The lambda in \<open>wait_until_element_visible\<close> returns that object,
  which is an ordinary Python object (no \<open>__bool__\<close>, no \<open>__len__\<close>) and hence
  true, whatever the page holds. \<open>visible_located\<close> is what evaluating the condition
  on the page would report: whether the first element the locator finds is displayed
  (none found counts as not visible, since the wait ignores NoSuchElementException).
\<close>

datatype ec_condition = visibility_of_element_located "locator list"

definition condition_object_truth :: "ec_condition \<Rightarrow> bool" where
  "condition_object_truth c = (case c of visibility_of_element_located _ \<Rightarrow> True)"

definition visible_located :: "site \<Rightarrow> driver \<Rightarrow> locator \<Rightarrow> bool" where
  "visible_located w d loc =
     (case (d_page d, match_positions (locator_matches loc) (cur_dom w d)) of
        (Some p, k # _) \<Rightarrow> s_displayed w p k
      | _ \<Rightarrow> False)"

text \<open>\<open>wait_until_element_visible(*element, delay=15)\<close>: the positional arguments
  arrive as a tuple; a timeout is caught and reported as False.\<close>

definition wait_until_element_visible ::
    "locator list \<Rightarrow> nat \<Rightarrow> browser_handler \<Rightarrow> bool \<times> browser_handler" where
  "wait_until_element_visible element delay bh =
     (case wdw_until (\<lambda>k. condition_object_truth (visibility_of_element_located element)) delay of
        Inl _ \<Rightarrow> (False, bh)
      | Inr _ \<Rightarrow> (True, bh))"

text \<open>\<open>get_element\<close>: wait, then \<open>find_element\<close>; both except clauses re-raise an
  exception of the type they caught.\<close>

definition get_element :: "locator \<Rightarrow> browser_handler \<Rightarrow> web_element py_result \<times> browser_handler" where
  "get_element element bh =
     (let (_, bh1) = wait_until_element_visible [element] 15 bh;
          (r, bh2) = find_element element bh1
      in (case r of
            Inl NoSuchElement \<Rightarrow> Inl NoSuchElement
          | Inl Timeout \<Rightarrow> Inl Timeout
          | Inl e \<Rightarrow> Inl e
          | Inr x \<Rightarrow> Inr x, bh2))"

definition get_element_text :: "locator \<Rightarrow> browser_handler \<Rightarrow> string py_result \<times> browser_handler" where
  "get_element_text element bh =
     (case get_element element bh of
        (Inl e, bh') \<Rightarrow> (Inl e, bh')
      | (Inr el, bh') \<Rightarrow> element_text el bh')"

definition get_element_click :: "locator \<Rightarrow> browser_handler \<Rightarrow> unit py_result \<times> browser_handler" where
  "get_element_click element bh =
     (case get_element element (sleep 100 bh) of
        (Inl e, bh') \<Rightarrow> (Inl e, bh')
      | (Inr el, bh') \<Rightarrow> element_click el bh')"

definition click_element :: "string \<Rightarrow> browser_handler \<Rightarrow> unit py_result \<times> browser_handler" where
  "click_element button bh =
     (case find_element (By_CSS_SELECTOR button) bh of
        (Inl e, bh') \<Rightarrow> (Inl e, bh')
      | (Inr el, bh') \<Rightarrow> element_click el bh')"

section \<open>An example handler\<close>

text \<open>A browser freshly launched on the blank page, in front of a site with no pages.\<close>

definition ex_blank_handler :: browser_handler where
  "ex_blank_handler =
     \<lparr>driver = Some \<lparr>d_page = None, d_scrolls = 0, d_cookies = [], d_open = True, d_options = [], d_selected = [], d_values = []\<rparr>,
      resource_data = [], headless = True, path_to_driver = ''/usr/bin/chromedriver'',
      web = \<lparr>s_dom = (\<lambda>i. blank_dom), s_url = (\<lambda>i. ''data:,''), s_resolve = (\<lambda>u. None),
             s_click = (\<lambda>i c. Stays), s_height = (\<lambda>i k. 0), s_cookies = (\<lambda>i. []),
             s_activate = (\<lambda>i c. None), s_displayed = (\<lambda>i c. True)\<rparr>,
      trace = []\<rparr>"

section \<open>Lemmas on the driver calls\<close>

text \<open>A handler whose browser is running: the state every crawl step needs.\<close>

definition live :: "browser_handler \<Rightarrow> bool" where
  "live bh = (case driver bh of None \<Rightarrow> False | Some d \<Rightarrow> d_open d)"

lemma drv_live:
  assumes "driver bh = Some d" "d_open d"
  shows "drv a f bh = (fst (f (web bh) d), bh\<lparr>driver := Some (snd (f (web bh) d)), trace := trace bh @ [a]\<rparr>)"
  using assms by (simp add: drv_def split: prod.splits)

lemma driver_update_same [simp]:
  "driver bh = Some d \<Longrightarrow> bh\<lparr>driver := Some d, trace := t\<rparr> = bh\<lparr>trace := t\<rparr>"
  by (cases bh) simp

lemma drv_no_driver [simp]: "driver bh = None \<Longrightarrow> drv a f bh = (Inl AttributeError, bh)"
  by (simp add: drv_def)

lemma drv_closed: "driver bh = Some d \<Longrightarrow> \<not> d_open d \<Longrightarrow> drv a f bh = (Inl WebDriverError, bh)"
  by (simp add: drv_def)

lemma drv_web [simp]: "web (snd (drv a f bh)) = web bh"
  by (simp add: drv_def split: option.splits prod.splits)

lemma sleep_time_simps [simp]:
  "sleep_time [] = 0" "sleep_time (a # tr) = (case a of Sleep ms \<Rightarrow> ms | _ \<Rightarrow> 0) + sleep_time tr"
  "sleep_time (tr @ tr') = sleep_time tr + sleep_time tr'"
  by (simp_all add: sleep_time_def)

lemma command_count_simps [simp]:
  "command_count [] = 0" "command_count (a # tr) = (if is_command a then 1 else 0) + command_count tr"
  "command_count (tr @ tr') = command_count tr + command_count tr'"
  by (simp_all add: command_count_def)

lemma trace_measures_concat:
  "sleep_time (concat (map f xs)) = sum_list (map (\<lambda>x. sleep_time (f x)) xs)"
  "command_count (concat (map f xs)) = sum_list (map (\<lambda>x. command_count (f x)) xs)"
  "count_list (concat (map f xs)) a = sum_list (map (\<lambda>x. count_list (f x) a) xs)"
  by (induction xs) simp_all

lemma wait_until_element_visible_state [simp]: "snd (wait_until_element_visible element delay bh) = bh"
  by (simp add: wait_until_element_visible_def split: sum.splits)

lemma wdw_until_true: "cond 0 \<Longrightarrow> wdw_until cond timeout = Inr True"
  unfolding wdw_until_def list_ex_iff by (metis atLeastLessThan_iff le0 set_upt zero_less_Suc)

lemma find_elements_live:
  assumes "driver bh = Some d" "d_open d"
  shows "find_elements loc bh =
           (Inr (map (WebElement (d_page d)) (match_positions (locator_matches loc) (cur_dom (web bh) d))),
            bh\<lparr>trace := trace bh @ [FindElements loc]\<rparr>)"
  using assms by (simp add: find_elements_def drv_def)

text \<open>
  C13. \<open>wait_until_element_visible\<close> never waits: for every locator, every timeout and
  every state of the browser (no driver, a closed window, a page without the element) it
  returns True at once and changes nothing.
\<close>

theorem wait_until_element_visible_always_true:
  "wait_until_element_visible element delay bh = (True, bh)"
  by (simp add: wait_until_element_visible_def wdw_until_true condition_object_truth_def)

text \<open>
  C14. On a running browser \<open>get_element\<close> returns the first element the locator
  matches on the current page, and raises NoSuchElement when there is none.
\<close>

theorem get_element_live:
  assumes "driver bh = Some d" and "d_open d"
  shows "fst (get_element loc bh) =
           (case match_positions (locator_matches loc) (cur_dom (web bh) d) of
              [] \<Rightarrow> Inl NoSuchElement
            | p # _ \<Rightarrow> Inr (WebElement (d_page d) p))"
  using assms
  by (simp add: get_element_def find_element_def find_elements_live prod.case_eq_if
      split: list.splits)

theorem get_element_live_witness:
  "driver ex_blank_handler =
     Some \<lparr>d_page = None, d_scrolls = 0, d_cookies = [], d_open = True, d_options = [], d_selected = [], d_values = []\<rparr> \<and>
   fst (get_element (By_TAG_NAME ''body'') ex_blank_handler) = Inr (WebElement None 2) \<and>
   fst (get_element (By_ID ''listing'') ex_blank_handler) = Inl NoSuchElement"
proof -
  let ?d = "\<lparr>d_page = None, d_scrolls = 0, d_cookies = [], d_open = True, d_options = [], d_selected = [], d_values = []\<rparr>"
  have d: "driver ex_blank_handler = Some ?d" by (simp add: ex_blank_handler_def)
  have m1: "match_positions (locator_matches (By_TAG_NAME ''body'')) (cur_dom (web ex_blank_handler) ?d) = [2]"
    by code_simp
  have m2: "match_positions (locator_matches (By_ID ''listing'')) (cur_dom (web ex_blank_handler) ?d) = []"
    by code_simp
  show ?thesis
    using get_element_live [OF d, of "By_TAG_NAME ''body''"] get_element_live [OF d, of "By_ID ''listing''"]
      d m1 m2 by simp
qed

text \<open>
  C31. \<open>is_displayed(selector)\<close> reports presence, not visibility: on a running browser it
  answers whether the locator finds any element on the current page, by one
  \<open>find_elements\<close> command, whether or not any of them is displayed.
\<close>

theorem is_displayed_presence:
  assumes "driver bh = Some d" and "d_open d"
  shows "is_displayed loc bh =
           (Inr (match_positions (locator_matches loc) (cur_dom (web bh) d) \<noteq> []),
            bh\<lparr>trace := trace bh @ [FindElements loc]\<rparr>)"
  using assms by (simp add: is_displayed_def find_elements_live)

theorem is_displayed_presence_witness:
  "is_displayed (By_TAG_NAME ''head'') ex_blank_handler =
     (Inr True, ex_blank_handler\<lparr>trace := [FindElements (By_TAG_NAME ''head'')]\<rparr>) \<and>
   \<not> visible_located (web ex_blank_handler)
       \<lparr>d_page = None, d_scrolls = 0, d_cookies = [], d_open = True, d_options = [], d_selected = [], d_values = []\<rparr>
       (By_TAG_NAME ''head'')"
proof -
  let ?d = "\<lparr>d_page = None, d_scrolls = 0, d_cookies = [], d_open = True, d_options = [], d_selected = [], d_values = []\<rparr>"
  have d: "driver ex_blank_handler = Some ?d" by (simp add: ex_blank_handler_def)
  have m: "match_positions (locator_matches (By_TAG_NAME ''head'')) blank_dom = [1]" by code_simp
  have t: "trace ex_blank_handler = []" by (simp add: ex_blank_handler_def)
  show ?thesis using is_displayed_presence [OF d, of "By_TAG_NAME ''head''"] m t
    by (simp add: cur_dom_def visible_located_def)
qed

text \<open>
  C32. \<open>quit_driver\<close> closes the window but keeps the driver in \<open>self.driver\<close>: after it,
  \<open>get_url\<close> returns normally and loads nothing (the WebDriverException of the closed
  window is printed and swallowed), while \<open>find_elements\<close> raises that
  WebDriverException rather than an AttributeError.
\<close>

theorem calls_after_quit_driver:
  assumes "driver bh = Some d" and "d_open d"
  shows "driver (snd (quit_driver bh)) = Some (d\<lparr>d_open := False\<rparr>) \<and>
         get_url u (snd (quit_driver bh)) = (Inr (), snd (quit_driver bh)) \<and>
         find_elements loc (snd (quit_driver bh)) = (Inl WebDriverError, snd (quit_driver bh))"
  using assms by (simp add: quit_driver_def get_url_def find_elements_def drv_def)

theorem calls_after_quit_driver_witness:
  "driver (snd (quit_driver ex_blank_handler)) =
     Some \<lparr>d_page = None, d_scrolls = 0, d_cookies = [], d_open = False, d_options = [], d_selected = [], d_values = []\<rparr> \<and>
   get_url ''https://synculario.odoo.com/jobs'' (snd (quit_driver ex_blank_handler)) = (Inr (), snd (quit_driver ex_blank_handler)) \<and>
   find_elements (By_TAG_NAME ''body'') (snd (quit_driver ex_blank_handler)) =
     (Inl WebDriverError, snd (quit_driver ex_blank_handler))"
proof -
  let ?d = "\<lparr>d_page = None, d_scrolls = 0, d_cookies = [], d_open = True, d_options = [], d_selected = [], d_values = []\<rparr>"
  have d: "driver ex_blank_handler = Some ?d" by (simp add: ex_blank_handler_def)
  show ?thesis using calls_after_quit_driver [OF d, of "''https://synculario.odoo.com/jobs''" "By_TAG_NAME ''body''"] by simp
qed

end
