(* ===== verification/Crawler.thy ===== *)
theory Crawler
  imports Browser
begin

text \<open>
  The pagination loop of \<open>get_synculario_offers\<close> (\<open>src/synculario.py\<close> lines
  22--31). One pass of \<open>while True\<close> is \<open>crawl_iteration\<close>: it ends the loop with a
  result (\<open>Inl\<close>: the captured pages, or the exception that escapes) or continues it
  with the pages captured so far (\<open>Inr\<close>). The loop itself has no bound, so it is a
  \<open>partial_function (option)\<close>: \<open>None\<close> is a crawl that never stops.
\<close>

section \<open>The loop\<close>

abbreviation page_item :: locator where
  "page_item \<equiv> By_CSS_SELECTOR ''.page-item''"

text \<open>The \<open>try\<close> block: scroll the control into view, then click it.\<close>

definition advance :: "web_element \<Rightarrow> browser_handler \<Rightarrow> unit py_result \<times> browser_handler" where
  "advance element bh =
     (case scroll_to_given_element element bh of
        (Inl e, bh') \<Rightarrow> (Inl e, bh')
      | (Inr _, bh') \<Rightarrow> element_click element bh')"

definition crawl_iteration :: "dom list \<Rightarrow> browser_handler \<Rightarrow>
    (dom list py_result \<times> browser_handler) + (dom list \<times> browser_handler)" where
  "crawl_iteration pages bh =
     (case find_elements page_item (sleep 1000 bh) of
        (Inl e, bh2) \<Rightarrow> Inl (Inl e, bh2)
      | (Inr pagination, bh2) \<Rightarrow>
          (case py_get pagination (int (length pagination) - 1) of
             Inl e \<Rightarrow> Inl (Inl e, bh2)
           | Inr element \<Rightarrow>
               (case page_source bh2 of
                  (Inl e, bh3) \<Rightarrow> Inl (Inl e, bh3)
                | (Inr html, bh3) \<Rightarrow>
                    (let pages' = pages @ [html] in
                     case advance element bh3 of
                       (Inl e, bh4) \<Rightarrow>
                         Inl (if e = ClickIntercepted then Inr pages' else Inl e, bh4)
                     | (Inr _, bh4) \<Rightarrow> Inr (pages', bh4)))))"

partial_function (option) crawl_loop :: "dom list \<Rightarrow> browser_handler \<Rightarrow>
    (dom list py_result \<times> browser_handler) option" where
  "crawl_loop pages bh =
     (case crawl_iteration pages bh of
        Inl r \<Rightarrow> Some r
      | Inr (pages', bh') \<Rightarrow> crawl_loop pages' bh')"

section \<open>Sites and traces the lemmas speak of\<close>

text \<open>The positions of the \<open>.page-item\<close> controls on a page.\<close>

definition pagination_controls :: "site \<Rightarrow> nat \<Rightarrow> nat list" where
  "pagination_controls w i = match_positions (locator_matches page_item) (s_dom w i)"

text \<open>The browser actions and pauses of one pass that reaches the click.\<close>

definition iter_trace :: "nat \<Rightarrow> nat \<Rightarrow> action list" where
  "iter_trace i c =
     [Sleep 1000, FindElements page_item, PageSource,
      ExecScript ''arguments[0].scrollIntoView(true);'', Click (WebElement (Some i) c)]"

text \<open>
  A site of \<open>k\<close> listing pages \<open>0, ..., k - 1\<close>: every page has pagination
  controls, a click on the last one moves to the next page, and on the last page it is
  intercepted.
\<close>

definition linear_site :: "site \<Rightarrow> nat \<Rightarrow> bool" where
  "linear_site w k =
     list_all (\<lambda>i. pagination_controls w i \<noteq> [] \<and>
                   s_click w i (last (pagination_controls w i)) =
                     (if Suc i < k then Navigates (Suc i) else Intercepted)) [0..<k]"

text \<open>A set of pages closed under the advance click, none of which intercepts it.\<close>

definition never_intercepted :: "site \<Rightarrow> nat set \<Rightarrow> bool" where
  "never_intercepted w S =
     (\<forall>i\<in>S. pagination_controls w i \<noteq> [] \<and>
            (case s_click w i (last (pagination_controls w i)) of
               Navigates j \<Rightarrow> j \<in> S
             | Intercepted \<Rightarrow> False
             | Stays \<Rightarrow> True))"

section \<open>One pass of the loop\<close>

lemma match_positions_length:
  "c \<in> set (match_positions P t) \<Longrightarrow> c < length (descendants t)"
  by (simp add: match_positions_def)

lemma pagination_controls_last:
  "pagination_controls w i \<noteq> [] \<Longrightarrow>
   last (pagination_controls w i) < length (descendants (s_dom w i))"
  using match_positions_length [of "last (pagination_controls w i)" "locator_matches page_item"]
  by (simp add: pagination_controls_def)

lemma crawl_iteration_live:
  assumes d: "driver bh = Some d" "d_open d" "d_page d = Some i"
  shows "crawl_iteration pages bh =
    (let w = web bh; cs = pagination_controls w i; c = last cs in
     if cs = [] then Inl (Inl IndexError, bh\<lparr>trace := trace bh @ [Sleep 1000, FindElements page_item]\<rparr>)
     else
       (let bh' = bh\<lparr>trace := trace bh @ iter_trace i c\<rparr>; pages' = pages @ [s_dom w i] in
        case s_click w i c of
          Navigates j \<Rightarrow> Inr (pages', bh'\<lparr>driver := Some (load_page w j d)\<rparr>)
        | Intercepted \<Rightarrow> Inl (Inr pages', bh')
        | Stays \<Rightarrow> Inr (pages', bh')))"
proof (cases "pagination_controls (web bh) i = []")
  case True
  with d show ?thesis
    by (simp add: crawl_iteration_def find_elements_def drv_def sleep_def cur_dom_def
        pagination_controls_def)
next
  case False
  then have lt: "last (pagination_controls (web bh) i) < length (descendants (s_dom (web bh) i))"
    by (rule pagination_controls_last)
  from False d lt show ?thesis
    by (simp add: crawl_iteration_def find_elements_def page_source_def advance_def
        scroll_to_given_element_def element_click_def element_node_def drv_def sleep_def
        cur_dom_def iter_trace_def pagination_controls_def Let_def
        split: click_outcome.splits)
qed

lemma linear_site_page:
  "linear_site w k \<Longrightarrow> i < k \<Longrightarrow>
   pagination_controls w i \<noteq> [] \<and>
   s_click w i (last (pagination_controls w i)) = (if Suc i < k then Navigates (Suc i) else Intercepted)"
  by (simp add: linear_site_def list_all_iff)

lemma crawl_loop_continue:
  "crawl_iteration pages bh = Inr (pages', bh') \<Longrightarrow> crawl_loop pages bh = crawl_loop pages' bh'"
  by (subst crawl_loop.simps) simp

lemma crawl_loop_stop:
  "crawl_iteration pages bh = Inl r \<Longrightarrow> crawl_loop pages bh = Some r"
  by (subst crawl_loop.simps) simp

lemma close_notin_iter_trace [simp]: "Close \<notin> set (iter_trace i c)"
  by (simp add: iter_trace_def)

text \<open>One pass that reaches the click pauses one second and sends four commands, one of
  them the page-source capture.\<close>

lemma iter_trace_measures [simp]:
  "sleep_time (iter_trace i c) = 1000" "command_count (iter_trace i c) = 4"
  "count_list (iter_trace i c) PageSource = 1"
  by (simp_all add: iter_trace_def)

section \<open>Termination on a linear site\<close>

text \<open>
  The loop run from page \<open>i\<close> of a linear site of \<open>k\<close> pages returns: it captures
  pages \<open>i, ..., k - 1\<close> in this order and performs exactly one pass of actions per page,
  ending on the last page with the window still open.
\<close>

lemma crawl_loop_linear_from:
  assumes "linear_site (web bh) k" "k = i + n" "i < k"
    and "driver bh = Some d" "d_open d" "d_page d = Some i"
  shows "\<exists>d'. crawl_loop pages bh =
           Some (Inr (pages @ map (s_dom (web bh)) [i..<k]),
                 bh\<lparr>driver := Some d',
                    trace := trace bh @ concat (map (\<lambda>j. iter_trace j (last (pagination_controls (web bh) j))) [i..<k])\<rparr>)
         \<and> d_open d' \<and> d_page d' = Some (k - 1)"
  using assms
proof (induction n arbitrary: i d bh pages)
  case 0
  then show ?case by simp
next
  case (Suc n)
  let ?w = "web bh"
  let ?c = "last (pagination_controls ?w i)"
  have page: "pagination_controls ?w i \<noteq> []"
    "s_click ?w i ?c = (if Suc i < k then Navigates (Suc i) else Intercepted)"
    using linear_site_page [OF Suc.prems(1,3)] by simp_all
  have it: "crawl_iteration pages bh =
      (if Suc i < k
       then Inr (pages @ [s_dom ?w i], bh\<lparr>trace := trace bh @ iter_trace i ?c,
                                          driver := Some (load_page ?w (Suc i) d)\<rparr>)
       else Inl (Inr (pages @ [s_dom ?w i]), bh\<lparr>trace := trace bh @ iter_trace i ?c\<rparr>))"
    using crawl_iteration_live [OF Suc.prems(4,5,6), of pages] page by (simp add: Let_def)
  show ?case
  proof (cases "Suc i < k")
    case True
    let ?bh' = "bh\<lparr>trace := trace bh @ iter_trace i ?c, driver := Some (load_page ?w (Suc i) d)\<rparr>"
    have "\<exists>d'. crawl_loop (pages @ [s_dom ?w i]) ?bh' =
           Some (Inr (pages @ [s_dom ?w i] @ map (s_dom ?w) [Suc i..<k]),
                 ?bh'\<lparr>driver := Some d',
                      trace := trace ?bh' @ concat (map (\<lambda>j. iter_trace j (last (pagination_controls ?w j))) [Suc i..<k])\<rparr>)
         \<and> d_open d' \<and> d_page d' = Some (k - 1)"
      using Suc.IH [of ?bh' "Suc i" "load_page ?w (Suc i) d" "pages @ [s_dom ?w i]"] Suc.prems True
      by (simp add: load_page_def)
    then show ?thesis
      using it True crawl_loop_continue [of pages bh] by (simp add: upt_conv_Cons)
  next
    case False
    with Suc.prems have "k = Suc i" by simp
    with it False Suc.prems show ?thesis
      by (intro exI [of _ d]) (simp add: crawl_loop_stop)
  qed
qed

section \<open>Divergence and the empty pagination\<close>

text \<open>
  No iteration cap: from a page of a set that no advance click leaves and none
  intercepts, the loop never returns. Fixpoint induction shows that no result is ever
  produced while the handler is on a page of the set.
\<close>

lemma crawl_loop_never_returns:
  assumes "crawl_loop pages bh = Some r"
  shows "never_intercepted (web bh) S \<longrightarrow> (\<forall>d i. driver bh = Some d \<longrightarrow> d_open d \<longrightarrow>
           d_page d = Some i \<longrightarrow> i \<notin> S)"
proof (rule crawl_loop.raw_induct [where P = "\<lambda>pages bh r. never_intercepted (web bh) S \<longrightarrow>
         (\<forall>d i. driver bh = Some d \<longrightarrow> d_open d \<longrightarrow> d_page d = Some i \<longrightarrow> i \<notin> S)", OF _ assms])
  fix f :: "dom list \<Rightarrow> browser_handler \<Rightarrow> (dom list py_result \<times> browser_handler) option"
    and pages bh r
  assume IH: "\<And>pages bh r. f pages bh = Some r \<Longrightarrow> never_intercepted (web bh) S \<longrightarrow>
         (\<forall>d i. driver bh = Some d \<longrightarrow> d_open d \<longrightarrow> d_page d = Some i \<longrightarrow> i \<notin> S)"
    and run: "(case crawl_iteration pages bh of Inl r \<Rightarrow> Some r | Inr (pages', bh') \<Rightarrow> f pages' bh') = Some r"
  show "never_intercepted (web bh) S \<longrightarrow>
        (\<forall>d i. driver bh = Some d \<longrightarrow> d_open d \<longrightarrow> d_page d = Some i \<longrightarrow> i \<notin> S)"
  proof (intro impI allI notI)
    fix d i
    assume ni: "never_intercepted (web bh) S" and d: "driver bh = Some d" "d_open d" "d_page d = Some i"
      and iS: "i \<in> S"
    let ?w = "web bh"
    let ?c = "last (pagination_controls ?w i)"
    from ni iS have cs: "pagination_controls ?w i \<noteq> []"
      and click: "case s_click ?w i ?c of Navigates j \<Rightarrow> j \<in> S | Intercepted \<Rightarrow> False | Stays \<Rightarrow> True"
      by (auto simp: never_intercepted_def)
    have it: "crawl_iteration pages bh = (case s_click ?w i ?c of
          Navigates j \<Rightarrow> Inr (pages @ [s_dom ?w i],
                   bh\<lparr>trace := trace bh @ iter_trace i ?c, driver := Some (load_page ?w j d)\<rparr>)
        | Intercepted \<Rightarrow> Inl (Inr (pages @ [s_dom ?w i]), bh\<lparr>trace := trace bh @ iter_trace i ?c\<rparr>)
        | Stays \<Rightarrow> Inr (pages @ [s_dom ?w i], bh\<lparr>trace := trace bh @ iter_trace i ?c\<rparr>))"
      using crawl_iteration_live [OF d, of pages] cs by (simp add: Let_def)
    show False
    proof (cases "s_click ?w i ?c")
      case (Navigates j)
      with run it have "f (pages @ [s_dom ?w i])
          (bh\<lparr>trace := trace bh @ iter_trace i ?c, driver := Some (load_page ?w j d)\<rparr>) = Some r"
        by simp
      from IH [OF this] ni d click Navigates show False by (simp add: load_page_def)
    next
      case Intercepted
      with click show False by simp
    next
      case Stays
      with run it have "f (pages @ [s_dom ?w i]) (bh\<lparr>trace := trace bh @ iter_trace i ?c\<rparr>) = Some r"
        by simp
      from IH [OF this] ni d iS show False by simp
    qed
  qed
qed

lemma crawl_loop_diverges:
  assumes "never_intercepted (web bh) S" "driver bh = Some d" "d_open d" "d_page d = Some i" "i \<in> S"
  shows "crawl_loop pages bh = None"
proof (cases "crawl_loop pages bh")
  case (Some r)
  from crawl_loop_never_returns [OF Some, of S] assms show ?thesis by blast
qed

text \<open>
  On the blank start page (the request for the listing failed and was swallowed) there is
  no pagination control either.
\<close>

lemma blank_dom_no_controls: "match_positions (locator_matches page_item) blank_dom = []"
  by code_simp

lemma crawl_loop_blank:
  assumes "driver bh = Some d" "d_open d" "d_page d = None"
  shows "crawl_loop pages bh =
           Some (Inl IndexError, bh\<lparr>trace := trace bh @ [Sleep 1000, FindElements page_item]\<rparr>)"
  using assms blank_dom_no_controls
  by (subst crawl_loop.simps)
    (simp add: crawl_iteration_def find_elements_def drv_def sleep_def cur_dom_def)

text \<open>
  No pagination control on the page: \<open>pagination[len(pagination)-1]\<close> is
  \<open>pagination[-1]\<close> of an empty list, and the IndexError escapes the loop after the
  pause and the lookup, before any page is captured.
\<close>

lemma crawl_loop_no_controls:
  assumes "driver bh = Some d" "d_open d" "d_page d = Some i" "pagination_controls (web bh) i = []"
  shows "crawl_loop pages bh =
           Some (Inl IndexError, bh\<lparr>trace := trace bh @ [Sleep 1000, FindElements page_item]\<rparr>)"
  using crawl_iteration_live [OF assms(1-3), of pages] assms(4)
  by (simp add: crawl_loop_stop)

section \<open>The loop is the library's while loop\<close>

lemma crawl_loop_sound:
  assumes "crawl_loop pages bh = Some r"
  shows "while_break (\<lambda>(pages, bh). crawl_iteration pages bh) (pages, bh) = Some r"
proof (rule crawl_loop.raw_induct
    [where P = "\<lambda>pages bh r. while_break (\<lambda>(pages, bh). crawl_iteration pages bh) (pages, bh) = Some r",
     OF _ assms])
  fix f :: "dom list \<Rightarrow> browser_handler \<Rightarrow> (dom list py_result \<times> browser_handler) option"
    and pages bh r
  assume IH: "\<And>pages bh r. f pages bh = Some r \<Longrightarrow>
      while_break (\<lambda>(pages, bh). crawl_iteration pages bh) (pages, bh) = Some r"
    and run: "(case crawl_iteration pages bh of Inl r \<Rightarrow> Some r | Inr (pages', bh') \<Rightarrow> f pages' bh') = Some r"
  show "while_break (\<lambda>(pages, bh). crawl_iteration pages bh) (pages, bh) = Some r"
  proof (cases "crawl_iteration pages bh")
    case (Inl r')
    then show ?thesis using run by simp
  next
    case (Inr y)
    obtain pages' bh' where y: "y = (pages', bh')" by fastforce
    with Inr run have "f pages' bh' = Some r" by simp
    then show ?thesis using IH Inr y by simp
  qed
qed

text \<open>
  The pagination loop, written as a recursive function that calls itself after every
  pass that does not break, is the library's \<open>while_option\<close> iterating one pass
  (\<open>crawl_iteration\<close>) from the initial pages and handler: both return the same result
  and both fail to return on the same inputs.
\<close>

lemma crawl_loop_while_break:
  "crawl_loop pages bh = while_break (\<lambda>(pages, bh). crawl_iteration pages bh) (pages, bh)"
proof -
  let ?f = "\<lambda>y. crawl_loop (fst y) (snd y)"
  have "?f (pages, bh) = while_break (\<lambda>(pages, bh). crawl_iteration pages bh) (pages, bh)"
  proof (rule while_break_eqI)
    fix y :: "dom list \<times> browser_handler"
    show "?f y = (case (\<lambda>(pages, bh). crawl_iteration pages bh) y of Inl r \<Rightarrow> Some r | Inr y' \<Rightarrow> ?f y')"
    proof (cases y)
      case (Pair a b)
      then show ?thesis by (simp add: crawl_loop.simps [of a b] split: sum.splits)
    qed
  next
    fix r assume "?f (pages, bh) = Some r"
    then show "while_break (\<lambda>(pages, bh). crawl_iteration pages bh) (pages, bh) = Some r"
      by (simp add: crawl_loop_sound)
  qed
  then show ?thesis by simp
qed

end
