(* ===== verification/Parser.thy ===== *)
theory Parser
  imports Markup
begin

text \<open>
  The extraction half of \<open>get_synculario_offers\<close> (\<open>src/synculario.py\<close> lines
  34--47): every captured page is parsed, every \<open>div.job-list\<close> block of it becomes
  one row of nine strings, and the rows, page by page and block by block, become a
  DataFrame with nine named columns. A block that lacks one of the elements the row
  reads raises IndexError (or KeyError for an anchor without \<open>href\<close>), which nothing
  catches.
\<close>

section \<open>Rows\<close>

definition base_url :: string where
  "base_url = ''https://synculario.odoo.com''"

text \<open>
  The five \<open>find_all\<close> calls run first and cannot fail; the list literal then reads
  its elements left to right, so the first missing element decides the exception.
  The two prefixed fields are cleaned by stripping first and then deleting every
  occurrence of the prefix.
\<close>

text \<open>\<open>str(x).strip().replace(prefix, "")\<close>.\<close>

definition clean_field :: "string \<Rightarrow> string \<Rightarrow> string" where
  "clean_field prefix s = py_replace (py_strip s) prefix ''''"

definition parse_row :: "string \<Rightarrow> node \<Rightarrow> string list py_result" where
  "parse_row base row =
     (let job_title = find_all row ''h2'' None;
          link = find_all row ''a'' (Some ''button-read2'');
          location = find_all row ''h5'' None;
          job_type = find_all row ''li'' (Some ''company'');
          pay_rate = find_all row ''li'' (Some ''job-type temporary'')
      in rbind (py_get job_title 0) (\<lambda>t.
         rbind (rbind (py_get link 0) (\<lambda>a. get_item a ''href'')) (\<lambda>href.
         rbind (py_get location 0) (\<lambda>loc.
         rbind (py_get job_type 0) (\<lambda>jt.
         rbind (py_get pay_rate 0) (\<lambda>pr.
           Inr [py_strip (text_of t), base @ href, ''synculario'', py_strip (text_of loc), '''',
                clean_field ''Contract type:\<newline>'' (text_of jt), '''',
                clean_field ''Salary:\<newline>\<newline>'' (text_of pr), '''']))))))"

text \<open>\<open>soup.findAll("div", attrs="job-list")\<close> and the inner loop over its rows.\<close>

definition parse_page :: "string \<Rightarrow> dom \<Rightarrow> string list list py_result" where
  "parse_page base html = py_map (parse_row base) (find_all html ''div'' (Some ''job-list''))"

text \<open>The outer loop: \<open>data\<close> collects the rows of every page in order.\<close>

definition parse_pages :: "string \<Rightarrow> dom list \<Rightarrow> string list list py_result" where
  "parse_pages base pages = rbind (py_map (parse_page base) pages) (\<lambda>rss. Inr (concat rss))"

section \<open>The table\<close>

definition columns :: "string list" where
  "columns = [''job_title'', ''url'', ''agency'', ''location'', ''job_type'', ''emp_type'',
              ''pay_interval'', ''pay_rate'', ''start_length'']"

record data_frame =
  df_columns :: "string list"
  df_rows :: "string list list"

text \<open>
  \<open>pd.DataFrame(data, columns=...)\<close>: the rows are laid out as wide as the widest; when
  that width is not the number of columns, the constructor raises ValueError. Shorter rows
  would be padded with missing values, which the table type does not hold.
\<close>

definition DataFrame :: "string list list \<Rightarrow> string list \<Rightarrow> data_frame py_result" where
  "DataFrame data cols =
     (if data \<noteq> [] \<and> foldr max (map length data) 0 \<noteq> length cols then Inl ValueError
      else if list_all (\<lambda>r. length r = length cols) data
      then Inr \<lparr>df_columns = cols, df_rows = data\<rparr> else Inl OutsideModel)"

fun column_index :: "string list \<Rightarrow> string \<Rightarrow> nat option" where
  "column_index [] c = None"
| "column_index (x # xs) c = (if x = c then Some 0 else map_option Suc (column_index xs c))"

text \<open>\<open>df[c]\<close>: the column's values, row by row; an unknown column raises KeyError.\<close>

definition df_column :: "data_frame \<Rightarrow> string \<Rightarrow> string list py_result" where
  "df_column df c =
     (case column_index (df_columns df) c of
        None \<Rightarrow> Inl KeyError
      | Some j \<Rightarrow> Inr (map (\<lambda>r. r ! j) (df_rows df)))"

text \<open>All job blocks of the captured pages, page by page and in document order.\<close>

definition job_blocks :: "dom list \<Rightarrow> node list" where
  "job_blocks pages = concat (map (\<lambda>p. find_all p ''div'' (Some ''job-list'')) pages)"

section \<open>Example blocks\<close>

definition ex_block :: "string \<Rightarrow> node" where
  "ex_block title = Elem ''div'' [(''class'', ''job-list'')]
     [Elem ''h2'' [] [Text title],
      Elem ''a'' [(''class'', ''button-read2''), (''href'', ''/jobs/42'')] [Text ''Read more''],
      Elem ''h5'' [] [Text ''Prague''],
      Elem ''ul'' []
        [Elem ''li'' [(''class'', ''company'')] [Text ''Contract type:\<newline>Full-time''],
         Elem ''li'' [(''class'', ''job-type temporary'')] [Text ''Salary:\<newline>\<newline>40 EUR'']]]"

text \<open>A block whose read-more anchor has no \<open>href\<close>, and a block without a title.\<close>

definition ex_no_href_block :: node where
  "ex_no_href_block = Elem ''div'' [(''class'', ''job-list'')]
     [Elem ''h2'' [] [Text ''Tester''], Elem ''a'' [(''class'', ''button-read2'')] [Text ''Read more'']]"

definition ex_untitled_block :: node where
  "ex_untitled_block = Elem ''div'' [(''class'', ''job-list'')] [Elem ''h5'' [] [Text ''Prague'']]"

section \<open>Lemmas\<close>

text \<open>The values a well-formed block yields, named for the statements below.\<close>

lemma parse_row_Inr:
  assumes "find_all row ''h2'' None = t # ts"
    and "find_all row ''a'' (Some ''button-read2'') = a # anchors"
    and "attr_of a ''href'' = Some href"
    and "find_all row ''h5'' None = l # ls"
    and "find_all row ''li'' (Some ''company'') = j # js"
    and "find_all row ''li'' (Some ''job-type temporary'') = p # ps"
  shows "parse_row base row =
           Inr [py_strip (text_of t), base @ href, ''synculario'', py_strip (text_of l), '''',
                clean_field ''Contract type:\<newline>'' (text_of j), '''',
                clean_field ''Salary:\<newline>\<newline>'' (text_of p), '''']"
  using assms by (simp add: parse_row_def get_item_def)

lemma parse_row_length: "parse_row base row = Inr r \<Longrightarrow> length r = 9"
  by (auto simp: parse_row_def Let_def rbind_def split: sum.splits)

lemma parse_page_rows_length:
  "parse_page base html = Inr rs \<Longrightarrow> list_all (\<lambda>r. length r = 9) rs"
  unfolding parse_page_def by (erule py_map_Inr_all) (rule parse_row_length)

lemma parse_pages_rows_length:
  assumes "parse_pages base pages = Inr rs"
  shows "list_all (\<lambda>r. length r = 9) rs"
proof -
  from assms obtain rss where rss: "py_map (parse_page base) pages = Inr rss" and rs: "rs = concat rss"
    by (auto simp: parse_pages_def rbind_def split: sum.splits)
  from rss have "list_all (list_all (\<lambda>r. length r = 9)) rss"
    by (rule py_map_Inr_all) (rule parse_page_rows_length)
  then show ?thesis by (simp add: rs list_all_iff)
qed

lemma foldr_max_uniform:
  "list_all (\<lambda>r. length r = n) data \<Longrightarrow> data \<noteq> [] \<Longrightarrow> foldr max (map length data) 0 = n"
proof (induction data)
  case (Cons r data)
  then show ?case by (cases "data = []") auto
qed simp

lemma DataFrame_uniform:
  "list_all (\<lambda>r. length r = length cols) data \<Longrightarrow> DataFrame data cols = Inr \<lparr>df_columns = cols, df_rows = data\<rparr>"
  by (cases "data = []") (simp_all add: DataFrame_def foldr_max_uniform)

lemma DataFrame_Inr:
  "DataFrame data cols = Inr df \<longleftrightarrow>
     list_all (\<lambda>r. length r = length cols) data \<and> df = \<lparr>df_columns = cols, df_rows = data\<rparr>"
  by (auto simp: DataFrame_uniform) (auto simp: DataFrame_def split: if_splits)

lemma parse_pages_Cons:
  "parse_pages base (p # ps) =
     rbind (parse_page base p) (\<lambda>a. rbind (parse_pages base ps) (\<lambda>b. Inr (a @ b)))"
  by (auto simp: parse_pages_def rbind_def split: sum.splits)

lemma length_columns: "length columns = 9"
  by (simp add: columns_def)

lemma column_index_columns:
  "column_index columns ''job_type'' = Some 4" "column_index columns ''emp_type'' = Some 5"
  by (simp_all add: columns_def)

text \<open>The nested loops over pages and blocks are one loop over all blocks, in order.\<close>

lemma parse_pages_blocks: "parse_pages base pages = py_map (parse_row base) (job_blocks pages)"
  by (simp add: parse_pages_def parse_page_def [abs_def] job_blocks_def py_map_concat py_map_map)

lemma parse_row_placeholders:
  assumes "parse_row base row = Inr r"
  shows "r ! 4 = '''' \<and> r ! 6 = '''' \<and> r ! 8 = '''' \<and>
         r ! 5 = clean_field ''Contract type:\<newline>'' (text_of (hd (find_all row ''li'' (Some ''company''))))"
  using assms
  by (auto simp: parse_row_def get_item_def Let_def rbind_def split: sum.splits option.splits list.splits)

lemma list_all2_nth_map:
  "list_all2 (\<lambda>x y. P x y) xs ys \<Longrightarrow> (\<And>x y. P x y \<Longrightarrow> g y = h x) \<Longrightarrow> map g ys = map h xs"
  by (induction rule: list_all2_induct) simp_all

text \<open>
  C7. Every row's \<open>url\<close> is the base URL followed, with no normalisation, by the
  \<open>href\<close> of the first read-more anchor of its block.
\<close>

theorem parse_row_url:
  assumes "parse_row base row = Inr r"
  shows "\<exists>a href. find_all row ''a'' (Some ''button-read2'') \<noteq> [] \<and>
           a = hd (find_all row ''a'' (Some ''button-read2'')) \<and>
           attr_of a ''href'' = Some href \<and> r ! 1 = base @ href"
  using assms
  by (auto simp: parse_row_def get_item_def Let_def rbind_def split: sum.splits option.splits list.splits)

theorem parse_row_url_witness:
  "parse_row base_url (ex_block ''Tester'') =
     Inr [''Tester'', ''https://synculario.odoo.com/jobs/42'', ''synculario'', ''Prague'', '''',
          ''Full-time'', '''', ''40 EUR'', ''''] \<and>
   (\<exists>a href. find_all (ex_block ''Tester'') ''a'' (Some ''button-read2'') \<noteq> [] \<and>
      a = hd (find_all (ex_block ''Tester'') ''a'' (Some ''button-read2'')) \<and>
      attr_of a ''href'' = Some href \<and> ''https://synculario.odoo.com/jobs/42'' = base_url @ href)"
proof -
  have r: "parse_row base_url (ex_block ''Tester'') =
     Inr [''Tester'', ''https://synculario.odoo.com/jobs/42'', ''synculario'', ''Prague'', '''',
          ''Full-time'', '''', ''40 EUR'', '''']"
    by code_simp
  show ?thesis using parse_row_url [OF r] r by simp
qed

text \<open>
  C8. A job block the row extraction fails on, on any captured page, makes the whole
  parse fail with an exception: no row of any page is emitted and none is skipped.
\<close>

theorem parse_pages_block_error:
  assumes "b \<in> set (job_blocks pages)" and "parse_row base b = Inl e"
  shows "\<exists>e'. parse_pages base pages = Inl e'"
  using py_map_Inl [of b "job_blocks pages" "parse_row base", OF assms] by (simp add: parse_pages_blocks)

theorem parse_pages_block_error_witness:
  "ex_untitled_block \<in> set (job_blocks [Elem ''[document]'' [] [ex_block ''Tester'', ex_untitled_block]]) \<and>
   parse_row base_url ex_untitled_block = Inl IndexError \<and>
   (\<exists>e'. parse_pages base_url [Elem ''[document]'' [] [ex_block ''Tester'', ex_untitled_block]] = Inl e')"
proof -
  have b: "ex_untitled_block \<in> set (job_blocks [Elem ''[document]'' [] [ex_block ''Tester'', ex_untitled_block]])"
    by code_simp
  have e: "parse_row base_url ex_untitled_block = Inl IndexError" by code_simp
  show ?thesis using parse_pages_block_error [OF b e] b e by simp
qed

text \<open>
  C9. A block with a title whose first read-more anchor has no \<open>href\<close> attribute
  raises KeyError (from \<open>link[0]['href']\<close>), not IndexError.
\<close>

theorem parse_row_no_href:
  assumes "find_all row ''h2'' None \<noteq> []"
    and "find_all row ''a'' (Some ''button-read2'') = a # anchors" and "attr_of a ''href'' = None"
  shows "parse_row base row = Inl KeyError"
  using assms by (auto simp: parse_row_def get_item_def neq_Nil_conv)

theorem parse_row_no_href_witness:
  "find_all ex_no_href_block ''h2'' None \<noteq> [] \<and>
   find_all ex_no_href_block ''a'' (Some ''button-read2'') =
     [Elem ''a'' [(''class'', ''button-read2'')] [Text ''Read more'']] \<and>
   attr_of (Elem ''a'' [(''class'', ''button-read2'')] [Text ''Read more'']) ''href'' = None \<and>
   parse_row base_url ex_no_href_block = Inl KeyError"
proof -
  have t: "find_all ex_no_href_block ''h2'' None \<noteq> []" by code_simp
  have a: "find_all ex_no_href_block ''a'' (Some ''button-read2'') =
     [Elem ''a'' [(''class'', ''button-read2'')] [Text ''Read more'']]" by code_simp
  have h: "attr_of (Elem ''a'' [(''class'', ''button-read2'')] [Text ''Read more'']) ''href'' = None"
    by simp
  show ?thesis using parse_row_no_href [OF t a h] t a h by simp
qed

text \<open>
  C10. Row order: the \<open>k\<close>-th row of the table comes from the \<open>k\<close>-th job block
  of the captured pages, taken in snapshot order and, within a snapshot, in document order.
\<close>

theorem parse_pages_rows_in_order:
  assumes "parse_pages base pages = Inr rows"
  shows "list_all2 (\<lambda>b r. parse_row base b = Inr r) (job_blocks pages) rows"
  using assms by (simp add: parse_pages_blocks py_map_Inr_iff)

theorem parse_pages_rows_in_order_witness:
  "parse_pages base_url [Elem ''[document]'' [] [ex_block ''Tester'', ex_block ''Analyst'']] =
     Inr [[''Tester'', ''https://synculario.odoo.com/jobs/42'', ''synculario'', ''Prague'', '''',
           ''Full-time'', '''', ''40 EUR'', ''''],
          [''Analyst'', ''https://synculario.odoo.com/jobs/42'', ''synculario'', ''Prague'', '''',
           ''Full-time'', '''', ''40 EUR'', '''']] \<and>
   list_all2 (\<lambda>b r. parse_row base_url b = Inr r)
     (job_blocks [Elem ''[document]'' [] [ex_block ''Tester'', ex_block ''Analyst'']])
     [[''Tester'', ''https://synculario.odoo.com/jobs/42'', ''synculario'', ''Prague'', '''',
       ''Full-time'', '''', ''40 EUR'', ''''],
      [''Analyst'', ''https://synculario.odoo.com/jobs/42'', ''synculario'', ''Prague'', '''',
       ''Full-time'', '''', ''40 EUR'', '''']]"
proof -
  have p: "parse_pages base_url [Elem ''[document]'' [] [ex_block ''Tester'', ex_block ''Analyst'']] =
     Inr [[''Tester'', ''https://synculario.odoo.com/jobs/42'', ''synculario'', ''Prague'', '''',
           ''Full-time'', '''', ''40 EUR'', ''''],
          [''Analyst'', ''https://synculario.odoo.com/jobs/42'', ''synculario'', ''Prague'', '''',
           ''Full-time'', '''', ''40 EUR'', '''']]"
    by code_simp
  show ?thesis using parse_pages_rows_in_order [OF p] p by simp
qed

text \<open>
  C11. Whatever the pages hold, a successful parse gives a DataFrame whose
  \<open>job_type\<close> column is empty in every row, while its \<open>emp_type\<close> column holds the
  cleaned text of each block's \<open>li.company\<close> (the contract type).
\<close>

theorem dataframe_job_type_empty:
  assumes "parse_pages base pages = Inr rows"
  shows "\<exists>df. DataFrame rows columns = Inr df \<and>
           df_column df ''job_type'' = Inr (replicate (length rows) '''') \<and>
           df_column df ''emp_type'' =
             Inr (map (\<lambda>b. clean_field ''Contract type:\<newline>'' (text_of (hd (find_all b ''li'' (Some ''company''))))) (job_blocks pages))"
proof -
  have rel: "list_all2 (\<lambda>b r. parse_row base b = Inr r) (job_blocks pages) rows"
    using assms by (simp add: parse_pages_blocks py_map_Inr_iff)
  have len: "list_all (\<lambda>r. length r = length columns) rows"
    using parse_pages_rows_length [OF assms] length_columns by simp
  have emp: "map (\<lambda>r. r ! 5) rows =
      map (\<lambda>b. clean_field ''Contract type:\<newline>'' (text_of (hd (find_all b ''li'' (Some ''company''))))) (job_blocks pages)"
    using rel by (rule list_all2_nth_map) (simp add: parse_row_placeholders)
  have job: "map (\<lambda>r. r ! 4) rows = map (\<lambda>b. '''') (job_blocks pages)"
    using rel by (rule list_all2_nth_map) (simp add: parse_row_placeholders)
  have "length (job_blocks pages) = length rows"
    using rel by (rule list_all2_lengthD)
  with job emp show ?thesis
    by (simp add: DataFrame_uniform [OF len] df_column_def column_index_columns map_replicate_const)
qed

theorem dataframe_job_type_empty_witness:
  "parse_pages base_url [Elem ''[document]'' [] [ex_block ''Tester'']] =
     Inr [[''Tester'', ''https://synculario.odoo.com/jobs/42'', ''synculario'', ''Prague'', '''',
           ''Full-time'', '''', ''40 EUR'', '''']] \<and>
   (\<exists>df. DataFrame [[''Tester'', ''https://synculario.odoo.com/jobs/42'', ''synculario'', ''Prague'', '''',
           ''Full-time'', '''', ''40 EUR'', '''']] columns = Inr df \<and>
      df_column df ''job_type'' = Inr [''''] \<and> df_column df ''emp_type'' = Inr [''Full-time''])"
proof -
  have p: "parse_pages base_url [Elem ''[document]'' [] [ex_block ''Tester'']] =
     Inr [[''Tester'', ''https://synculario.odoo.com/jobs/42'', ''synculario'', ''Prague'', '''',
           ''Full-time'', '''', ''40 EUR'', '''']]"
    by code_simp
  have c: "map (\<lambda>b. clean_field ''Contract type:\<newline>'' (text_of (hd (find_all b ''li'' (Some ''company'')))))
      (job_blocks [Elem ''[document]'' [] [ex_block ''Tester'']]) = [''Full-time'']"
    by code_simp
  show ?thesis using dataframe_job_type_empty [OF p] p c by simp
qed

text \<open>
  C12. Cleaning a prefixed field: when the stripped text is the prefix followed by a value
  that does not contain the prefix, the result is that value, kept verbatim (whitespace
  between the prefix and the value is not trimmed).
\<close>

theorem clean_field_prefix:
  assumes "py_strip s = prefix @ v" and "prefix \<noteq> []" and "\<not> py_contains prefix v"
  shows "clean_field prefix s = v"
  using assms by (simp add: clean_field_def py_replace_prefix py_replace_no_occurrence)

theorem clean_field_prefix_witness:
  "py_strip ''Contract type:\<newline>Full-time'' = ''Contract type:\<newline>'' @ ''Full-time'' \<and>
   ''Contract type:\<newline>'' \<noteq> [] \<and> \<not> py_contains ''Contract type:\<newline>'' ''Full-time'' \<and>
   clean_field ''Contract type:\<newline>'' ''Contract type:\<newline>Full-time'' = ''Full-time'' \<and>
   py_strip ''Contract type:\<newline>  Full-time'' = ''Contract type:\<newline>'' @ ''  Full-time'' \<and>
   \<not> py_contains ''Contract type:\<newline>'' ''  Full-time'' \<and>
   clean_field ''Contract type:\<newline>'' ''Contract type:\<newline>  Full-time'' = ''  Full-time''"
proof -
  have s1: "py_strip ''Contract type:\<newline>Full-time'' = ''Contract type:\<newline>'' @ ''Full-time''" by code_simp
  have s2: "py_strip ''Contract type:\<newline>  Full-time'' = ''Contract type:\<newline>'' @ ''  Full-time''" by code_simp
  have n: "''Contract type:\<newline>'' \<noteq> []" by simp
  have c1: "\<not> py_contains ''Contract type:\<newline>'' ''Full-time''" by code_simp
  have c2: "\<not> py_contains ''Contract type:\<newline>'' ''  Full-time''" by code_simp
  show ?thesis using clean_field_prefix [OF s1 n c1] clean_field_prefix [OF s2 n c2] s1 s2 n c1 c2
    by simp
qed

text \<open>One row per job block.\<close>

lemma parse_pages_length:
  "parse_pages base pages = Inr rows \<Longrightarrow> length rows = length (job_blocks pages)"
  by (simp add: parse_pages_blocks py_map_Inr_iff list_all2_lengthD)

end
