(* ===== verification/Pipeline.thy ===== *)
theory Pipeline
  imports Crawler Parser
begin

text \<open>
  \<open>get_synculario_offers\<close> (\<open>src/synculario.py\<close> lines 11--47): launch the browser,
  open the listing, run the pagination loop, close the window, then parse the captured
  pages into the DataFrame. The installed driver path and the \<open>http_proxy\<close> variable
  come from the environment. The result is \<open>None\<close> when the loop never stops, and
  otherwise the outcome with the handler's final state, whose trace records every browser
  action.
\<close>

section \<open>The pipeline\<close>

definition link :: string where
  "link = ''https://synculario.odoo.com/academyjobs''"

definition get_synculario_offers ::
    "site \<Rightarrow> string \<Rightarrow> string option \<Rightarrow> (data_frame py_result \<times> browser_handler) option" where
  "get_synculario_offers w installed http_proxy =
     (let bh0 = BrowserHandler_init w installed True;
          bh1 = set_driver http_proxy bh0
      in case get_url link bh1 of
           (Inl e, bh2) \<Rightarrow> Some (Inl e, bh2)
         | (Inr _, bh2) \<Rightarrow>
             (case crawl_loop [] bh2 of
                None \<Rightarrow> None
              | Some (Inl e, bh3) \<Rightarrow> Some (Inl e, bh3)
              | Some (Inr pages, bh3) \<Rightarrow>
                  (case quit_driver bh3 of
                     (Inl e, bh4) \<Rightarrow> Some (Inl e, bh4)
                   | (Inr _, bh4) \<Rightarrow>
                       Some (rbind (parse_pages base_url pages) (\<lambda>data. DataFrame data columns), bh4))))"

text \<open>The handler once the browser is up and the listing is requested.\<close>

definition launched :: "site \<Rightarrow> string \<Rightarrow> string option \<Rightarrow> browser_handler" where
  "launched w installed http_proxy = set_driver http_proxy (BrowserHandler_init w installed True)"

definition launch_trace :: "string option \<Rightarrow> action list" where
  "launch_trace http_proxy =
     [Install, Launch (chrome_options (case http_proxy of None \<Rightarrow> [] | Some p \<Rightarrow> p) True), DeleteCookies]"

section \<open>Lemmas\<close>

lemma launched_driver:
  "\<exists>d. driver (launched w installed http_proxy) = Some d \<and> d_open d \<and> d_page d = None"
  by (simp add: launched_def set_driver_def Let_def)

lemma launched_web [simp]: "web (launched w installed http_proxy) = w"
  by (simp add: launched_def set_driver_def BrowserHandler_init_def Let_def)

lemma launched_trace [simp]: "trace (launched w installed http_proxy) = launch_trace http_proxy"
  by (simp add: launched_def set_driver_def BrowserHandler_init_def launch_trace_def Let_def)

text \<open>Opening the listing: a page that loads, or a failure that is swallowed.\<close>

lemma get_url_loads:
  assumes "driver bh = Some d" "d_open d" "s_resolve (web bh) url = Some i"
  shows "get_url url bh =
           (Inr (), bh\<lparr>driver := Some (load_page (web bh) i d), trace := trace bh @ [Get url, Sleep 100]\<rparr>)"
  using assms by (simp add: get_url_def drv_def sleep_def)

lemma get_url_fails:
  assumes "driver bh = Some d" "d_open d" "s_resolve (web bh) url = None"
  shows "get_url url bh = (Inr (), bh\<lparr>trace := trace bh @ [Get url]\<rparr>)"
  using assms by (simp add: get_url_def drv_def)

lemma quit_driver_open:
  assumes "driver bh = Some d" "d_open d"
  shows "quit_driver bh = (Inr (), bh\<lparr>driver := Some (d\<lparr>d_open := False\<rparr>), trace := trace bh @ [Close]\<rparr>)"
  using assms by (simp add: quit_driver_def drv_def)

lemma get_synculario_offers_launched:
  "get_synculario_offers w installed http_proxy =
     (case get_url link (launched w installed http_proxy) of
        (Inl e, bh2) \<Rightarrow> Some (Inl e, bh2)
      | (Inr _, bh2) \<Rightarrow>
          (case crawl_loop [] bh2 of
             None \<Rightarrow> None
           | Some (Inl e, bh3) \<Rightarrow> Some (Inl e, bh3)
           | Some (Inr pages, bh3) \<Rightarrow>
               (case quit_driver bh3 of
                  (Inl e, bh4) \<Rightarrow> Some (Inl e, bh4)
                | (Inr _, bh4) \<Rightarrow>
                    Some (rbind (parse_pages base_url pages) (\<lambda>data. DataFrame data columns), bh4))))"
  by (simp add: get_synculario_offers_def launched_def)

end
