(* ===== verification/Crawl_Spec.thy ===== *)
theory Crawl_Spec
  imports Crawler
begin

text \<open>
  The abstract contract of the pagination crawler: a state machine with the phases
  Loading, Capturing, Advancing and Done. Loading settles the page; Capturing appends the
  current page to the snapshots; Advancing clicks the last pagination control and goes
  back to Loading, or, when the click is intercepted, enters Done, where the session is
  closed. The step relation is over the pages of a site; the code's loop
  (\<open>Crawler.crawl_loop\<close>) is shown to refine it, and the invariants of the machine are
  proved by rule induction over its runs.
\<close>

section \<open>The machine\<close>

datatype phase = Loading | Capturing | Advancing | Done

record crawl_state =
  phase :: phase
  cur_page :: nat
  snapshots :: "dom list"
  closes :: nat

text \<open>The click the Advancing phase performs on a page: on its last control.\<close>

definition advance_click :: "site \<Rightarrow> nat \<Rightarrow> click_outcome option" where
  "advance_click w i =
     (case pagination_controls w i of [] \<Rightarrow> None | cs \<Rightarrow> Some (s_click w i (last cs)))"

inductive crawl_step :: "site \<Rightarrow> crawl_state \<Rightarrow> crawl_state \<Rightarrow> bool" for w :: site where
  settle: "phase c = Loading \<Longrightarrow> crawl_step w c (c\<lparr>phase := Capturing\<rparr>)"
| capture: "phase c = Capturing \<Longrightarrow>
     crawl_step w c (c\<lparr>phase := Advancing, snapshots := snapshots c @ [s_dom w (cur_page c)]\<rparr>)"
| advance: "phase c = Advancing \<Longrightarrow> advance_click w (cur_page c) = Some (Navigates j) \<Longrightarrow>
     crawl_step w c (c\<lparr>phase := Loading, cur_page := j\<rparr>)"
| stay: "phase c = Advancing \<Longrightarrow> advance_click w (cur_page c) = Some Stays \<Longrightarrow>
     crawl_step w c (c\<lparr>phase := Loading\<rparr>)"
| finish: "phase c = Advancing \<Longrightarrow> advance_click w (cur_page c) = Some Intercepted \<Longrightarrow>
     crawl_step w c (c\<lparr>phase := Done, closes := Suc (closes c)\<rparr>)"

text \<open>A crawl starts loading page \<open>i\<close> with the snapshots taken so far and nothing closed.\<close>

definition crawl_start :: "nat \<Rightarrow> dom list \<Rightarrow> crawl_state" where
  "crawl_start i pages = \<lparr>phase = Loading, cur_page = i, snapshots = pages, closes = 0\<rparr>"

abbreviation crawl_run :: "site \<Rightarrow> crawl_state \<Rightarrow> crawl_state \<Rightarrow> bool" where
  "crawl_run w \<equiv> (crawl_step w)\<^sup>*\<^sup>*"

text \<open>
  The invariant of the machine's runs: the session is closed once in Done and never
  before, the snapshots extend the initial ones, and from Advancing on the last snapshot
  is the current page.
\<close>

definition crawl_inv :: "site \<Rightarrow> dom list \<Rightarrow> crawl_state \<Rightarrow> bool" where
  "crawl_inv w pages c \<longleftrightarrow>
     closes c = (if phase c = Done then 1 else 0) \<and>
     (\<exists>ys. snapshots c = pages @ ys) \<and>
     (phase c = Advancing \<or> phase c = Done \<longrightarrow>
        snapshots c \<noteq> [] \<and> last (snapshots c) = s_dom w (cur_page c))"

text \<open>An example: two pages, the second one intercepting the advance click, and a
  running browser on the first.\<close>

definition ex_spec_site :: site where
  "ex_spec_site =
     \<lparr>s_dom = (\<lambda>i. Elem ''[document]'' []
                 [Elem ''ul'' [] [Elem ''li'' [(''class'', ''page-item'')] [Text (if i = 0 then ''Next'' else ''Last'')]]]),
      s_url = (\<lambda>i. ''https://synculario.odoo.com/academyjobs''), s_resolve = (\<lambda>u. Some 0),
      s_click = (\<lambda>i c. if i = 0 then Navigates 1 else Intercepted),
      s_height = (\<lambda>i k. 0), s_cookies = (\<lambda>i. []),
             s_activate = (\<lambda>i c. None), s_displayed = (\<lambda>i c. True)\<rparr>"

definition ex_spec_handler :: browser_handler where
  "ex_spec_handler =
     \<lparr>driver = Some \<lparr>d_page = Some 0, d_scrolls = 0, d_cookies = [], d_open = True, d_options = [], d_selected = [], d_values = []\<rparr>,
      resource_data = [], headless = True, path_to_driver = ''/usr/bin/chromedriver'',
      web = ex_spec_site, trace = []\<rparr>"

section \<open>Lemmas\<close>

inductive_simps crawl_step_iff: "crawl_step w c c'"

lemma advance_click_Some:
  "pagination_controls w i \<noteq> [] \<Longrightarrow>
   advance_click w i = Some (s_click w i (last (pagination_controls w i)))"
  by (simp add: advance_click_def split: list.splits)

text \<open>One pass of the code's loop is three steps of the machine.\<close>

lemma crawl_run_pass:
  assumes "phase c = Loading" "advance_click w (cur_page c) = Some (Navigates j)"
  shows "crawl_run w c (c\<lparr>phase := Loading, cur_page := j,
                          snapshots := snapshots c @ [s_dom w (cur_page c)]\<rparr>)"
proof -
  have "crawl_step w c (c\<lparr>phase := Capturing\<rparr>)" using assms(1) by (rule settle)
  moreover have "crawl_step w (c\<lparr>phase := Capturing\<rparr>)
      (c\<lparr>phase := Advancing, snapshots := snapshots c @ [s_dom w (cur_page c)]\<rparr>)"
    using capture [of "c\<lparr>phase := Capturing\<rparr>" w] by simp
  moreover have "crawl_step w (c\<lparr>phase := Advancing, snapshots := snapshots c @ [s_dom w (cur_page c)]\<rparr>)
      (c\<lparr>phase := Loading, cur_page := j, snapshots := snapshots c @ [s_dom w (cur_page c)]\<rparr>)"
    using advance [of "c\<lparr>phase := Advancing, snapshots := snapshots c @ [s_dom w (cur_page c)]\<rparr>" w j]
      assms(2) by (cases c) simp
  ultimately show ?thesis by (meson converse_rtranclp_into_rtranclp r_into_rtranclp)
qed

lemma crawl_run_stay:
  assumes "phase c = Loading" "advance_click w (cur_page c) = Some Stays"
  shows "crawl_run w c (c\<lparr>snapshots := snapshots c @ [s_dom w (cur_page c)]\<rparr>)"
proof -
  have "crawl_step w c (c\<lparr>phase := Capturing\<rparr>)" using assms(1) by (rule settle)
  moreover have "crawl_step w (c\<lparr>phase := Capturing\<rparr>)
      (c\<lparr>phase := Advancing, snapshots := snapshots c @ [s_dom w (cur_page c)]\<rparr>)"
    using capture [of "c\<lparr>phase := Capturing\<rparr>" w] by simp
  moreover have "crawl_step w (c\<lparr>phase := Advancing, snapshots := snapshots c @ [s_dom w (cur_page c)]\<rparr>)
      (c\<lparr>snapshots := snapshots c @ [s_dom w (cur_page c)]\<rparr>)"
    using stay [of "c\<lparr>phase := Advancing, snapshots := snapshots c @ [s_dom w (cur_page c)]\<rparr>" w]
      assms by (cases c) simp
  ultimately show ?thesis by (meson converse_rtranclp_into_rtranclp r_into_rtranclp)
qed

lemma crawl_run_finish:
  assumes "phase c = Loading" "advance_click w (cur_page c) = Some Intercepted"
  shows "crawl_run w c (c\<lparr>phase := Done, snapshots := snapshots c @ [s_dom w (cur_page c)],
                          closes := Suc (closes c)\<rparr>)"
proof -
  have "crawl_step w c (c\<lparr>phase := Capturing\<rparr>)" using assms(1) by (rule settle)
  moreover have "crawl_step w (c\<lparr>phase := Capturing\<rparr>)
      (c\<lparr>phase := Advancing, snapshots := snapshots c @ [s_dom w (cur_page c)]\<rparr>)"
    using capture [of "c\<lparr>phase := Capturing\<rparr>" w] by simp
  moreover have "crawl_step w (c\<lparr>phase := Advancing, snapshots := snapshots c @ [s_dom w (cur_page c)]\<rparr>)
      (c\<lparr>phase := Done, snapshots := snapshots c @ [s_dom w (cur_page c)], closes := Suc (closes c)\<rparr>)"
    using finish [of "c\<lparr>phase := Advancing, snapshots := snapshots c @ [s_dom w (cur_page c)]\<rparr>" w]
      assms(2) by (cases c) simp
  ultimately show ?thesis by (meson converse_rtranclp_into_rtranclp r_into_rtranclp)
qed

text \<open>Simulation: every result the code's loop returns is reached by the machine.\<close>

lemma crawl_loop_simulation:
  assumes "crawl_loop pages bh = Some r"
  shows "\<forall>d i pages' bh'. driver bh = Some d \<longrightarrow> d_open d \<longrightarrow> d_page d = Some i \<longrightarrow>
           r = (Inr pages', bh') \<longrightarrow>
           (\<exists>j. crawl_run (web bh) (crawl_start i pages)
                 \<lparr>phase = Done, cur_page = j, snapshots = pages', closes = 1\<rparr>)"
proof (rule crawl_loop.raw_induct [where P = "\<lambda>pages bh r. \<forall>d i pages' bh'. driver bh = Some d \<longrightarrow>
      d_open d \<longrightarrow> d_page d = Some i \<longrightarrow> r = (Inr pages', bh') \<longrightarrow>
      (\<exists>j. crawl_run (web bh) (crawl_start i pages)
             \<lparr>phase = Done, cur_page = j, snapshots = pages', closes = 1\<rparr>)", OF _ assms])
  fix f :: "dom list \<Rightarrow> browser_handler \<Rightarrow> (dom list py_result \<times> browser_handler) option"
    and pages bh r
  assume IH: "\<And>pages bh r. f pages bh = Some r \<Longrightarrow> \<forall>d i pages' bh'. driver bh = Some d \<longrightarrow>
      d_open d \<longrightarrow> d_page d = Some i \<longrightarrow> r = (Inr pages', bh') \<longrightarrow>
      (\<exists>j. crawl_run (web bh) (crawl_start i pages)
             \<lparr>phase = Done, cur_page = j, snapshots = pages', closes = 1\<rparr>)"
    and run: "(case crawl_iteration pages bh of Inl r \<Rightarrow> Some r | Inr (pages', bh') \<Rightarrow> f pages' bh') = Some r"
  show "\<forall>d i pages' bh'. driver bh = Some d \<longrightarrow> d_open d \<longrightarrow> d_page d = Some i \<longrightarrow>
      r = (Inr pages', bh') \<longrightarrow>
      (\<exists>j. crawl_run (web bh) (crawl_start i pages)
             \<lparr>phase = Done, cur_page = j, snapshots = pages', closes = 1\<rparr>)"
  proof (intro allI impI)
    fix d i pages' bh'
    assume d: "driver bh = Some d" "d_open d" "d_page d = Some i" and r: "r = (Inr pages', bh')"
    let ?w = "web bh"
    let ?c = "last (pagination_controls ?w i)"
    have it: "crawl_iteration pages bh =
      (let w = web bh; cs = pagination_controls w i; c = last cs in
       if cs = [] then Inl (Inl IndexError, bh\<lparr>trace := trace bh @ [Sleep 1000, FindElements page_item]\<rparr>)
       else
         (let bh' = bh\<lparr>trace := trace bh @ iter_trace i c\<rparr>; pages' = pages @ [s_dom w i] in
          case s_click w i c of
            Navigates j \<Rightarrow> Inr (pages', bh'\<lparr>driver := Some (load_page w j d)\<rparr>)
          | Intercepted \<Rightarrow> Inl (Inr pages', bh')
          | Stays \<Rightarrow> Inr (pages', bh')))"
      by (rule crawl_iteration_live [OF d])
    show "\<exists>j. crawl_run ?w (crawl_start i pages)
             \<lparr>phase = Done, cur_page = j, snapshots = pages', closes = 1\<rparr>"
    proof (cases "pagination_controls ?w i = []")
      case True
      with run it r show ?thesis by simp
    next
      case False
      then have click: "advance_click ?w i = Some (s_click ?w i ?c)"
        by (rule advance_click_Some)
      show ?thesis
      proof (cases "s_click ?w i ?c")
        case (Navigates j)
        let ?bh2 = "bh\<lparr>trace := trace bh @ iter_trace i ?c, driver := Some (load_page ?w j d)\<rparr>"
        from run it False Navigates r have "f (pages @ [s_dom ?w i]) ?bh2 = Some (Inr pages', bh')"
          by (simp add: Let_def)
        from IH [OF this] obtain j' where
          rest: "crawl_run ?w (crawl_start j (pages @ [s_dom ?w i]))
                   \<lparr>phase = Done, cur_page = j', snapshots = pages', closes = 1\<rparr>"
          using d by (auto simp: load_page_def)
        have "crawl_run ?w (crawl_start i pages) (crawl_start j (pages @ [s_dom ?w i]))"
          using crawl_run_pass [of "crawl_start i pages" ?w j] click Navigates
          by (simp add: crawl_start_def)
        with rest show ?thesis by (meson rtranclp_trans)
      next
        case Stays
        let ?bh2 = "bh\<lparr>trace := trace bh @ iter_trace i ?c\<rparr>"
        from run it False Stays r have "f (pages @ [s_dom ?w i]) ?bh2 = Some (Inr pages', bh')"
          by (simp add: Let_def)
        from IH [OF this] obtain j' where
          rest: "crawl_run ?w (crawl_start i (pages @ [s_dom ?w i]))
                   \<lparr>phase = Done, cur_page = j', snapshots = pages', closes = 1\<rparr>"
          using d by auto
        have "crawl_run ?w (crawl_start i pages) (crawl_start i (pages @ [s_dom ?w i]))"
          using crawl_run_stay [of "crawl_start i pages" ?w] click Stays
          by (simp add: crawl_start_def)
        with rest show ?thesis by (meson rtranclp_trans)
      next
        case Intercepted
        from run it False Intercepted r have "pages' = pages @ [s_dom ?w i]"
          by (simp add: Let_def)
        moreover have "crawl_run ?w (crawl_start i pages)
            \<lparr>phase = Done, cur_page = i, snapshots = pages @ [s_dom ?w i], closes = 1\<rparr>"
          using crawl_run_finish [of "crawl_start i pages" ?w] click Intercepted
          by (simp add: crawl_start_def)
        ultimately show ?thesis by blast
      qed
    qed
  qed
qed

lemma crawl_step_inv:
  assumes "crawl_step w c c'" and "crawl_inv w pages c"
  shows "crawl_inv w pages c'"
  using assms by (induction rule: crawl_step.induct) (auto simp: crawl_inv_def)

text \<open>
  C16. Refinement: whenever the code's pagination loop, started on page \<open>i\<close> of a running
  browser, returns the captured pages, the abstract machine has a run from Loading page
  \<open>i\<close> to Done that takes exactly these snapshots and closes the session once.
\<close>

theorem crawl_loop_refines_spec:
  assumes "crawl_loop pages bh = Some (Inr pages', bh')"
    and "driver bh = Some d" and "d_open d" and "d_page d = Some i"
  shows "\<exists>j. crawl_run (web bh) (crawl_start i pages)
               \<lparr>phase = Done, cur_page = j, snapshots = pages', closes = 1\<rparr>"
  using crawl_loop_simulation [OF assms(1)] assms(2-4) by blast

theorem crawl_loop_refines_spec_witness:
  "\<exists>bh'. crawl_loop [] ex_spec_handler = Some (Inr [s_dom ex_spec_site 0, s_dom ex_spec_site 1], bh') \<and>
     (\<exists>j. crawl_run ex_spec_site (crawl_start 0 [])
           \<lparr>phase = Done, cur_page = j, snapshots = [s_dom ex_spec_site 0, s_dom ex_spec_site 1], closes = 1\<rparr>)"
proof -
  let ?d = "\<lparr>d_page = Some 0, d_scrolls = 0, d_cookies = [], d_open = True, d_options = [], d_selected = [], d_values = []\<rparr>"
  have d: "driver ex_spec_handler = Some ?d" by (simp add: ex_spec_handler_def)
  have w: "web ex_spec_handler = ex_spec_site" by (simp add: ex_spec_handler_def)
  have l: "linear_site ex_spec_site 2" by code_simp
  obtain d' where "crawl_loop [] ex_spec_handler =
      Some (Inr ([] @ map (s_dom ex_spec_site) [0..<2]),
            ex_spec_handler\<lparr>driver := Some d',
              trace := trace ex_spec_handler @ concat (map (\<lambda>j. iter_trace j (last (pagination_controls ex_spec_site j))) [0..<2])\<rparr>)"
    using crawl_loop_linear_from [of ex_spec_handler 2 0 2 ?d "[]"] d w l by auto
  then have run: "crawl_loop [] ex_spec_handler = Some (Inr [s_dom ex_spec_site 0, s_dom ex_spec_site 1],
      ex_spec_handler\<lparr>driver := Some d',
        trace := trace ex_spec_handler @ concat (map (\<lambda>j. iter_trace j (last (pagination_controls ex_spec_site j))) [0..<2])\<rparr>)"
    by (simp add: upt_rec)
  show ?thesis using crawl_loop_refines_spec [OF run d] run w by auto
qed

text \<open>
  In every state the machine reaches from a start state, the session has been
  closed exactly once if the state is Done and not at all otherwise, the initial
  snapshots are kept as a prefix, and once the page is captured the last snapshot is the
  current page.
\<close>

lemma crawl_run_invariant:
  assumes "crawl_run w (crawl_start i pages) c"
  shows "crawl_inv w pages c"
  using assms
proof (induction rule: rtranclp_induct)
  case base
  then show ?case by (simp add: crawl_inv_def crawl_start_def)
next
  case (step c c')
  from step.hyps(2) step.IH show ?case by (rule crawl_step_inv)
qed

text \<open>
  The machine is deterministic: from any state there is at most one step, so a run of
  the contract is a single sequence of phases, as the code's loop is.
\<close>

lemma crawl_step_deterministic:
  assumes "crawl_step w c c1" and "crawl_step w c c2"
  shows "c1 = c2"
  using assms by (auto simp: crawl_step_iff)

end
