(* ===== verification/Html.thy ===== *)
theory Html
  imports Markup
begin

text \<open>
  The page source as a string. \<open>self.driver.page_source\<close> (\<open>src/browser_handler.py\<close>
  line 52) returns the browser's serialization of the current document, and the parser
  (\<open>src/synculario.py\<close> line 36) rebuilds a tree from it with
  \<open>BeautifulSoup(page, "html.parser")\<close>. This theory models both sides. The serializer
  (\<open>render\<close>) follows the HTML fragment serialization algorithm: text and attribute values
  escaped (\<open>&\<close>, no-break space, \<open><\<close>, \<open>>\<close>, and \<open>"\<close> in attributes), text of
  \<open>script\<close>, \<open>style\<close> and the other raw-text parents written literally, void elements
  without content or end tag, comments and the doctype as written. The tokenizer of
  \<open>html.parser\<close> (\<open>lex\<close>) is a scanner over the characters; it reads start tags with
  double-quoted attributes, end tags, text with the character references the serializer
  writes, comments, \<open><!DOCTYPE ...>\<close> and the raw text of \<open>script\<close> and \<open>style\<close>
  (passed on undecoded up to the first \<open></\<close>, which must open the element's end tag), and
  answers \<open>None\<close> on anything else (bogus comments, processing instructions, unterminated
  constructs), meaning that the input is outside the modelled part of the library. The
  tree builder (\<open>build\<close>) is BeautifulSoup's: a stack of open elements, the pending
  string data of \<open>endData\<close> with its collapse of whitespace-only strings, its list of
  empty-element tags closed at once and the redundant end tags it then ignores, an end tag
  closing up to the nearest open element of its name, open elements closed at the end of
  input. The round trip (\<open>soup_doc_roundtrip\<close>) shows that the other theories may
  take a snapshot to be its document tree.
\<close>

section \<open>Characters\<close>

definition dquote :: char where
  "dquote = CHR 0x22"

definition nbsp :: char where
  "nbsp = CHR 0xA0"

definition is_ascii_upper :: "char \<Rightarrow> bool" where
  "is_ascii_upper c \<longleftrightarrow> (65::nat) \<le> of_char c \<and> of_char c \<le> (90::nat)"

definition is_ascii_lower :: "char \<Rightarrow> bool" where
  "is_ascii_lower c \<longleftrightarrow> (97::nat) \<le> of_char c \<and> of_char c \<le> (122::nat)"

definition is_ascii_digit :: "char \<Rightarrow> bool" where
  "is_ascii_digit c \<longleftrightarrow> (48::nat) \<le> of_char c \<and> of_char c \<le> (57::nat)"

text \<open>\<open>str.lower\<close> on ASCII letters, as \<open>html.parser\<close> applies it to tag and attribute names.\<close>

definition py_lower_char :: "char \<Rightarrow> char" where
  "py_lower_char c = (if is_ascii_upper c then char_of (of_char c + (32::nat)) else c)"

definition py_lower :: "string \<Rightarrow> string" where
  "py_lower s = map py_lower_char s"

text \<open>The characters of tag and attribute names; a tag name starts with a letter.\<close>

definition is_name_char :: "char \<Rightarrow> bool" where
  "is_name_char c \<longleftrightarrow> is_ascii_upper c \<or> is_ascii_lower c \<or> is_ascii_digit c \<or> c = CHR ''-''"

definition is_letter :: "char \<Rightarrow> bool" where
  "is_letter c \<longleftrightarrow> is_ascii_upper c \<or> is_ascii_lower c"

section \<open>The serializer (\<open>page_source\<close>)\<close>

definition esc_text_char :: "char \<Rightarrow> string" where
  "esc_text_char c =
     (if c = CHR ''&'' then ''&amp;'' else if c = nbsp then ''&nbsp;''
      else if c = CHR ''<'' then ''&lt;'' else if c = CHR ''>'' then ''&gt;'' else [c])"

definition esc_attr_char :: "char \<Rightarrow> string" where
  "esc_attr_char c =
     (if c = CHR ''&'' then ''&amp;'' else if c = nbsp then ''&nbsp;''
      else if c = dquote then ''&quot;'' else if c = CHR ''<'' then ''&lt;''
      else if c = CHR ''>'' then ''&gt;'' else [c])"

definition escape_text :: "string \<Rightarrow> string" where
  "escape_text s = concat (map esc_text_char s)"

definition escape_attr :: "string \<Rightarrow> string" where
  "escape_attr s = concat (map esc_attr_char s)"

text \<open>Elements the serializer writes without content and end tag.\<close>

definition void_elements :: "string list" where
  "void_elements = [''area'', ''base'', ''basefont'', ''bgsound'', ''br'', ''col'', ''embed'',
                    ''frame'', ''hr'', ''img'', ''input'', ''keygen'', ''link'', ''meta'',
                    ''param'', ''source'', ''track'', ''wbr'']"

text \<open>Elements whose text children the serializer writes literally.\<close>

definition literal_text_elements :: "string list" where
  "literal_text_elements = [''style'', ''script'', ''xmp'', ''iframe'', ''noembed'', ''noframes'',
                            ''plaintext'', ''noscript'']"

text \<open>Elements whose content \<open>html.parser\<close> reads as raw text (\<open>CDATA_CONTENT_ELEMENTS\<close>).\<close>

definition raw_text_elements :: "string list" where
  "raw_text_elements = [''script'', ''style'']"

definition render_attrs :: "(string \<times> string) list \<Rightarrow> string" where
  "render_attrs as = concat (map (\<lambda>(n, v). CHR '' '' # n @ CHR ''='' # dquote # escape_attr v @ [dquote]) as)"

text \<open>The flag says whether the parent writes its text literally.\<close>

fun render :: "bool \<Rightarrow> node \<Rightarrow> string" where
  "render lit (Text s) = (if lit then s else escape_text s)"
| "render lit (Comment s) = ''<!--'' @ s @ ''-->''"
| "render lit (Doctype s) = ''<!DOCTYPE '' @ s @ ''>''"
| "render lit (Elem t as cs) =
     CHR ''<'' # t @ render_attrs as @ CHR ''>'' #
     (if t \<in> set void_elements then []
      else concat (map (render (t \<in> set literal_text_elements)) cs) @ CHR ''<'' # CHR ''/'' # t @ ''>'')"

text \<open>The source of a document is the serialization of its children.\<close>

fun page_source_of :: "dom \<Rightarrow> string" where
  "page_source_of (Elem t as cs) = concat (map (render False) cs)"
| "page_source_of n = render False n"

section \<open>The tokenizer of \<open>html.parser\<close>\<close>

text \<open>Decoding of the character references the serializer writes; any other \<open>&\<close> is kept.\<close>

function unescape :: "string \<Rightarrow> string" where
  "unescape [] = []"
| "unescape (c # s) =
     (if c = CHR ''&'' then
        (if take 4 s = ''amp;'' then CHR ''&'' # unescape (drop 4 s)
         else if take 3 s = ''lt;'' then CHR ''<'' # unescape (drop 3 s)
         else if take 3 s = ''gt;'' then CHR ''>'' # unescape (drop 3 s)
         else if take 5 s = ''quot;'' then dquote # unescape (drop 5 s)
         else if take 5 s = ''nbsp;'' then nbsp # unescape (drop 5 s)
         else c # unescape s)
      else c # unescape s)"
  by pat_completeness auto
termination by (relation "measure length") auto

datatype token =
    StartTag string "(string \<times> string) list"
  | EndTag string
  | TextTok string
  | CommentTok string
  | DeclTok string

text \<open>The scanner is between tags (\<open>Content\<close>), inside a start tag whose name and
  attributes so far it holds (\<open>InTag\<close>), or in the content of a \<open>script\<close> or
  \<open>style\<close> element (\<open>RawText\<close>, \<open>set_cdata_mode\<close>), which it passes on undecoded up to
  the element's end tag. After \<open><\<close> it dispatches as \<open>goahead\<close> does: \<open><!--\<close> starts a
  comment that ends at the first \<open>-->\<close>, \<open><!doctype\<close> (any case) a declaration that
  ends at the next \<open>>\<close>, \<open></\<close> an end tag, a letter a start tag.\<close>

datatype lex_mode = Content | InTag string "(string \<times> string) list" | RawText string

function lex :: "lex_mode \<Rightarrow> string \<Rightarrow> token list option" where
  "lex Content [] = Some []"
| "lex (InTag n as) [] = None"
| "lex (RawText n) s =
     (case split_first ''</'' s of
        None \<Rightarrow> None
      | Some (body, rest) \<Rightarrow>
          if py_lower (take (length n) rest) = n \<and> take 1 (drop (length n) rest) = ''>''
          then map_option (\<lambda>ts. (if body = [] then [] else [TextTok body]) @ EndTag n # ts)
                 (lex Content (drop (Suc (length n)) rest))
          else None)"
| "lex Content (c # s) =
     (if c = CHR ''<'' then
        (if take 3 s = ''!--'' then
           (case split_first ''-->'' (drop 3 s) of
              None \<Rightarrow> None
            | Some (body, rest) \<Rightarrow> map_option (Cons (CommentTok body)) (lex Content rest))
         else if py_lower (take 8 s) = ''!doctype'' then
           (let r = tl s; rest = dropWhile (\<lambda>x. x \<noteq> CHR ''>'') r in
            if rest = [] then None
            else map_option (Cons (DeclTok (takeWhile (\<lambda>x. x \<noteq> CHR ''>'') r))) (lex Content (tl rest)))
         else if s \<noteq> [] \<and> hd s = CHR ''/'' then
           (let r = tl s; rest = dropWhile (\<lambda>x. x \<noteq> CHR ''>'') r in
            if rest = [] then None
            else map_option (Cons (EndTag (py_lower (takeWhile (\<lambda>x. x \<noteq> CHR ''>'') r))))
                   (lex Content (tl rest)))
         else
           (let n = takeWhile is_name_char s in
            if n = [] \<or> \<not> is_letter (hd n) then None
            else lex (InTag (py_lower n) []) (drop (length n) s)))
      else
        map_option (Cons (TextTok (unescape (c # takeWhile (\<lambda>x. x \<noteq> CHR ''<'') s))))
          (lex Content (dropWhile (\<lambda>x. x \<noteq> CHR ''<'') s)))"
| "lex (InTag n as) (c # s) =
     (if c = CHR ''>'' then
        map_option (Cons (StartTag n as)) (lex (if n \<in> set raw_text_elements then RawText n else Content) s)
      else if c = CHR '' '' then
        (let a = takeWhile is_name_char s; after = drop (length a) s in
         if a \<noteq> [] \<and> take 2 after = [CHR ''='', dquote] then
           (let v = drop 2 after; rest = dropWhile (\<lambda>x. x \<noteq> dquote) v in
            if rest = [] then None
            else lex (InTag n (as @ [(py_lower a, unescape (takeWhile (\<lambda>x. x \<noteq> dquote) v))])) (tl rest))
         else None)
      else None)"
  by pat_completeness auto
termination
  by (relation "measure (\<lambda>(m, s). length s)")
     (auto simp: less_Suc_eq_le dest!: split_first_length_less
           intro!: le_trans [OF diff_le_self] le_trans [OF length_dropWhile_le])

section \<open>The tree builder of BeautifulSoup\<close>

text \<open>
  The builder keeps the children of the innermost open element (\<open>acc\<close>), a stack of
  frames, one per open element (its name, its attributes and the children its parent had
  when it was opened), the string data not yet turned into a node (\<open>current_data\<close>), and
  the empty-element tags closed at their start tag (\<open>already_closed_empty_element\<close>).
\<close>

type_synonym frame = "string \<times> (string \<times> string) list \<times> node list"

text \<open>Tags BeautifulSoup closes at once (\<open>HTMLTreeBuilder.empty_element_tags\<close>).\<close>

definition empty_element_tags :: "string list" where
  "empty_element_tags = [''area'', ''base'', ''br'', ''col'', ''embed'', ''hr'', ''img'', ''input'',
     ''keygen'', ''link'', ''menuitem'', ''meta'', ''param'', ''source'', ''track'', ''wbr'',
     ''basefont'', ''bgsound'', ''command'', ''frame'', ''image'', ''isindex'', ''nextid'', ''spacer'']"

text \<open>Tags inside which whitespace is kept (\<open>preserve_whitespace_tags\<close>).\<close>

definition preserve_ws_elements :: "string list" where
  "preserve_ws_elements = [''pre'', ''textarea'']"

definition in_pre :: "frame list \<Rightarrow> bool" where
  "in_pre st = list_ex (\<lambda>(n, as, sib). n \<in> set preserve_ws_elements) st"

text \<open>\<open>endData\<close>: a string of ASCII spaces only becomes a single line feed if it holds
  one and a single space otherwise, unless a whitespace-preserving tag is open.\<close>

definition collapse_ws :: "bool \<Rightarrow> string \<Rightarrow> string" where
  "collapse_ws pre s =
     (if \<not> pre \<and> list_all is_ascii_space s
      then (if CHR ''\<newline>'' \<in> set s then ''\<newline>'' else '' '') else s)"

definition end_data :: "frame list \<Rightarrow> node list \<Rightarrow> string \<Rightarrow> node list" where
  "end_data st acc cur = (if cur = [] then acc else acc @ [Text (collapse_ws (in_pre st) cur)])"

text \<open>\<open>handle_decl\<close> drops a leading \<open>"DOCTYPE "\<close>.\<close>

definition strip_doctype :: "string \<Rightarrow> string" where
  "strip_doctype d = (if take 8 d = ''DOCTYPE '' then drop 8 d else d)"

text \<open>The attributes become a dictionary: a repeated name keeps its first position and
  takes the last value.\<close>

definition attr_dict :: "(string \<times> string) list \<Rightarrow> (string \<times> string) list" where
  "attr_dict as =
     foldl (\<lambda>d (k, v). if k \<in> fst ` set d then map (\<lambda>(k', v'). if k' = k then (k', v) else (k', v')) d
                       else d @ [(k, v)]) [] as"

fun close_all :: "frame list \<Rightarrow> node list \<Rightarrow> node list" where
  "close_all [] acc = acc"
| "close_all ((n, as, sib) # st) acc = close_all st (sib @ [Elem n as acc])"

fun pop_to :: "string \<Rightarrow> frame list \<Rightarrow> node list \<Rightarrow> frame list \<times> node list" where
  "pop_to n [] acc = ([], acc)"
| "pop_to n ((m, as, sib) # st) acc =
     (if m = n then (st, sib @ [Elem m as acc]) else pop_to n st (sib @ [Elem m as acc]))"

text \<open>The handlers: \<open>handle_data\<close> adds to the pending data; \<open>handle_starttag\<close>,
  \<open>handle_endtag\<close>, \<open>handle_comment\<close> and \<open>handle_decl\<close> first flush it
  (\<open>endData\<close>); an end tag of an empty-element tag closed before is crossed off and
  ignored.\<close>

fun build :: "token list \<Rightarrow> frame list \<Rightarrow> node list \<Rightarrow> string \<Rightarrow> string list \<Rightarrow> node list" where
  "build [] st acc cur cl = close_all st (end_data st acc cur)"
| "build (TextTok t # ts) st acc cur cl = build ts st acc (cur @ t) cl"
| "build (StartTag n as # ts) st acc cur cl =
     (let acc' = end_data st acc cur in
      if n \<in> set empty_element_tags then build ts st (acc' @ [Elem n (attr_dict as) []]) [] (cl @ [n])
      else build ts ((n, attr_dict as, acc') # st) [] [] cl)"
| "build (EndTag n # ts) st acc cur cl =
     (if n \<in> set cl then build ts st acc cur (remove1 n cl)
      else
        (let acc' = end_data st acc cur in
         if n \<in> fst ` set st then (case pop_to n st acc' of (st', acc'') \<Rightarrow> build ts st' acc'' [] cl)
         else build ts st acc' [] cl))"
| "build (CommentTok c # ts) st acc cur cl =
     build ts st (end_data st acc cur @ [Comment (collapse_ws (in_pre st) c)]) [] cl"
| "build (DeclTok d # ts) st acc cur cl =
     build ts st (end_data st acc cur @ [Doctype (collapse_ws (in_pre st) (strip_doctype d))]) [] cl"

text \<open>\<open>BeautifulSoup(page, "html.parser")\<close>: the document node over the parsed children.\<close>

definition soup :: "string \<Rightarrow> dom option" where
  "soup s = map_option (\<lambda>ts. Elem ''[document]'' [] (build ts [] [] [] [])) (lex Content s)"

section \<open>Well-formed trees\<close>

fun is_text :: "node \<Rightarrow> bool" where
  "is_text (Text s) = True"
| "is_text _ = False"

fun no_adj_text :: "node list \<Rightarrow> bool" where
  "no_adj_text (x # y # zs) \<longleftrightarrow> \<not> (is_text x \<and> is_text y) \<and> no_adj_text (y # zs)"
| "no_adj_text _ \<longleftrightarrow> True"

definition is_html_name :: "string \<Rightarrow> bool" where
  "is_html_name n \<longleftrightarrow> n \<noteq> [] \<and> is_letter (hd n) \<and> list_all is_name_char n \<and> py_lower n = n"

text \<open>A string \<open>endData\<close> leaves as it is.\<close>

definition ws_normal :: "bool \<Rightarrow> string \<Rightarrow> bool" where
  "ws_normal pre s \<longleftrightarrow> collapse_ws pre s = s"

text \<open>
  A tree the serializer and the parser agree on: non-empty text, never two strings side
  by side, strings that \<open>endData\<close> leaves as they are (the flag: inside \<open>pre\<close> or
  \<open>textarea\<close>), comments without \<open>--\<close>, doctypes without \<open>>\<close>, lower-case names, distinct
  attribute names, no content in empty-element tags and no element whose text the
  serializer writes literally.
\<close>

text \<open>The content of a \<open>script\<close> or \<open>style\<close> element that the parser reads back: at
  most one string, without \<open></\<close>.\<close>

definition raw_content_ok :: "node list \<Rightarrow> bool" where
  "raw_content_ok cs \<longleftrightarrow>
     (case cs of [] \<Rightarrow> True | [Text s] \<Rightarrow> s \<noteq> [] \<and> \<not> py_contains ''</'' s | _ \<Rightarrow> False)"

fun wf_node :: "bool \<Rightarrow> node \<Rightarrow> bool" where
  "wf_node pre (Text s) \<longleftrightarrow> s \<noteq> [] \<and> ws_normal pre s"
| "wf_node pre (Comment s) \<longleftrightarrow> ws_normal pre s \<and> \<not> py_contains ''--'' s"
| "wf_node pre (Doctype s) \<longleftrightarrow> ws_normal pre s \<and> CHR ''>'' \<notin> set s"
| "wf_node pre (Elem t as cs) \<longleftrightarrow>
     is_html_name t \<and> (t \<in> set literal_text_elements \<longrightarrow> t \<in> set raw_text_elements \<and> raw_content_ok cs) \<and>
     list_all (\<lambda>(n, v). is_html_name n) as \<and> distinct (map fst as) \<and>
     (t \<in> set empty_element_tags \<longrightarrow> cs = []) \<and> no_adj_text cs \<and>
     (\<forall>c\<in>set cs. wf_node (pre \<or> t \<in> set preserve_ws_elements) c)"

fun wf_doc :: "dom \<Rightarrow> bool" where
  "wf_doc (Elem t as cs) \<longleftrightarrow> t = ''[document]'' \<and> as = [] \<and> no_adj_text cs \<and> (\<forall>c\<in>set cs. wf_node False c)"
| "wf_doc _ \<longleftrightarrow> False"

text \<open>The tokens a tree is read as.\<close>

fun tokens_of :: "node \<Rightarrow> token list" where
  "tokens_of (Text s) = [TextTok s]"
| "tokens_of (Comment s) = [CommentTok s]"
| "tokens_of (Doctype s) = [DeclTok (''DOCTYPE '' @ s)]"
| "tokens_of (Elem t as cs) =
     StartTag t as # (if t \<in> set void_elements then [] else concat (map tokens_of cs) @ [EndTag t])"

text \<open>The children the builder holds: the finished ones and the pending data.\<close>

definition settle :: "node list \<Rightarrow> string \<Rightarrow> node list" where
  "settle acc cur = (if cur = [] then acc else acc @ [Text cur])"

text \<open>An example document: a doctype, a comment, escaped text and attribute, a void
  element, a line break between elements, preserved whitespace, an empty-element tag
  the serializer closes, nesting.\<close>

definition ex_html_page :: dom where
  "ex_html_page =
     Elem ''[document]'' []
       [Doctype ''html'',
        Elem ''html'' []
         [Elem ''body'' [(''class'', ''a '' @ [dquote] @ ''b'' @ [dquote] @ '' & <c>'')]
           [Comment '' listing '', Text ''x < y & z'', Elem ''br'' [] [], Text ''\<newline>'',
            Elem ''pre'' [] [Text ''  ''], Elem ''spacer'' [] [],
            Elem ''p'' [] [Text (''q'' @ [nbsp])],
            Elem ''script'' [] [Text ''if (a < b && c) f();'']]]]"

section \<open>Lemmas\<close>

lemma name_char_specials [simp]:
  "\<not> is_name_char CHR '' ''" "\<not> is_name_char CHR ''>''" "\<not> is_name_char CHR ''=''"
  "\<not> is_name_char dquote" "\<not> is_name_char CHR ''/''" "\<not> is_name_char CHR ''<''"
  by (simp_all add: is_name_char_def is_ascii_upper_def is_ascii_lower_def is_ascii_digit_def dquote_def)

lemma char_simps [simp]:
  "dquote \<noteq> CHR ''&''" "dquote \<noteq> CHR ''<''" "dquote \<noteq> CHR ''>''" "dquote \<noteq> CHR ''=''" "dquote \<noteq> CHR '' ''"
  "nbsp \<noteq> CHR ''&''" "nbsp \<noteq> CHR ''<''" "nbsp \<noteq> CHR ''>''" "nbsp \<noteq> dquote"
  by (simp_all add: dquote_def nbsp_def)

lemma unescape_esc_text_char [simp]: "unescape (esc_text_char c @ s) = c # unescape s"
  by (simp add: esc_text_char_def)

lemma unescape_esc_attr_char [simp]: "unescape (esc_attr_char c @ s) = c # unescape s"
  by (simp add: esc_attr_char_def)

lemma unescape_escape_text [simp]: "unescape (escape_text s) = s"
  by (induction s) (simp_all add: escape_text_def flip: append_assoc)

lemma unescape_escape_attr [simp]: "unescape (escape_attr s) = s"
  by (induction s) (simp_all add: escape_attr_def)

lemma lt_notin_escape_text: "CHR ''<'' \<notin> set (escape_text s)"
  by (auto simp: escape_text_def esc_text_char_def split: if_splits)

lemma dquote_notin_escape_attr: "dquote \<notin> set (escape_attr s)"
  by (auto simp: escape_attr_def esc_attr_char_def dquote_def split: if_splits)

lemma escape_text_Cons: "\<exists>c r. escape_text (a # s) = c # r \<and> c \<noteq> CHR ''<''"
  by (auto simp: escape_text_def esc_text_char_def)

lemma py_lower_char_bang: "py_lower_char c = CHR ''!'' \<Longrightarrow> c = CHR ''!''"
proof (rule ccontr)
  assume eq: "py_lower_char c = CHR ''!''" and ne: "c \<noteq> CHR ''!''"
  then have up: "is_ascii_upper c" by (simp add: py_lower_char_def split: if_splits)
  then have "of_char (py_lower_char c) = (of_char c + 32 :: nat)"
    by (simp add: py_lower_char_def is_ascii_upper_def)
  then show False using eq up by (simp add: is_ascii_upper_def)
qed

text \<open>After \<open><\<close>, a character other than \<open>!\<close> starts neither a comment nor a doctype.\<close>

lemma lex_not_bang:
  assumes "s \<noteq> []" "hd s \<noteq> CHR ''!''"
  shows "take 3 s \<noteq> ''!--''" "py_lower (take 8 s) \<noteq> ''!doctype''"
  using assms by (cases s; auto simp: py_lower_def dest: py_lower_char_bang)+

lemma no_dashes_split:
  assumes "\<not> py_contains ''--'' s"
  shows "split_first ''-->'' (s @ ''-->'' @ r) = Some (s, r)"
proof (rule split_first_append)
  fix i assume i: "i < length s"
  show "take (length ''-->'') (drop i (s @ ''-->'' @ r)) \<noteq> ''-->''"
  proof
    assume eq: "take (length ''-->'') (drop i (s @ ''-->'' @ r)) = ''-->''"
    show False
    proof (cases "Suc i < length s")
      case True
      have "take 2 (drop i (s @ ''-->'' @ r)) = take 2 (drop i s)"
        using True by (simp add: take_append)
      moreover have "take 2 (drop i (s @ ''-->'' @ r)) = take 2 ''-->''"
        using take_take [of 2 3 "drop i (s @ ''-->'' @ r)"] eq by (simp only: min.absorb1 numeral_le_iff semiring_norm length_Cons list.size)
      ultimately have "take 2 (drop i s) = take 2 ''-->''" by metis
      then have "take 2 (drop i s) = ''--''" by simp
      then show False using assms by (auto simp: py_contains_iff numeral_2_eq_2)
    next
      case False
      then have "drop i (s @ ''-->'' @ r) = [s ! i] @ ''-->'' @ r"
        using i by (simp add: Cons_nth_drop_Suc [symmetric])
      then show False using eq by simp
    qed
  qed
qed simp

lemma is_html_name_chars:
  assumes "is_html_name n"
  shows "\<forall>x\<in>set n. is_name_char x" "n \<noteq> []" "is_letter (hd n)" "py_lower n = n"
  using assms by (auto simp: is_html_name_def list_all_iff)

lemma is_html_name_not_gt: "is_html_name n \<Longrightarrow> \<forall>x\<in>set n. x \<noteq> CHR ''>''"
  using is_html_name_chars(1) by fastforce

lemma is_letter_not_bang: "is_letter a \<Longrightarrow> a \<noteq> CHR ''!'' \<and> a \<noteq> CHR ''/''"
  by (auto simp: is_letter_def is_ascii_upper_def is_ascii_lower_def)

text \<open>Reading a text, an end tag, the attributes and a start tag as the serializer writes them.\<close>

lemma lex_text:
  assumes "s \<noteq> []" and rest: "rest = [] \<or> hd rest = CHR ''<''"
  shows "lex Content (escape_text s @ rest) = map_option (Cons (TextTok s)) (lex Content rest)"
proof -
  obtain a s' where s: "s = a # s'" using assms(1) by (cases s) auto
  obtain c r where e: "escape_text s = c # r" and c: "c \<noteq> CHR ''<''"
    using escape_text_Cons [of a s'] s by blast
  have nolt: "\<forall>x\<in>set r. x \<noteq> CHR ''<''"
    using lt_notin_escape_text [of s] e by auto
  have "takeWhile (\<lambda>x. x \<noteq> CHR ''<'') (r @ rest) = r"
    by (rule takeWhile_append_stop) (use nolt rest in auto)
  moreover have "dropWhile (\<lambda>x. x \<noteq> CHR ''<'') (r @ rest) = rest"
    by (rule dropWhile_append_stop) (use nolt rest in auto)
  ultimately show ?thesis
    using c unescape_escape_text [of s] by (simp add: e)
qed

lemma lex_end_tag:
  assumes "is_html_name t"
  shows "lex Content (CHR ''<'' # CHR ''/'' # t @ CHR ''>'' # rest) =
           map_option (Cons (EndTag t)) (lex Content rest)"
proof -
  have ngt: "\<forall>x\<in>set t. x \<noteq> CHR ''>''" using is_html_name_not_gt [OF assms] .
  have nb: "take 3 (CHR ''/'' # t @ CHR ''>'' # rest) \<noteq> ''!--''"
    "py_lower (take 8 (CHR ''/'' # t @ CHR ''>'' # rest)) \<noteq> ''!doctype''"
    by (rule lex_not_bang; simp)+
  have "takeWhile (\<lambda>x. x \<noteq> CHR ''>'') (t @ CHR ''>'' # rest) = t"
    by (rule takeWhile_append_stop) (use ngt in auto)
  moreover have "dropWhile (\<lambda>x. x \<noteq> CHR ''>'') (t @ CHR ''>'' # rest) = CHR ''>'' # rest"
    by (rule dropWhile_append_stop) (use ngt in auto)
  ultimately show ?thesis using is_html_name_chars(4) [OF assms] nb
    by (simp del: take_Suc_Cons)
qed

lemma lex_attrs:
  assumes "list_all (\<lambda>(n, v). is_html_name n) as"
  shows "lex (InTag t acc) (render_attrs as @ CHR ''>'' # rest) = lex (InTag t (acc @ as)) (CHR ''>'' # rest)"
  using assms
proof (induction as arbitrary: acc)
  case Nil
  then show ?case by (simp add: render_attrs_def)
next
  case (Cons a as)
  obtain n v where a: "a = (n, v)" by fastforce
  have n: "is_html_name n" using Cons.prems a by simp
  let ?R = "render_attrs as @ CHR ''>'' # rest"
  have tw: "takeWhile is_name_char (n @ CHR ''='' # dquote # escape_attr v @ dquote # ?R) = n"
    by (rule takeWhile_append_stop) (use is_html_name_chars(1) [OF n] in auto)
  have nd: "\<forall>x\<in>set (escape_attr v). x \<noteq> dquote" using dquote_notin_escape_attr by fastforce
  have tv: "takeWhile (\<lambda>x. x \<noteq> dquote) (escape_attr v @ dquote # ?R) = escape_attr v"
    by (rule takeWhile_append_stop) (use nd in auto)
  have dv: "dropWhile (\<lambda>x. x \<noteq> dquote) (escape_attr v @ dquote # ?R) = dquote # ?R"
    by (rule dropWhile_append_stop) (use nd in auto)
  have "lex (InTag t acc) (render_attrs (a # as) @ CHR ''>'' # rest) =
        lex (InTag t (acc @ [(n, v)])) ?R"
    using tw tv dv is_html_name_chars(2,4) [OF n] by (simp add: a render_attrs_def)
  also have "\<dots> = lex (InTag t (acc @ a # as)) (CHR ''>'' # rest)"
    using Cons.IH [of "acc @ [(n, v)]"] Cons.prems a by simp
  finally show ?case .
qed

lemma render_attrs_hd: "render_attrs as = [] \<or> hd (render_attrs as) = CHR '' ''"
  by (cases as) (auto simp: render_attrs_def)

lemma lex_start_tag:
  assumes t: "is_html_name t" and as: "list_all (\<lambda>(n, v). is_html_name n) as"
  shows "lex Content (CHR ''<'' # t @ render_attrs as @ CHR ''>'' # rest) =
           map_option (Cons (StartTag t as)) (lex (if t \<in> set raw_text_elements then RawText t else Content) rest)"
proof -
  obtain a t' where t': "t = a # t'" using is_html_name_chars(2) [OF t] by (cases t) auto
  have a: "a \<noteq> CHR ''!''" "a \<noteq> CHR ''/''"
    using is_letter_not_bang is_html_name_chars(3) [OF t] t' by auto
  have nb: "take 3 (t @ render_attrs as @ CHR ''>'' # rest) \<noteq> ''!--''"
    "py_lower (take 8 (t @ render_attrs as @ CHR ''>'' # rest)) \<noteq> ''!doctype''"
    by (rule lex_not_bang; use t' a in simp)+
  have "takeWhile is_name_char (t @ render_attrs as @ CHR ''>'' # rest) = t"
  proof (rule takeWhile_append_stop)
    show "render_attrs as @ CHR ''>'' # rest = [] \<or> \<not> is_name_char (hd (render_attrs as @ CHR ''>'' # rest))"
      using render_attrs_hd [of as] by (cases "render_attrs as") auto
  qed (use is_html_name_chars(1) [OF t] in auto)
  then have "lex Content (CHR ''<'' # t @ render_attrs as @ CHR ''>'' # rest) =
       lex (InTag t []) (render_attrs as @ CHR ''>'' # rest)"
    using is_html_name_chars(2-4) [OF t] nb a t' by (simp del: take_Suc_Cons)
  also have "\<dots> = lex (InTag t as) (CHR ''>'' # rest)" using lex_attrs [OF as] by simp
  finally show ?thesis by simp
qed

text \<open>A two-character separator that does not occur in \<open>s\<close> is first found right after it.\<close>

lemma split_first_pair:
  assumes "a \<noteq> b" and "\<not> py_contains [a, b] s"
  shows "split_first [a, b] (s @ [a, b] @ r) = Some (s, r)"
proof (rule split_first_append)
  fix i assume i: "i < length s"
  show "take (length [a, b]) (drop i (s @ [a, b] @ r)) \<noteq> [a, b]"
  proof (cases "Suc i < length s")
    case True
    then have "take (length [a, b]) (drop i (s @ [a, b] @ r)) = take (length [a, b]) (drop i s)"
      by (simp add: take_append)
    then show ?thesis using assms(2) by (auto simp: py_contains_iff)
  next
    case False
    then have "drop i (s @ [a, b] @ r) = [s ! i] @ [a, b] @ r"
      using i by (simp add: Cons_nth_drop_Suc [symmetric])
    then show ?thesis using assms(1) by simp
  qed
qed simp

text \<open>A \<open>script\<close> or \<open>style\<close> element: its text is passed on as it is, up to its end tag.\<close>

lemma append_Cons_fun: "(\<lambda>r. xs @ y # r) = (@) (xs @ [y])"
  by (rule ext) simp

lemma lex_raw_element:
  assumes t: "is_html_name t" "t \<in> set raw_text_elements"
    and as: "list_all (\<lambda>(n, v). is_html_name n) as" and cs: "raw_content_ok cs"
  shows "lex Content (CHR ''<'' # t @ render_attrs as @ CHR ''>'' #
            concat (map (render True) cs) @ CHR ''<'' # CHR ''/'' # t @ CHR ''>'' # rest) =
         map_option ((@) (StartTag t as # concat (map tokens_of cs) @ [EndTag t])) (lex Content rest)"
proof -
  let ?b = "concat (map (render True) cs)"
  have c: "cs = [] \<or> (\<exists>s. cs = [Text s] \<and> s \<noteq> [] \<and> \<not> py_contains ''</'' s)"
    using cs unfolding raw_content_ok_def by (cases cs) (auto split: node.splits list.splits)
  have split: "split_first ''</'' (?b @ ''</'' @ t @ ''>'' @ rest) = Some (?b, t @ ''>'' @ rest)"
  proof (cases "cs = []")
    case True
    then show ?thesis using split_first_pair [of "CHR ''<''" "CHR ''/''" "[]" "t @ ''>'' @ rest"]
      by (simp add: py_contains_def)
  next
    case False
    then obtain s where "cs = [Text s]" "\<not> py_contains ''</'' s" using c by blast
    then show ?thesis using split_first_pair [of "CHR ''<''" "CHR ''/''" s "t @ ''>'' @ rest"] by simp
  qed
  have body: "(if ?b = [] then [] else [TextTok ?b]) = concat (map tokens_of cs)"
    using c by auto
  have "lex (RawText t) (?b @ ''</'' @ t @ ''>'' @ rest) =
          map_option (\<lambda>ts. concat (map tokens_of cs) @ EndTag t # ts) (lex Content rest)"
    using split body is_html_name_chars(4) [OF t(1)] by (simp del: lex.simps(1,2,4,5))
  then show ?thesis
    using lex_start_tag [OF t(1) as, of "?b @ ''</'' @ t @ ''>'' @ rest"] t(2)
      append_Cons_fun [of "StartTag t as # concat (map tokens_of cs)" "EndTag t"]
    by (simp add: option.map_comp o_def del: lex.simps)
qed

lemma lex_comment:
  assumes "\<not> py_contains ''--'' s"
  shows "lex Content (''<!--'' @ s @ ''-->'' @ rest) = map_option (Cons (CommentTok s)) (lex Content rest)"
  using no_dashes_split [OF assms, of rest] by simp

lemma py_lower_doctype: "py_lower ''!DOCTYPE'' = ''!doctype''"
  by code_simp

lemma lex_doctype:
  assumes "CHR ''>'' \<notin> set s"
  shows "lex Content (''<!DOCTYPE '' @ s @ ''>'' @ rest) =
           map_option (Cons (DeclTok (''DOCTYPE '' @ s))) (lex Content rest)"
proof -
  let ?r = "''DOCTYPE '' @ s @ ''>'' @ rest"
  have ngt: "\<forall>x\<in>set (''DOCTYPE '' @ s). x \<noteq> CHR ''>''" using assms by auto
  have "takeWhile (\<lambda>x. x \<noteq> CHR ''>'') ((''DOCTYPE '' @ s) @ ''>'' @ rest) = ''DOCTYPE '' @ s"
    by (rule takeWhile_append_stop) (use ngt in auto)
  moreover have "dropWhile (\<lambda>x. x \<noteq> CHR ''>'') ((''DOCTYPE '' @ s) @ ''>'' @ rest) = ''>'' @ rest"
    by (rule dropWhile_append_stop) (use ngt in auto)
  moreover have "take 8 (CHR ''!'' # ?r) = ''!DOCTYPE''" by simp
  ultimately show ?thesis using py_lower_doctype by (simp del: take_Suc_Cons)
qed

lemma no_adj_text_Cons: "no_adj_text (c # cs) \<Longrightarrow> no_adj_text cs"
  by (cases cs) auto

lemma lex_children:
  assumes elem: "\<And>c rest. c \<in> set cs \<Longrightarrow> (is_text c \<longrightarrow> rest = [] \<or> hd rest = CHR ''<'') \<Longrightarrow>
                   lex Content (render False c @ rest) = map_option ((@) (tokens_of c)) (lex Content rest)"
    and "no_adj_text cs" and "cs \<noteq> [] \<and> is_text (last cs) \<longrightarrow> rest = [] \<or> hd rest = CHR ''<''"
  shows "lex Content (concat (map (render False) cs) @ rest) =
           map_option ((@) (concat (map tokens_of cs))) (lex Content rest)"
  using assms
proof (induction cs)
  case Nil
  then show ?case by (simp add: option.map_ident)
next
  case (Cons c cs)
  have follow: "is_text c \<longrightarrow> concat (map (render False) cs) @ rest = [] \<or>
                  hd (concat (map (render False) cs) @ rest) = CHR ''<''"
  proof (cases cs)
    case Nil
    then show ?thesis using Cons.prems(3) by simp
  next
    case (Cons d ds)
    then show ?thesis using \<open>no_adj_text (c # cs)\<close> by (cases d) auto
  qed
  have "lex Content (concat (map (render False) cs) @ rest) =
          map_option ((@) (concat (map tokens_of cs))) (lex Content rest)"
    using Cons.IH Cons.prems no_adj_text_Cons by auto
  then show ?case
    using Cons.prems(1) [of c "concat (map (render False) cs) @ rest"] follow
    by (simp add: option.map_comp o_def)
qed

lemma raw_text_element_kind:
  "t \<in> set raw_text_elements \<Longrightarrow> t \<in> set literal_text_elements \<and> t \<notin> set void_elements"
  by (auto simp: raw_text_elements_def literal_text_elements_def void_elements_def)

lemma lex_node:
  assumes "wf_node pre n" and "is_text n \<longrightarrow> rest = [] \<or> hd rest = CHR ''<''"
  shows "lex Content (render False n @ rest) = map_option ((@) (tokens_of n)) (lex Content rest)"
  using assms
proof (induction n arbitrary: rest pre)
  case (Text s)
  then show ?case using lex_text [of s rest] by (simp add: option.map_comp o_def)
next
  case (Comment s)
  then show ?case using lex_comment [of s rest] by (simp add: option.map_comp o_def)
next
  case (Doctype s)
  then show ?case using lex_doctype [of s rest] by (simp add: option.map_comp o_def)
next
  case (Elem t as cs)
  have t: "is_html_name t" and as: "list_all (\<lambda>(n, v). is_html_name n) as"
    using Elem.prems by auto
  consider (raw) "t \<in> set raw_text_elements" | (void) "t \<notin> set raw_text_elements" "t \<in> set void_elements"
    | (normal) "t \<notin> set raw_text_elements" "t \<notin> set void_elements" by blast
  then show ?case
  proof cases
    case raw
    then have "t \<notin> set void_elements" "t \<in> set literal_text_elements" "raw_content_ok cs"
      using Elem.prems(1) raw_text_element_kind [OF raw] by simp_all
    then show ?thesis using lex_raw_element [OF t raw as, of cs rest]
      append_Cons_fun [of "StartTag t as # concat (map tokens_of cs)" "EndTag t"]
      by (simp add: option.map_comp o_def del: lex.simps)
  next
    case void
    then show ?thesis using lex_start_tag [OF t as, of rest] by (simp add: option.map_comp o_def)
  next
    case normal
    then have lit: "t \<notin> set literal_text_elements" using Elem.prems(1) by simp
    let ?E = "CHR ''<'' # CHR ''/'' # t @ CHR ''>'' # rest"
    have "lex Content (concat (map (render False) cs) @ ?E) =
            map_option ((@) (concat (map tokens_of cs))) (lex Content ?E)"
      by (rule lex_children) (use Elem in auto)
    then show ?thesis
      using normal lit lex_start_tag [OF t as, of "concat (map (render False) cs) @ ?E"] lex_end_tag [OF t, of rest]
      by (simp add: option.map_comp o_def)
  qed
qed

lemma attr_dict_distinct:
  assumes "distinct (map fst as)"
  shows "attr_dict as = as"
proof -
  have "distinct (map fst (d @ as)) \<Longrightarrow>
        foldl (\<lambda>d (k, v). if k \<in> fst ` set d then map (\<lambda>(k', v'). if k' = k then (k', v) else (k', v')) d
                         else d @ [(k, v)]) d as = d @ as" for d
    by (induction as arbitrary: d) auto
  from this [of "[]"] assms show ?thesis by (simp add: attr_dict_def)
qed

lemma end_data_settle:
  "cur = [] \<or> ws_normal (in_pre st) cur \<Longrightarrow> end_data st acc cur = settle acc cur"
  by (auto simp: end_data_def settle_def ws_normal_def)

lemma in_pre_Nil [simp]: "\<not> in_pre []"
  by (simp add: in_pre_def)

lemma in_pre_Cons [simp]: "in_pre ((n, as, sib) # st) \<longleftrightarrow> n \<in> set preserve_ws_elements \<or> in_pre st"
  by (simp add: in_pre_def)

lemma void_empty_element: "t \<in> set void_elements \<Longrightarrow> t \<in> set empty_element_tags"
  by (auto simp: void_elements_def empty_element_tags_def)

lemma settle_Nil [simp]: "settle acc [] = acc"
  by (simp add: settle_def)

lemma build_children:
  assumes elem: "\<And>c ts acc cur cl. c \<in> set cs \<Longrightarrow> cur = [] \<or> \<not> is_text c \<Longrightarrow>
       cur = [] \<or> ws_normal (in_pre st) cur \<Longrightarrow> set cl \<subseteq> set empty_element_tags \<Longrightarrow>
       \<exists>acc' cur' cl'. build (tokens_of c @ ts) st acc cur cl = build ts st acc' cur' cl' \<and>
         settle acc' cur' = settle acc cur @ [c] \<and> (cur' = [] \<or> is_text c) \<and>
         (cur' = [] \<or> ws_normal (in_pre st) cur') \<and> set cl' \<subseteq> set empty_element_tags"
    and "no_adj_text cs" and "cur = [] \<or> cs = [] \<or> \<not> is_text (hd cs)"
    and "cur = [] \<or> ws_normal (in_pre st) cur" and "set cl \<subseteq> set empty_element_tags"
  shows "\<exists>acc' cur' cl'. build (concat (map tokens_of cs) @ ts) st acc cur cl = build ts st acc' cur' cl' \<and>
           settle acc' cur' = settle acc cur @ cs \<and> (cur' = [] \<or> ws_normal (in_pre st) cur') \<and>
           set cl' \<subseteq> set empty_element_tags"
  using assms
proof (induction cs arbitrary: acc cur cl)
  case Nil
  then show ?case by auto
next
  case (Cons c cs)
  obtain acc1 cur1 cl1 where
    b1: "build (tokens_of c @ concat (map tokens_of cs) @ ts) st acc cur cl =
         build (concat (map tokens_of cs) @ ts) st acc1 cur1 cl1"
    and s1: "settle acc1 cur1 = settle acc cur @ [c]" and t1: "cur1 = [] \<or> is_text c"
    and w1: "cur1 = [] \<or> ws_normal (in_pre st) cur1" and c1: "set cl1 \<subseteq> set empty_element_tags"
    using Cons.prems(1) [of c cur cl "concat (map tokens_of cs) @ ts" acc] Cons.prems(3-5) by auto
  have h: "cur1 = [] \<or> cs = [] \<or> \<not> is_text (hd cs)"
    using t1 \<open>no_adj_text (c # cs)\<close> by (cases cs) auto
  obtain acc2 cur2 cl2 where
    b2: "build (concat (map tokens_of cs) @ ts) st acc1 cur1 cl1 = build ts st acc2 cur2 cl2"
    and s2: "settle acc2 cur2 = settle acc1 cur1 @ cs" and w2: "cur2 = [] \<or> ws_normal (in_pre st) cur2"
    and c2: "set cl2 \<subseteq> set empty_element_tags"
    using Cons.IH [OF Cons.prems(1) [OF list.set_intros(2)] no_adj_text_Cons [OF Cons.prems(2)] h w1 c1]
    by blast
  show ?case using b1 b2 s1 s2 w2 c2 by auto
qed

lemma build_node:
  assumes "wf_node (in_pre st) n" and "cur = [] \<or> \<not> is_text n" and "cur = [] \<or> ws_normal (in_pre st) cur"
    and "set cl \<subseteq> set empty_element_tags"
  shows "\<exists>acc' cur' cl'. build (tokens_of n @ ts) st acc cur cl = build ts st acc' cur' cl' \<and>
           settle acc' cur' = settle acc cur @ [n] \<and> (cur' = [] \<or> is_text n) \<and>
           (cur' = [] \<or> ws_normal (in_pre st) cur') \<and> set cl' \<subseteq> set empty_element_tags"
  using assms
proof (induction n arbitrary: ts st acc cur cl)
  case (Text s)
  then show ?case by (auto simp: settle_def)
next
  case (Comment s)
  then show ?case by (auto simp: end_data_settle ws_normal_def)
next
  case (Doctype s)
  then show ?case by (auto simp: end_data_settle ws_normal_def strip_doctype_def)
next
  case (Elem t as cs)
  have d: "attr_dict as = as" using Elem.prems(1) by (simp add: attr_dict_distinct)
  have cur: "end_data st acc cur = settle acc cur" using Elem.prems(3) by (rule end_data_settle)
  consider (void) "t \<in> set void_elements"
    | (empty) "t \<notin> set void_elements" "t \<in> set empty_element_tags"
    | (normal) "t \<notin> set empty_element_tags"
    by blast
  then show ?case
  proof cases
    case void
    then have "t \<in> set empty_element_tags" "cs = []"
      using void_empty_element Elem.prems(1) by auto
    then show ?thesis using void d cur Elem.prems(4) by (auto intro!: exI [of _ "cl @ [t]"])
  next
    case empty
    then have "cs = []" using Elem.prems(1) by auto
    moreover have "set (remove1 t (cl @ [t])) \<subseteq> set empty_element_tags"
      using set_remove1_subset [of t "cl @ [t]"] empty Elem.prems(4) by auto
    ultimately show ?thesis using empty d cur by auto
  next
    case normal
    let ?st = "(t, as, settle acc cur) # st"
    have nv: "t \<notin> set void_elements" using normal void_empty_element by blast
    have wfc: "\<forall>c\<in>set cs. wf_node (in_pre ?st) c" "no_adj_text cs"
      using Elem.prems(1) by (auto simp: disj_commute)
    obtain acc2 cur2 cl2 where
      b: "build (concat (map tokens_of cs) @ EndTag t # ts) ?st [] [] cl =
          build (EndTag t # ts) ?st acc2 cur2 cl2"
      and s: "settle acc2 cur2 = settle [] [] @ cs" and w: "cur2 = [] \<or> ws_normal (in_pre ?st) cur2"
      and c: "set cl2 \<subseteq> set empty_element_tags"
      using build_children [of cs ?st "[]" cl "EndTag t # ts" "[]"] Elem.IH wfc Elem.prems(4) by blast
    have "t \<notin> set cl2" using c normal by blast
    then have "build (EndTag t # ts) ?st acc2 cur2 cl2 = build ts st (settle acc cur @ [Elem t as cs]) [] cl2"
      using end_data_settle [OF w, of acc2] s by (simp add: settle_def)
    then show ?thesis using b c normal nv d cur by auto
  qed
qed

text \<open>
  Round trip of the page source: for a well-formed document, parsing the string the
  browser serializes it to with \<open>BeautifulSoup(page, "html.parser")\<close> gives back the
  same document tree: escaped characters, comments, the doctype, whitespace-only strings
  that \<open>endData\<close> leaves alone, the raw text of \<open>script\<close> and \<open>style\<close>, void and
  empty-element tags included.
\<close>

lemma soup_doc_roundtrip:
  assumes "wf_doc d"
  shows "soup (page_source_of d) = Some d"
proof (cases d)
  case (Elem t as cs)
  have cs: "no_adj_text cs" "\<forall>c\<in>set cs. wf_node False c" and d: "t = ''[document]''" "as = []"
    using assms Elem by auto
  have lx: "lex Content (concat (map (render False) cs) @ []) =
          map_option ((@) (concat (map tokens_of cs))) (lex Content [])"
    by (rule lex_children) (use cs lex_node in auto)
  have elem: "\<And>c ts acc cur cl. c \<in> set cs \<Longrightarrow> cur = [] \<or> \<not> is_text c \<Longrightarrow>
       cur = [] \<or> ws_normal (in_pre []) cur \<Longrightarrow> set cl \<subseteq> set empty_element_tags \<Longrightarrow>
       \<exists>acc' cur' cl'. build (tokens_of c @ ts) [] acc cur cl = build ts [] acc' cur' cl' \<and>
         settle acc' cur' = settle acc cur @ [c] \<and> (cur' = [] \<or> is_text c) \<and>
         (cur' = [] \<or> ws_normal (in_pre []) cur') \<and> set cl' \<subseteq> set empty_element_tags"
    by (rule build_node) (use cs(2) in auto)
  obtain acc' cur' cl' where
    "build (concat (map tokens_of cs) @ []) [] [] [] [] = build [] [] acc' cur' cl'"
    and "settle acc' cur' = settle [] [] @ cs" and "cur' = [] \<or> ws_normal (in_pre []) cur'"
    using build_children [OF elem cs(1), where cur = "[]" and cl = "[]" and ts = "[]" and acc = "[]"] by auto
  then show ?thesis using lx Elem d by (simp add: soup_def end_data_settle)
qed (use assms in simp_all)

text \<open>The example page survives serialization and parsing.\<close>

lemma soup_ex_html_page: "soup (page_source_of ex_html_page) = Some ex_html_page"
proof -
  have w: "wf_doc ex_html_page" by code_simp
  show ?thesis using soup_doc_roundtrip [OF w] .
qed

end
