(* ===== verification/Forms.thy ===== *)
theory Forms
  imports Browser Html
begin

text \<open>
  The methods of \<open>BrowserHandler\<close> the crawl does not call: the scripted clicks
  (\<open>js_click_element\<close>, \<open>js_click_on_element\<close>), \<open>is_clickable\<close>, \<open>paste\<close>, and the
  drop-down selection \<open>select\<close> and \<open>select_item\<close> through Selenium's \<open>Select\<close> class
  (\<open>src/browser_handler.py\<close> lines 64--76, 133--138, 164--171). Every WebDriver command
  on one element is an \<open>ElementCmd\<close> action; a handle of another page than the current
  one is stale and the command raises (WebDriverError).
\<close>

section \<open>Commands on one element\<close>

definition element_cmd :: "string \<Rightarrow> web_element \<Rightarrow> (site \<Rightarrow> driver \<Rightarrow> node \<Rightarrow> 'a) \<Rightarrow>
    browser_handler \<Rightarrow> 'a py_result \<times> browser_handler" where
  "element_cmd c e f bh = drv (ElementCmd c e) (\<lambda>w d. (rbind (element_node w d e) (\<lambda>n. Inr (f w d n)), d)) bh"

text \<open>
  \<open>is_enabled()\<close>: a form control with a \<open>disabled\<close> attribute is disabled, every
  other element enabled. (Controls disabled through a disabled ancestor, a
  \<open>fieldset\<close> or \<open>optgroup\<close>, are not distinguished.)
\<close>

definition form_controls :: "string list" where
  "form_controls = [''button'', ''input'', ''select'', ''textarea'', ''option'', ''optgroup'', ''fieldset'']"

definition node_enabled :: "node \<Rightarrow> bool" where
  "node_enabled n =
     (case tag_name n of None \<Rightarrow> True
      | Some t \<Rightarrow> \<not> (t \<in> set form_controls \<and> attr_of n ''disabled'' \<noteq> None))"

text \<open>\<open>is_displayed()\<close>: the site's rendering decides; nothing on the blank page is.\<close>

definition element_displayed :: "site \<Rightarrow> web_element \<Rightarrow> bool" where
  "element_displayed w e = (case e of WebElement (Some p) i \<Rightarrow> s_displayed w p i | WebElement None i \<Rightarrow> False)"

section \<open>\<open>is_clickable\<close> and the scripted clicks\<close>

text \<open>\<open>element.is_enabled() and element.is_displayed()\<close>: the second command is sent only
  when the first answers true.\<close>

definition is_clickable :: "web_element \<Rightarrow> browser_handler \<Rightarrow> bool py_result \<times> browser_handler" where
  "is_clickable element bh =
     (case element_cmd ''isElementEnabled'' element (\<lambda>w d n. node_enabled n) bh of
        (Inl e, bh1) \<Rightarrow> (Inl e, bh1)
      | (Inr False, bh1) \<Rightarrow> (Inr False, bh1)
      | (Inr True, bh1) \<Rightarrow>
          (case element_cmd ''isElementDisplayed'' element (\<lambda>w d n. element_displayed w element) bh1 of
             (Inl e, bh2) \<Rightarrow> (Inl e, bh2)
           | (Inr b, bh2) \<Rightarrow> (Inr b, bh2)))"

text \<open>\<open>self.driver.execute_script("arguments[0].click();", element)\<close>: the element's
  \<open>click()\<close> activates it without a hit test, so it is never intercepted.\<close>

definition js_click_on_element :: "web_element \<Rightarrow> browser_handler \<Rightarrow> unit py_result \<times> browser_handler" where
  "js_click_on_element element bh =
     drv (ExecScript ''arguments[0].click();'')
       (\<lambda>w d. case element_node w d element of
                Inl err \<Rightarrow> (Inl err, d)
              | Inr _ \<Rightarrow>
                  (case element of WebElement None i \<Rightarrow> (Inr (), d)
                   | WebElement (Some p) i \<Rightarrow>
                       (case s_activate w p i of
                          Some j \<Rightarrow> (Inr (), load_page w j d)
                        | None \<Rightarrow> (Inr (), d)))) bh"

definition js_click_element :: "locator \<Rightarrow> browser_handler \<Rightarrow> unit py_result \<times> browser_handler" where
  "js_click_element element bh =
     (case find_element element bh of
        (Inl e, bh') \<Rightarrow> (Inl e, bh')
      | (Inr el, bh') \<Rightarrow> js_click_on_element el bh')"

section \<open>Selenium's \<open>Select\<close>\<close>

definition elem_pos :: "web_element \<Rightarrow> nat" where
  "elem_pos e = (case e of WebElement p i \<Rightarrow> i)"

text \<open>The positions of the nodes below the node at position \<open>i\<close> (document order).\<close>

definition subtree_positions :: "dom \<Rightarrow> nat \<Rightarrow> nat list" where
  "subtree_positions t i = [Suc i..<Suc i + length (descendants (descendants t ! i))]"

definition is_option :: "node \<Rightarrow> bool" where
  "is_option n \<longleftrightarrow> tag_name n = Some ''option''"

text \<open>The CSS selector \<open>option[value ="v"]\<close> of \<open>select_by_value\<close>.\<close>

definition is_option_value :: "string \<Rightarrow> node \<Rightarrow> bool" where
  "is_option_value v n \<longleftrightarrow> is_option n \<and> attr_of n ''value'' = Some v"

definition select_options :: "dom \<Rightarrow> nat \<Rightarrow> nat list" where
  "select_options t i = filter (\<lambda>k. is_option (descendants t ! k)) (subtree_positions t i)"

text \<open>
  The selectedness an option has when the page loads: in a \<open>multiple\<close> select, the
  options marked \<open>selected\<close>; in a single select the last marked one, or else the first
  enabled option.
\<close>

definition default_selected :: "dom \<Rightarrow> nat \<Rightarrow> nat \<Rightarrow> bool" where
  "default_selected t i j =
     (let opts = select_options t i;
          marked = filter (\<lambda>k. attr_of (descendants t ! k) ''selected'' \<noteq> None) opts
      in if attr_of (descendants t ! i) ''multiple'' \<noteq> None then j \<in> set marked
         else (case marked of
                 [] \<Rightarrow> (case filter (\<lambda>k. node_enabled (descendants t ! k)) opts of [] \<Rightarrow> False | k # _ \<Rightarrow> j = k)
               | _ \<Rightarrow> j = last marked))"

definition option_selected :: "site \<Rightarrow> driver \<Rightarrow> nat \<Rightarrow> nat \<Rightarrow> bool" where
  "option_selected w d i j =
     (case map_of (d_selected d) j of Some b \<Rightarrow> b | None \<Rightarrow> default_selected (cur_dom w d) i j)"

text \<open>
  A click on option \<open>j\<close> of the select at \<open>i\<close>: in a \<open>multiple\<close> select it toggles the
  option; in a single select it selects the option and deselects the others.
\<close>

definition option_click :: "web_element \<Rightarrow> bool \<Rightarrow> web_element \<Rightarrow> browser_handler \<Rightarrow>
    unit py_result \<times> browser_handler" where
  "option_click sel multiple opt bh =
     drv (Click opt)
       (\<lambda>w d. case element_node w d opt of
                Inl err \<Rightarrow> (Inl err, d)
              | Inr _ \<Rightarrow>
                  (let i = elem_pos sel; j = elem_pos opt in
                   if multiple then (Inr (), d\<lparr>d_selected := (j, \<not> option_selected w d i j) # d_selected d\<rparr>)
                   else (Inr (), d\<lparr>d_selected :=
                           (j, True) # map (\<lambda>k. (k, False)) (filter (\<lambda>k. k \<noteq> j) (select_options (cur_dom w d) i))
                           @ d_selected d\<rparr>))) bh"

text \<open>\<open>Select(webelement)\<close>: the tag must be \<open>select\<close>; \<open>is_multiple\<close> is read from the
  boolean attribute \<open>multiple\<close> (WebDriver answers \<open>"true"\<close> or \<open>None\<close>).\<close>

definition Select_init :: "web_element \<Rightarrow> browser_handler \<Rightarrow> bool py_result \<times> browser_handler" where
  "Select_init webelement bh =
     (case element_cmd ''getElementTagName'' webelement
             (\<lambda>w d n. case tag_name n of Some t \<Rightarrow> t | None \<Rightarrow> []) bh of
        (Inl e, bh1) \<Rightarrow> (Inl e, bh1)
      | (Inr t, bh1) \<Rightarrow>
          if py_lower t \<noteq> ''select'' then (Inl UnexpectedTagName, bh1)
          else element_cmd ''getElementAttribute'' webelement (\<lambda>w d n. attr_of n ''multiple'' \<noteq> None) bh1)"

definition select_find_options :: "web_element \<Rightarrow> string \<Rightarrow> browser_handler \<Rightarrow>
    web_element list py_result \<times> browser_handler" where
  "select_find_options sel value bh =
     element_cmd ''findElementsFromElement'' sel
       (\<lambda>w d n. case sel of WebElement p i \<Rightarrow>
          map (WebElement p) (filter (\<lambda>k. is_option_value value (descendants (cur_dom w d) ! k))
                                (subtree_positions (cur_dom w d) i))) bh"

text \<open>Selenium 4's \<open>_set_selected\<close>: \<open>if not option.is_selected():\<close> then
  \<open>if not option.is_enabled(): raise NotImplementedError\<close>, else \<open>option.click()\<close>. An
  option already selected is left alone, disabled or not.\<close>

definition set_selected :: "web_element \<Rightarrow> bool \<Rightarrow> web_element \<Rightarrow> browser_handler \<Rightarrow>
    unit py_result \<times> browser_handler" where
  "set_selected sel multiple opt bh =
     (case element_cmd ''isElementSelected'' opt
             (\<lambda>w d n. option_selected w d (elem_pos sel) (elem_pos opt)) bh of
        (Inl e, bh1) \<Rightarrow> (Inl e, bh1)
      | (Inr True, bh1) \<Rightarrow> (Inr (), bh1)
      | (Inr False, bh1) \<Rightarrow>
          (case element_cmd ''isElementEnabled'' opt (\<lambda>w d n. node_enabled n) bh1 of
             (Inl e, bh2) \<Rightarrow> (Inl e, bh2)
           | (Inr False, bh2) \<Rightarrow> (Inl NotImplemented, bh2)
           | (Inr True, bh2) \<Rightarrow> option_click sel multiple opt bh2))"

text \<open>The loop of \<open>select_by_value\<close>: a single select stops after the first option.\<close>

fun select_loop :: "web_element \<Rightarrow> bool \<Rightarrow> web_element list \<Rightarrow> bool \<Rightarrow> browser_handler \<Rightarrow>
    unit py_result \<times> browser_handler" where
  "select_loop sel multiple [] matched bh = (if matched then (Inr (), bh) else (Inl NoSuchElement, bh))"
| "select_loop sel multiple (opt # opts) matched bh =
     (case set_selected sel multiple opt bh of
        (Inl e, bh') \<Rightarrow> (Inl e, bh')
      | (Inr _, bh') \<Rightarrow> if \<not> multiple then (Inr (), bh') else select_loop sel multiple opts True bh')"

text \<open>\<open>select(drop_down, value)\<close>: \<open>Select(drop_down).select_by_value(value)\<close>.\<close>

definition select :: "web_element \<Rightarrow> string \<Rightarrow> browser_handler \<Rightarrow> unit py_result \<times> browser_handler" where
  "select drop_down value bh =
     (case Select_init drop_down bh of
        (Inl e, bh1) \<Rightarrow> (Inl e, bh1)
      | (Inr multiple, bh1) \<Rightarrow>
          (case select_find_options drop_down value bh1 of
             (Inl e, bh2) \<Rightarrow> (Inl e, bh2)
           | (Inr opts, bh2) \<Rightarrow> select_loop drop_down multiple opts False bh2))"

definition select_item :: "string \<Rightarrow> string \<Rightarrow> browser_handler \<Rightarrow> unit py_result \<times> browser_handler" where
  "select_item selector item bh =
     (case find_element (By_CSS_SELECTOR selector) bh of
        (Inl e, bh') \<Rightarrow> (Inl e, bh')
      | (Inr el, bh') \<Rightarrow> select el item bh')"

section \<open>\<open>paste\<close>\<close>

definition squote :: char where "squote = CHR 0x27"
definition backtick :: char where "backtick = CHR 0x60"
definition backslash :: char where "backslash = CHR 0x5C"

text \<open>\<open>"document.getElementById('{}').value = `{}`".format(element, str(data))\<close>.\<close>

definition paste_script :: "string \<Rightarrow> string \<Rightarrow> string" where
  "paste_script element data =
     ''document.getElementById('' @ [squote] @ element @ [squote] @ '').value = '' @ [backtick] @ data @ [backtick]"

text \<open>
  The scripts of that form the model evaluates: an id that is a single-quoted string
  literal without escapes (no quote, backslash, line feed or carriage return), and a
  template literal without backtick, backslash or substitution. Anything else the data
  makes of the script (escapes, \<open>${...}\<close>, a backtick ending the literal) is not evaluated:
  its answer is \<open>OutsideModel\<close>.
\<close>

definition plain_template :: "string \<Rightarrow> bool" where
  "plain_template v \<longleftrightarrow> backtick \<notin> set v \<and> backslash \<notin> set v \<and> \<not> py_contains ''${'' v"

definition plain_id :: "string \<Rightarrow> bool" where
  "plain_id i \<longleftrightarrow>
     i \<noteq> [] \<and> squote \<notin> set i \<and> backslash \<notin> set i \<and> CHR 0x0A \<notin> set i \<and> CHR 0x0D \<notin> set i"

definition js_plain_assignment :: "string \<Rightarrow> (string \<times> string) option" where
  "js_plain_assignment s =
     (let p1 = ''document.getElementById('' @ [squote]; p2 = [squote] @ '').value = '' @ [backtick];
          r = drop (length p1) s; i = takeWhile (\<lambda>c. c \<noteq> squote) r; r2 = drop (length i) r;
          v0 = drop (length p2) r2
      in if take (length p1) s = p1 \<and> take (length p2) r2 = p2 \<and> v0 \<noteq> [] \<and> last v0 = backtick \<and>
            plain_id i \<and> plain_template (butlast v0)
         then Some (i, butlast v0) else None)"

text \<open>The value of a template literal: a carriage return, alone or before a line feed,
  becomes a line feed.\<close>

fun js_newlines :: "string \<Rightarrow> string" where
  "js_newlines [] = []"
| "js_newlines [c] = [if c = CHR 0x0D then CHR 0x0A else c]"
| "js_newlines (c # c' # cs) =
     (if c = CHR 0x0D \<and> c' = CHR 0x0A then CHR 0x0A # js_newlines cs
      else (if c = CHR 0x0D then CHR 0x0A else c) # js_newlines (c' # cs))"

definition strip_newlines :: "string \<Rightarrow> string" where
  "strip_newlines v = filter (\<lambda>c. c \<noteq> CHR 0x0A \<and> c \<noteq> CHR 0x0D) v"

definition strip_ascii_ws :: "string \<Rightarrow> string" where
  "strip_ascii_ws v = rev (dropWhile is_ascii_space (rev (dropWhile is_ascii_space v)))"

text \<open>The type of an \<open>input\<close>: its \<open>type\<close> attribute, ASCII lowercased, when it names
  a type; the text state otherwise.\<close>

definition input_types :: "string list" where
  "input_types = [''hidden'', ''text'', ''search'', ''tel'', ''url'', ''email'', ''password'', ''date'',
     ''month'', ''week'', ''time'', ''datetime-local'', ''number'', ''range'', ''color'', ''checkbox'',
     ''radio'', ''file'', ''submit'', ''image'', ''reset'', ''button'']"

definition input_type :: "node \<Rightarrow> string" where
  "input_type n =
     (case attr_of n ''type'' of
        None \<Rightarrow> ''text''
      | Some t \<Rightarrow> if py_lower t \<in> set input_types then py_lower t else ''text'')"

text \<open>
  What an element holds after \<open>element.value = v\<close> (HTML's value sanitization): text,
  search, tel and password inputs strip line breaks; url and single email inputs also strip
  leading and trailing ASCII whitespace; the inputs whose \<open>value\<close> is their attribute
  (hidden, buttons, checkbox, radio), a \<open>textarea\<close> and elements without a typed
  \<open>value\<close> property keep the string; a file input accepts only the empty string
  (InvalidStateError otherwise). The number, date, range and color inputs, a multiple
  email input and the \<open>select\<close>, \<open>li\<close>, \<open>meter\<close> and \<open>progress\<close> elements
  convert the string in ways the model does not decide.
\<close>

definition value_set :: "node \<Rightarrow> string \<Rightarrow> string py_result" where
  "value_set n v =
     (case tag_name n of
        None \<Rightarrow> Inr v
      | Some t \<Rightarrow>
          if t = ''input'' then
            (let ty = input_type n in
             if ty \<in> set [''text'', ''search'', ''tel'', ''password''] then Inr (strip_newlines v)
             else if ty = ''url'' \<or> (ty = ''email'' \<and> attr_of n ''multiple'' = None)
               then Inr (strip_ascii_ws (strip_newlines v))
             else if ty \<in> set [''hidden'', ''submit'', ''image'', ''reset'', ''button'', ''checkbox'', ''radio'']
               then Inr v
             else if ty = ''file'' then (if v = [] then Inr [] else Inl WebDriverError)
             else Inl OutsideModel)
          else if t \<in> set [''select'', ''li'', ''meter'', ''progress''] then Inl OutsideModel
          else Inr v)"

text \<open>\<open>document.getElementById(i).value = v\<close>: the first element with that id gets the
  value of the template literal, as its kind sanitizes it; without such an element, the
  assignment to \<open>null\<close> raises a TypeError (a WebDriverException in Python).\<close>

definition js_paste :: "site \<Rightarrow> driver \<Rightarrow> string \<Rightarrow> unit py_result \<times> driver" where
  "js_paste w d s =
     (case js_plain_assignment s of
        None \<Rightarrow> (Inl OutsideModel, d)
      | Some (i, raw) \<Rightarrow>
          (case match_positions (locator_matches (By_ID i)) (cur_dom w d) of
             [] \<Rightarrow> (Inl WebDriverError, d)
           | k # _ \<Rightarrow>
               (case value_set (descendants (cur_dom w d) ! k) (js_newlines raw) of
                  Inl e \<Rightarrow> (Inl e, d)
                | Inr v \<Rightarrow> (Inr (), d\<lparr>d_values := (k, v) # d_values d\<rparr>))))"

definition paste :: "string \<Rightarrow> string \<Rightarrow> browser_handler \<Rightarrow> unit py_result \<times> browser_handler" where
  "paste element data bh =
     drv (ExecScript (paste_script element data)) (\<lambda>w d. js_paste w d (paste_script element data)) bh"

section \<open>Document positions\<close>

text \<open>The nodes of a list of siblings and of their subtrees, in document order.\<close>

definition forest :: "node list \<Rightarrow> node list" where
  "forest cs = concat (map (\<lambda>c. c # descendants c) cs)"

section \<open>An example form\<close>

text \<open>
  One page: a form with a drop-down (Czech, English, and a disabled German), a text input
  with id \<open>q\<close>, a disabled button, and a \<open>next\<close> link under an overlay: a native click
  on it is intercepted, a scripted one opens page 1.
\<close>

definition ex_form_page :: dom where
  "ex_form_page =
     Elem ''[document]'' []
       [Elem ''form'' []
          [Elem ''select'' [(''name'', ''lang'')]
             [Elem ''option'' [(''value'', ''cs'')] [Text ''Czech''],
              Elem ''option'' [(''value'', ''en'')] [Text ''English''],
              Elem ''option'' [(''value'', ''de''), (''disabled'', [])] [Text ''German'']],
           Elem ''input'' [(''id'', ''q'')] [],
           Elem ''button'' [(''disabled'', [])] [Text ''Go'']],
        Elem ''a'' [(''class'', ''next'')] [Text ''Next'']]"

definition ex_form_site :: site where
  "ex_form_site =
     \<lparr>s_dom = (\<lambda>i. ex_form_page), s_url = (\<lambda>i. ''https://example.org/form''), s_resolve = (\<lambda>u. Some 0),
      s_click = (\<lambda>i c. if c = 11 then Intercepted else Stays), s_height = (\<lambda>i k. 0),
      s_cookies = (\<lambda>i. []), s_activate = (\<lambda>i c. if c = 11 then Some 1 else None),
      s_displayed = (\<lambda>i c. True)\<rparr>"

definition ex_form_driver :: driver where
  "ex_form_driver =
     \<lparr>d_page = Some 0, d_scrolls = 0, d_cookies = [], d_open = True, d_options = [],
      d_selected = [], d_values = []\<rparr>"

definition ex_form_handler :: browser_handler where
  "ex_form_handler =
     \<lparr>driver = Some ex_form_driver,
      resource_data = [], headless = True, path_to_driver = [], web = ex_form_site, trace = []\<rparr>"

section \<open>Lemmas\<close>

lemma forest_Cons: "forest (c # cs) = (c # descendants c) @ forest cs"
  by (simp add: forest_def)

lemma forest_subtree:
  "i < length (forest cs) \<Longrightarrow>
   take (length (descendants (forest cs ! i))) (drop (Suc i) (forest cs)) = descendants (forest cs ! i)"
proof (induction "length (forest cs)" arbitrary: cs i rule: less_induct)
  case less
  then obtain c cs' where cs: "cs = c # cs'" by (cases cs) (auto simp: forest_def)
  let ?D = "descendants c"
  show ?case
  proof (cases "i \<le> length ?D")
    case True
    show ?thesis
    proof (cases i)
      case 0
      then show ?thesis by (simp add: cs forest_Cons)
    next
      case (Suc i')
      obtain n as ch where c: "c = Elem n as ch"
        using True Suc by (cases c) auto
      have lt: "i' < length (forest ch)" using True Suc c by (simp add: forest_def)
      have smaller: "length (forest ch) < length (forest cs)"
        using c by (simp add: cs forest_Cons forest_def)
      have IH: "take (length (descendants (forest ch ! i'))) (drop (Suc i') (forest ch)) =
                descendants (forest ch ! i')"
        by (rule less.hyps [OF smaller lt])
      have at: "forest cs ! i = forest ch ! i'" using Suc lt c by (simp add: cs forest_Cons forest_def nth_append)
      have len: "length (descendants (forest ch ! i')) \<le> length (drop (Suc i') (forest ch))"
        using IH by (metis length_take min.absorb_iff2 nat_le_linear)
      have "drop (Suc i) (forest cs) = drop (Suc i') (forest ch) @ forest cs'"
        using Suc lt c by (simp add: cs forest_Cons forest_def)
      then show ?thesis using IH len at by simp
    qed
  next
    case False
    let ?j = "i - Suc (length ?D)"
    have lt: "?j < length (forest cs')" using False less.prems by (simp add: cs forest_Cons)
    have smaller: "length (forest cs') < length (forest cs)" by (simp add: cs forest_Cons)
    have IH: "take (length (descendants (forest cs' ! ?j))) (drop (Suc ?j) (forest cs')) =
              descendants (forest cs' ! ?j)"
      by (rule less.hyps [OF smaller lt])
    have i: "i = length (c # ?D) + ?j" using False by simp
    have at: "forest cs ! i = forest cs' ! ?j"
      by (subst i) (simp only: cs forest_Cons nth_append_length_plus)
    have "Suc i - length (c # ?D) = Suc ?j" using False by simp
    then have "drop (Suc i) (forest cs) = drop (Suc ?j) (forest cs')"
      using False by (simp add: cs forest_Cons)
    then show ?thesis using IH at by simp
  qed
qed

text \<open>
  Element-scoped search reads the right nodes: the positions \<open>subtree_positions t i\<close>
  of the page that \<open>find_elements\<close> on the element at \<open>i\<close> scans hold exactly that
  element's own descendants, in document order.
\<close>

theorem descendants_subtree:
  assumes "i < length (descendants t)"
  shows "map (\<lambda>k. descendants t ! k) (subtree_positions t i) = descendants (descendants t ! i)"
proof (cases t)
  case (Elem n as cs)
  have tk: "take (length (descendants (descendants t ! i))) (drop (Suc i) (descendants t)) =
            descendants (descendants t ! i)"
    using forest_subtree [of i cs] assms Elem by (simp add: forest_def)
  then have bound: "Suc i + length (descendants (descendants t ! i)) \<le> length (descendants t)"
    by (metis add.commute le_diff_conv2 length_drop length_take min.absorb_iff2 Suc_leI assms)
  show ?thesis
  proof (rule nth_equalityI)
    show "length (map (\<lambda>k. descendants t ! k) (subtree_positions t i)) = length (descendants (descendants t ! i))"
      by (simp add: subtree_positions_def del: upt_Suc)
  next
    fix k assume "k < length (map (\<lambda>k. descendants t ! k) (subtree_positions t i))"
    then have k: "k < length (descendants (descendants t ! i))" by (simp add: subtree_positions_def del: upt_Suc)
    have "descendants (descendants t ! i) ! k = descendants t ! (Suc i + k)"
      using arg_cong [OF tk, of "\<lambda>xs. xs ! k"] k bound by simp
    then show "map (\<lambda>k. descendants t ! k) (subtree_positions t i) ! k = descendants (descendants t ! i) ! k"
      using k by (simp add: subtree_positions_def del: upt_Suc)
  qed
qed (use assms in simp_all)


lemma subtree_positions_bound:
  assumes "i < length (descendants t)" and "k \<in> set (subtree_positions t i)"
  shows "k < length (descendants t)"
proof (cases t)
  case (Elem n as cs)
  have "take (length (descendants (descendants t ! i))) (drop (Suc i) (descendants t)) =
        descendants (descendants t ! i)"
    using forest_subtree [of i cs] assms(1) Elem by (simp add: forest_def)
  then have "Suc i + length (descendants (descendants t ! i)) \<le> length (descendants t)"
    by (metis add.commute le_diff_conv2 length_drop length_take min.absorb_iff2 Suc_leI assms(1))
  then show ?thesis using assms(2) by (auto simp: subtree_positions_def)
qed (use assms in simp_all)

lemma element_cmd_live:
  assumes "driver bh = Some d" "d_open d" "element_node (web bh) d e = Inr n"
  shows "element_cmd c e f bh = (Inr (f (web bh) d n), bh\<lparr>trace := trace bh @ [ElementCmd c e]\<rparr>)"
  using assms by (simp add: element_cmd_def drv_def)

lemma element_node_page:
  assumes "d_page d = Some p" "i < length (descendants (s_dom w p))"
  shows "element_node w d (WebElement (Some p) i) = Inr (descendants (s_dom w p) ! i)"
  using assms by (simp add: element_node_def cur_dom_def)

lemma js_click_on_element_not_intercepted: "fst (js_click_on_element e bh) \<noteq> Inl ClickIntercepted"
  by (auto simp: js_click_on_element_def drv_def element_node_def
      split: option.splits web_element.splits if_splits prod.splits)

lemma find_element_not_intercepted: "fst (find_element loc bh) \<noteq> Inl ClickIntercepted"
  by (auto simp: find_element_def find_elements_def drv_def rbind_def
      split: option.splits list.splits sum.splits prod.splits)

lemma py_lower_select [simp]: "py_lower ''select'' = ''select''"
  by (simp add: py_lower_def py_lower_char_def is_ascii_upper_def)

text \<open>
  C18. A scripted click is not a native click: on an element whose native click is
  intercepted (obscured), \<open>element.click()\<close> raises ElementClickInterceptedException, while
  \<open>js_click_on_element\<close> activates the element and the browser goes where activation leads.
\<close>

theorem js_click_bypasses_interception:
  assumes "driver bh = Some d" and "d_open d" and "d_page d = Some p"
    and "i < length (descendants (s_dom (web bh) p))"
    and "s_click (web bh) p i = Intercepted" and "s_activate (web bh) p i = Some j"
  shows "fst (element_click (WebElement (Some p) i) bh) = Inl ClickIntercepted \<and>
         js_click_on_element (WebElement (Some p) i) bh =
           (Inr (), bh\<lparr>driver := Some (load_page (web bh) j d),
                      trace := trace bh @ [ExecScript ''arguments[0].click();'']\<rparr>)"
  using assms by (simp add: element_click_def js_click_on_element_def drv_def element_node_page)

text \<open>
  C19. \<open>js_click_element\<close> never raises ElementClickInterceptedException, in any state:
  the termination signal of the crawl can never come from a scripted click.
\<close>

theorem js_click_element_never_intercepted: "fst (js_click_element loc bh) \<noteq> Inl ClickIntercepted"
  using find_element_not_intercepted [of loc bh] js_click_on_element_not_intercepted
  by (auto simp: js_click_element_def split: prod.splits sum.splits)

text \<open>
  C20. On a running browser \<open>is_clickable\<close> is \<open>is_enabled() and is_displayed()\<close> of the
  element with Python's short circuit: a disabled element answers False after one command,
  an enabled one answers whether it is displayed after two.
\<close>

theorem is_clickable_live:
  assumes "driver bh = Some d" and "d_open d" and "element_node (web bh) d e = Inr n"
  shows "is_clickable e bh =
           (if node_enabled n
            then (Inr (element_displayed (web bh) e),
                  bh\<lparr>trace := trace bh @ [ElementCmd ''isElementEnabled'' e, ElementCmd ''isElementDisplayed'' e]\<rparr>)
            else (Inr False, bh\<lparr>trace := trace bh @ [ElementCmd ''isElementEnabled'' e]\<rparr>))"
  using assms by (simp add: is_clickable_def element_cmd_live)

text \<open>
  C21. On a single (not \<open>multiple\<close>) drop-down, \<open>select\<close> with a value that enabled,
  unselected options carry clicks exactly the first of them and returns: that option is
  selected, every other option of the drop-down deselected, later matches ignored, and the
  browser commands are the tag check, the \<open>multiple\<close> read, the option search, and
  the selected check and then the enabled check of that option before the click.
\<close>

theorem select_single_first_option:
  assumes d: "driver bh = Some d" "d_open d" "d_page d = Some p"
    and sel: "i < length (descendants (s_dom (web bh) p))"
      "descendants (s_dom (web bh) p) ! i = Elem ''select'' as cs" "map_of as ''multiple'' = None"
    and opts: "filter (\<lambda>k. is_option_value v (descendants (s_dom (web bh) p) ! k))
                 (subtree_positions (s_dom (web bh) p) i) = k # ks"
    and en: "node_enabled (descendants (s_dom (web bh) p) ! k)" and ns: "\<not> option_selected (web bh) d i k"
  shows "select (WebElement (Some p) i) v bh =
           (Inr (), bh\<lparr>driver := Some (d\<lparr>d_selected := (k, True) #
                          map (\<lambda>k'. (k', False)) (filter (\<lambda>k'. k' \<noteq> k) (select_options (s_dom (web bh) p) i))
                          @ d_selected d\<rparr>),
                      trace := trace bh @
                        [ElementCmd ''getElementTagName'' (WebElement (Some p) i),
                         ElementCmd ''getElementAttribute'' (WebElement (Some p) i),
                         ElementCmd ''findElementsFromElement'' (WebElement (Some p) i),
                         ElementCmd ''isElementSelected'' (WebElement (Some p) k),
                         ElementCmd ''isElementEnabled'' (WebElement (Some p) k),
                         Click (WebElement (Some p) k)]\<rparr>)"
proof -
  have "k \<in> set (subtree_positions (s_dom (web bh) p) i)"
    using opts by (metis filter_is_subset list.set_intros(1) subsetD)
  then have k: "k < length (descendants (s_dom (web bh) p))"
    using subtree_positions_bound [OF sel(1)] by blast
  show ?thesis
    using d sel opts en ns k
    by (simp add: select_def Select_init_def select_find_options_def set_selected_def option_click_def
        element_cmd_def drv_def element_node_page elem_pos_def cur_dom_def)
qed

text \<open>
  C22. \<open>select\<close> on an element that is not a \<open>select\<close> raises UnexpectedTagNameException,
  and on a drop-down without an option of that value raises NoSuchElementException; in
  both cases no option changed its selectedness.
\<close>

theorem select_error_untouched:
  assumes d: "driver bh = Some d" "d_open d" "d_page d = Some p"
    and sel: "i < length (descendants (s_dom (web bh) p))"
      "descendants (s_dom (web bh) p) ! i = Elem t as cs"
    and err: "py_lower t \<noteq> ''select'' \<or>
              filter (\<lambda>k. is_option_value v (descendants (s_dom (web bh) p) ! k))
                (subtree_positions (s_dom (web bh) p) i) = []"
  shows "fst (select (WebElement (Some p) i) v bh) =
           (if py_lower t \<noteq> ''select'' then Inl UnexpectedTagName else Inl NoSuchElement) \<and>
         driver (snd (select (WebElement (Some p) i) v bh)) = driver bh"
  using d sel err
  by (auto simp: select_def Select_init_def select_find_options_def element_cmd_def drv_def
      element_node_page cur_dom_def)

lemma js_plain_assignment_paste_script:
  assumes "plain_id el" and "plain_template data"
  shows "js_plain_assignment (paste_script el data) = Some (el, data)"
proof -
  have nq: "\<forall>c\<in>set el. c \<noteq> squote" using assms(1) by (auto simp: plain_id_def)
  have tw: "takeWhile (\<lambda>c. c \<noteq> squote) (el @ [squote] @ '').value = '' @ [backtick] @ data @ [backtick]) = el"
    by (rule takeWhile_append_stop) (use nq in auto)
  show ?thesis
    using assms tw by (simp add: js_plain_assignment_def paste_script_def Let_def)
qed

lemma strip_newlines_js_newlines: "strip_newlines (js_newlines v) = strip_newlines v"
  by (induction v rule: js_newlines.induct) (auto simp: strip_newlines_def)

text \<open>
  C23. \<open>paste(element, data)\<close> with an id and data that need no escaping in the script it
  builds, on a page whose first element with that id is a text \<open>input\<close> or a
  \<open>textarea\<close>, takes one script execution and leaves that element holding the data
  with its line breaks removed (input) or with every carriage return turned into a line
  feed (textarea).
\<close>

theorem paste_plain:
  assumes "driver bh = Some d" and "d_open d" and "plain_id el" and "plain_template data"
    and "match_positions (locator_matches (By_ID el)) (cur_dom (web bh) d) = k # ks"
    and "descendants (cur_dom (web bh) d) ! k = Elem t as cs"
    and "(t = ''input'' \<and> map_of as ''type'' = None) \<or> t = ''textarea''"
  shows "paste el data bh =
           (Inr (), bh\<lparr>driver := Some (d\<lparr>d_values :=
                         (k, if t = ''textarea'' then js_newlines data else strip_newlines data) # d_values d\<rparr>),
                      trace := trace bh @ [ExecScript (paste_script el data)]\<rparr>)"
proof -
  have v: "value_set (Elem t as cs) (js_newlines data) =
             Inr (if t = ''textarea'' then js_newlines data else strip_newlines data)"
    using assms(7)
  proof
    assume "t = ''input'' \<and> map_of as ''type'' = None"
    then show ?thesis by (simp add: value_set_def input_type_def strip_newlines_js_newlines)
  next
    assume "t = ''textarea''"
    then show ?thesis by (simp add: value_set_def)
  qed
  show ?thesis
    using assms(1-6) v by (simp add: paste_def drv_def js_paste_def js_plain_assignment_paste_script)
qed

lemma ex_form_simps [simp]:
  "driver ex_form_handler = Some ex_form_driver" "web ex_form_handler = ex_form_site"
  "trace ex_form_handler = []" "d_page ex_form_driver = Some 0" "d_open ex_form_driver"
  "s_dom ex_form_site p = ex_form_page" "cur_dom ex_form_site ex_form_driver = ex_form_page"
  "d_selected ex_form_driver = []" "d_values ex_form_driver = []"
  by (simp_all add: ex_form_handler_def ex_form_driver_def ex_form_site_def cur_dom_def)

lemma ex_form_positions:
  "length (descendants ex_form_page) = 13"
  "descendants ex_form_page ! 1 = Elem ''select'' [(''name'', ''lang'')]
     [Elem ''option'' [(''value'', ''cs'')] [Text ''Czech''],
      Elem ''option'' [(''value'', ''en'')] [Text ''English''],
      Elem ''option'' [(''value'', ''de''), (''disabled'', [])] [Text ''German'']]"
  "descendants ex_form_page ! 8 = Elem ''input'' [(''id'', ''q'')] []"
  by code_simp+

theorem js_click_bypasses_interception_witness:
  "fst (element_click (WebElement (Some 0) 11) ex_form_handler) = Inl ClickIntercepted \<and>
   js_click_on_element (WebElement (Some 0) 11) ex_form_handler =
     (Inr (), ex_form_handler\<lparr>driver := Some (load_page ex_form_site 1 ex_form_driver),
                              trace := [ExecScript ''arguments[0].click();'']\<rparr>)"
proof -
  have "s_click (web ex_form_handler) 0 11 = Intercepted" "s_activate (web ex_form_handler) 0 11 = Some 1"
    by (simp_all add: ex_form_site_def)
  then show ?thesis
    using js_click_bypasses_interception [of ex_form_handler ex_form_driver 0 11 1] ex_form_positions(1)
    by simp
qed

theorem is_clickable_live_witness:
  "is_clickable (WebElement (Some 0) 9) ex_form_handler =
     (Inr False, ex_form_handler\<lparr>trace := [ElementCmd ''isElementEnabled'' (WebElement (Some 0) 9)]\<rparr>) \<and>
   is_clickable (WebElement (Some 0) 8) ex_form_handler =
     (Inr True, ex_form_handler\<lparr>trace := [ElementCmd ''isElementEnabled'' (WebElement (Some 0) 8),
                                           ElementCmd ''isElementDisplayed'' (WebElement (Some 0) 8)]\<rparr>)"
proof -
  have n9: "element_node (web ex_form_handler) ex_form_driver (WebElement (Some 0) 9) =
            Inr (Elem ''button'' [(''disabled'', [])] [Text ''Go''])"
    by (simp add: element_node_page) code_simp
  have n8: "element_node (web ex_form_handler) ex_form_driver (WebElement (Some 0) 8) =
            Inr (Elem ''input'' [(''id'', ''q'')] [])"
    by (simp add: element_node_page ex_form_positions)
  have e9: "\<not> node_enabled (Elem ''button'' [(''disabled'', [])] [Text ''Go''])" by code_simp
  have e8: "node_enabled (Elem ''input'' [(''id'', ''q'')] [])" by code_simp
  have s8: "element_displayed (web ex_form_handler) (WebElement (Some 0) 8)"
    by (simp add: element_displayed_def ex_form_site_def)
  show ?thesis
    using is_clickable_live [OF _ _ n9] is_clickable_live [OF _ _ n8] e9 e8 s8 by simp
qed

theorem select_single_first_option_witness:
  "select (WebElement (Some 0) 1) ''en'' ex_form_handler =
     (Inr (), ex_form_handler\<lparr>driver := Some (ex_form_driver\<lparr>d_selected := [(4, True), (2, False), (6, False)]\<rparr>),
        trace := [ElementCmd ''getElementTagName'' (WebElement (Some 0) 1),
                  ElementCmd ''getElementAttribute'' (WebElement (Some 0) 1),
                  ElementCmd ''findElementsFromElement'' (WebElement (Some 0) 1),
                  ElementCmd ''isElementSelected'' (WebElement (Some 0) 4),
                  ElementCmd ''isElementEnabled'' (WebElement (Some 0) 4),
                  Click (WebElement (Some 0) 4)]\<rparr>)"
proof -
  let ?w = "web ex_form_handler"
  have i: "1 < length (descendants (s_dom ?w 0))" using ex_form_positions(1) by simp
  have sel: "descendants (s_dom ?w 0) ! 1 = Elem ''select'' [(''name'', ''lang'')]
     [Elem ''option'' [(''value'', ''cs'')] [Text ''Czech''],
      Elem ''option'' [(''value'', ''en'')] [Text ''English''],
      Elem ''option'' [(''value'', ''de''), (''disabled'', [])] [Text ''German'']]"
    using ex_form_positions(2) by simp
  have m: "map_of [(''name'', ''lang'')] ''multiple'' = None" by simp
  have opts: "filter (\<lambda>k. is_option_value ''en'' (descendants (s_dom ?w 0) ! k)) (subtree_positions (s_dom ?w 0) 1) = [4]"
    by simp code_simp
  have en: "node_enabled (descendants (s_dom ?w 0) ! 4)" by simp code_simp
  have ns: "\<not> option_selected ?w ex_form_driver 1 4"
    by (simp add: option_selected_def) code_simp
  have all: "select_options (s_dom ?w 0) 1 = [2, 4, 6]" by simp code_simp
  note r = select_single_first_option [OF ex_form_simps(1) ex_form_simps(5) ex_form_simps(4) i sel m opts en ns]
  show ?thesis unfolding r all by simp
qed

theorem select_error_untouched_witness:
  "fst (select (WebElement (Some 0) 8) ''en'' ex_form_handler) = Inl UnexpectedTagName \<and>
   driver (snd (select (WebElement (Some 0) 8) ''en'' ex_form_handler)) = driver ex_form_handler \<and>
   fst (select (WebElement (Some 0) 1) ''fr'' ex_form_handler) = Inl NoSuchElement \<and>
   driver (snd (select (WebElement (Some 0) 1) ''fr'' ex_form_handler)) = driver ex_form_handler"
proof -
  let ?w = "web ex_form_handler"
  have i8: "8 < length (descendants (s_dom ?w 0))" and i1: "1 < length (descendants (s_dom ?w 0))"
    using ex_form_positions(1) by simp_all
  have n8: "descendants (s_dom ?w 0) ! 8 = Elem ''input'' [(''id'', ''q'')] []"
    using ex_form_positions(3) by simp
  have n1: "descendants (s_dom ?w 0) ! 1 = Elem ''select'' [(''name'', ''lang'')]
     [Elem ''option'' [(''value'', ''cs'')] [Text ''Czech''],
      Elem ''option'' [(''value'', ''en'')] [Text ''English''],
      Elem ''option'' [(''value'', ''de''), (''disabled'', [])] [Text ''German'']]"
    using ex_form_positions(2) by simp
  have t8: "py_lower ''input'' \<noteq> ''select'' \<or>
            filter (\<lambda>k. is_option_value ''en'' (descendants (s_dom ?w 0) ! k)) (subtree_positions (s_dom ?w 0) 8) = []"
    by code_simp
  have t1: "py_lower ''select'' \<noteq> ''select'' \<or>
            filter (\<lambda>k. is_option_value ''fr'' (descendants (s_dom ?w 0) ! k)) (subtree_positions (s_dom ?w 0) 1) = []"
    by simp code_simp
  have l8: "py_lower ''input'' \<noteq> ''select''" by code_simp
  note r8 = select_error_untouched [OF ex_form_simps(1) ex_form_simps(5) ex_form_simps(4) i8 n8 t8]
  note r1 = select_error_untouched [OF ex_form_simps(1) ex_form_simps(5) ex_form_simps(4) i1 n1 t1]
  show ?thesis using r8 r1 l8 by simp
qed

theorem paste_plain_witness:
  "paste ''q'' (''hello'' @ [CHR 0x0D, CHR 0x0A] @ ''world'') ex_form_handler =
     (Inr (), ex_form_handler\<lparr>driver := Some (ex_form_driver\<lparr>d_values := [(8, ''helloworld'')]\<rparr>),
        trace := [ExecScript (paste_script ''q'' (''hello'' @ [CHR 0x0D, CHR 0x0A] @ ''world''))]\<rparr>)"
proof -
  have i: "plain_id ''q''" by (simp add: plain_id_def squote_def backslash_def)
  have t: "plain_template (''hello'' @ [CHR 0x0D, CHR 0x0A] @ ''world'')" by code_simp
  have m: "match_positions (locator_matches (By_ID ''q'')) ex_form_page = [8]" by code_simp
  have n: "descendants (cur_dom ex_form_site ex_form_driver) ! 8 = Elem ''input'' [(''id'', ''q'')] []"
    using ex_form_positions(3) by simp
  have v: "strip_newlines (''hello'' @ [CHR 0x0D, CHR 0x0A] @ ''world'') = ''helloworld''" by code_simp
  show ?thesis
    using paste_plain [OF _ _ i t, of ex_form_handler ex_form_driver 8 "[]" "''input''" "[(''id'', ''q'')]" "[]"] m n v
    by simp
qed

end
