(* ===== verification/LazyLoad.thy ===== *)
theory LazyLoad
  imports Browser
begin

text \<open>
  \<open>BrowserHandler.solve_lazy_loading\<close> (\<open>src/browser_handler.py\<close> lines 140--153):
  measure the page height, then scroll to the bottom, pause half a second and measure
  again until two measurements agree. The site says how tall a page is after a number of
  scrolls, so the measured heights are the sequence \<open>s_height w i (s + n)\<close> from the
  scroll count \<open>s\<close> the page had when the loop started. There is no iteration cap:
  the loop is a \<open>partial_function (option)\<close>, \<open>None\<close> when the heights never repeat.
\<close>

section \<open>The loop\<close>

definition page_height :: "site \<Rightarrow> driver \<Rightarrow> nat" where
  "page_height w d = (case d_page d of None \<Rightarrow> 0 | Some i \<Rightarrow> s_height w i (d_scrolls d))"

text \<open>\<open>self.driver.execute_script("return document.body.scrollHeight")\<close>.\<close>

definition get_scroll_height :: "browser_handler \<Rightarrow> nat py_result \<times> browser_handler" where
  "get_scroll_height bh =
     drv (ExecScript ''return document.body.scrollHeight'') (\<lambda>w d. (Inr (page_height w d), d)) bh"

text \<open>One pass of \<open>while True\<close>: scroll, pause, measure, compare.\<close>

definition lazy_iteration :: "nat \<Rightarrow> browser_handler \<Rightarrow>
    (unit py_result \<times> browser_handler) + (nat \<times> browser_handler)" where
  "lazy_iteration lastHeight bh =
     (case drv (ExecScript ''window.scrollTo(0, document.body.scrollHeight);'')
             (\<lambda>w d. (Inr (), d\<lparr>d_scrolls := Suc (d_scrolls d)\<rparr>)) bh of
        (Inl e, bh1) \<Rightarrow> Inl (Inl e, bh1)
      | (Inr _, bh1) \<Rightarrow>
          (case get_scroll_height (sleep 500 bh1) of
             (Inl e, bh2) \<Rightarrow> Inl (Inl e, bh2)
           | (Inr newHeight, bh2) \<Rightarrow>
               if newHeight = lastHeight then Inl (Inr (), bh2) else Inr (newHeight, bh2)))"

partial_function (option) lazy_loop :: "nat \<Rightarrow> browser_handler \<Rightarrow>
    (unit py_result \<times> browser_handler) option" where
  "lazy_loop lastHeight bh =
     (case lazy_iteration lastHeight bh of
        Inl r \<Rightarrow> Some r
      | Inr (h, bh') \<Rightarrow> lazy_loop h bh')"

definition solve_lazy_loading :: "browser_handler \<Rightarrow> (unit py_result \<times> browser_handler) option" where
  "solve_lazy_loading bh =
     (case get_scroll_height bh of
        (Inl e, bh1) \<Rightarrow> Some (Inl e, bh1)
      | (Inr lastHeight, bh1) \<Rightarrow> lazy_loop lastHeight bh1)"

text \<open>The actions of one scroll cycle.\<close>

definition lazy_cycle :: "action list" where
  "lazy_cycle =
     [ExecScript ''window.scrollTo(0, document.body.scrollHeight);'', Sleep 500,
      ExecScript ''return document.body.scrollHeight'']"

text \<open>
  Example handlers, on page 0 of a site whose page measures 100, then 250 after every
  scroll (the heights 100, 250, 250, ...), and of a site whose page grows by 100 with
  every scroll.
\<close>

definition ex_lazy_handler :: "(nat \<Rightarrow> nat \<Rightarrow> nat) \<Rightarrow> browser_handler" where
  "ex_lazy_handler heights =
     \<lparr>driver = Some \<lparr>d_page = Some 0, d_scrolls = 0, d_cookies = [], d_open = True, d_options = [], d_selected = [], d_values = []\<rparr>,
      resource_data = [], headless = True, path_to_driver = '''',
      web = \<lparr>s_dom = (\<lambda>i. Elem ''[document]'' [] []), s_url = (\<lambda>i. ''about:blank''),
             s_resolve = (\<lambda>u. None), s_click = (\<lambda>i c. Stays), s_height = heights,
             s_cookies = (\<lambda>i. []),
             s_activate = (\<lambda>i c. None), s_displayed = (\<lambda>i c. True)\<rparr>,
      trace = []\<rparr>"

section \<open>Lemmas\<close>

lemma get_scroll_height_live:
  assumes "driver bh = Some d" "d_open d" "d_page d = Some i"
  shows "get_scroll_height bh =
           (Inr (s_height (web bh) i (d_scrolls d)),
            bh\<lparr>trace := trace bh @ [ExecScript ''return document.body.scrollHeight'']\<rparr>)"
  using assms by (simp add: get_scroll_height_def drv_def page_height_def)

lemma lazy_iteration_live:
  assumes "driver bh = Some d" "d_open d" "d_page d = Some i"
  shows "lazy_iteration lastHeight bh =
    (let h = s_height (web bh) i (Suc (d_scrolls d));
         bh' = bh\<lparr>driver := Some (d\<lparr>d_scrolls := Suc (d_scrolls d)\<rparr>), trace := trace bh @ lazy_cycle\<rparr>
     in if h = lastHeight then Inl (Inr (), bh') else Inr (h, bh'))"
  using assms
  by (simp add: lazy_iteration_def get_scroll_height_def drv_def page_height_def sleep_def
      lazy_cycle_def Let_def)

lemma lazy_loop_unfold:
  "lazy_loop lastHeight bh =
     (case lazy_iteration lastHeight bh of Inl r \<Rightarrow> Some r | Inr (h, bh') \<Rightarrow> lazy_loop h bh')"
  by (rule lazy_loop.simps)

text \<open>
  With the heights \<open>h n = s_height w i (s + n)\<close>: if \<open>m\<close> is the first index with
  \<open>h (m + 1) = h m\<close>, the loop started with \<open>lastHeight = h 0\<close> performs \<open>m + 1\<close>
  cycles and returns.
\<close>

lemma lazy_loop_first_repeat:
  assumes "driver bh = Some d" "d_open d" "d_page d = Some i"
    and "lastHeight = s_height (web bh) i (d_scrolls d)"
    and "s_height (web bh) i (d_scrolls d + Suc m) = s_height (web bh) i (d_scrolls d + m)"
    and "\<forall>j<m. s_height (web bh) i (d_scrolls d + Suc j) \<noteq> s_height (web bh) i (d_scrolls d + j)"
  shows "lazy_loop lastHeight bh =
           Some (Inr (), bh\<lparr>driver := Some (d\<lparr>d_scrolls := d_scrolls d + Suc m\<rparr>),
                            trace := trace bh @ concat (replicate (Suc m) lazy_cycle)\<rparr>)"
  using assms
proof (induction m arbitrary: d bh lastHeight)
  case 0
  then show ?case
    by (subst lazy_loop_unfold) (simp add: lazy_iteration_live [OF "0.prems"(1-3)])
next
  case (Suc m)
  let ?w = "web bh"
  let ?s = "d_scrolls d"
  let ?d' = "d\<lparr>d_scrolls := Suc ?s\<rparr>"
  let ?bh' = "bh\<lparr>driver := Some ?d', trace := trace bh @ lazy_cycle\<rparr>"
  have ne: "s_height ?w i (Suc ?s) \<noteq> lastHeight"
    using Suc.prems(4,6) by (metis add_0_right add_Suc_right zero_less_Suc)
  have step: "lazy_loop lastHeight bh = lazy_loop (s_height ?w i (Suc ?s)) ?bh'"
    by (subst lazy_loop_unfold) (simp add: lazy_iteration_live [OF Suc.prems(1-3)] ne)
  have h5: "s_height ?w i (Suc ?s + Suc m) = s_height ?w i (Suc ?s + m)"
    using Suc.prems(5) by simp
  have h6: "\<forall>j<m. s_height ?w i (Suc ?s + Suc j) \<noteq> s_height ?w i (Suc ?s + j)"
    using Suc.prems(6) by auto
  have "lazy_loop (s_height ?w i (Suc ?s)) ?bh' =
          Some (Inr (), ?bh'\<lparr>driver := Some (?d'\<lparr>d_scrolls := d_scrolls ?d' + Suc m\<rparr>),
                             trace := trace ?bh' @ concat (replicate (Suc m) lazy_cycle)\<rparr>)"
    using Suc.IH [of ?bh' ?d' "s_height ?w i (Suc ?s)"] Suc.prems(2,3) h5 h6 by simp
  then show ?case
    using step by (simp add: replicate_append_same [symmetric])
qed

text \<open>If the heights never repeat from the current scroll count on, no result is ever
  produced (fixpoint induction).\<close>

lemma lazy_loop_no_repeat:
  assumes "lazy_loop lastHeight bh = Some r"
  shows "\<forall>d i. driver bh = Some d \<longrightarrow> d_open d \<longrightarrow> d_page d = Some i \<longrightarrow>
           lastHeight = s_height (web bh) i (d_scrolls d) \<longrightarrow>
           (\<exists>n\<ge>d_scrolls d. s_height (web bh) i (Suc n) = s_height (web bh) i n)"
proof (rule lazy_loop.raw_induct [where P = "\<lambda>lastHeight bh r. \<forall>d i. driver bh = Some d \<longrightarrow>
      d_open d \<longrightarrow> d_page d = Some i \<longrightarrow> lastHeight = s_height (web bh) i (d_scrolls d) \<longrightarrow>
      (\<exists>n\<ge>d_scrolls d. s_height (web bh) i (Suc n) = s_height (web bh) i n)", OF _ assms])
  fix f :: "nat \<Rightarrow> browser_handler \<Rightarrow> (unit py_result \<times> browser_handler) option"
    and lastHeight bh r
  assume IH: "\<And>lastHeight bh r. f lastHeight bh = Some r \<Longrightarrow> \<forall>d i. driver bh = Some d \<longrightarrow>
      d_open d \<longrightarrow> d_page d = Some i \<longrightarrow> lastHeight = s_height (web bh) i (d_scrolls d) \<longrightarrow>
      (\<exists>n\<ge>d_scrolls d. s_height (web bh) i (Suc n) = s_height (web bh) i n)"
    and run: "(case lazy_iteration lastHeight bh of Inl r \<Rightarrow> Some r | Inr (h, bh') \<Rightarrow> f h bh') = Some r"
  show "\<forall>d i. driver bh = Some d \<longrightarrow> d_open d \<longrightarrow> d_page d = Some i \<longrightarrow>
      lastHeight = s_height (web bh) i (d_scrolls d) \<longrightarrow>
      (\<exists>n\<ge>d_scrolls d. s_height (web bh) i (Suc n) = s_height (web bh) i n)"
  proof (intro allI impI)
    fix d i
    assume d: "driver bh = Some d" "d_open d" "d_page d = Some i"
      and last: "lastHeight = s_height (web bh) i (d_scrolls d)"
    let ?s = "d_scrolls d"
    show "\<exists>n\<ge>?s. s_height (web bh) i (Suc n) = s_height (web bh) i n"
    proof (cases "s_height (web bh) i (Suc ?s) = lastHeight")
      case True
      with last show ?thesis by auto
    next
      case False
      let ?bh' = "bh\<lparr>driver := Some (d\<lparr>d_scrolls := Suc ?s\<rparr>), trace := trace bh @ lazy_cycle\<rparr>"
      from run False have "f (s_height (web bh) i (Suc ?s)) ?bh' = Some r"
        by (simp add: lazy_iteration_live [OF d])
      from IH [OF this] d have "\<exists>n\<ge>Suc ?s. s_height (web bh) i (Suc n) = s_height (web bh) i n"
        by simp
      then show ?thesis by (auto intro: Suc_leD)
    qed
  qed
qed

text \<open>The whole method, from the first scroll that leaves the height unchanged.\<close>

lemma solve_lazy_loading_first_repeat:
  assumes d: "driver bh = Some d" "d_open d" "d_page d = Some i"
    and fix_m: "s_height (web bh) i (d_scrolls d + Suc m) = s_height (web bh) i (d_scrolls d + m)"
    and before: "\<forall>j<m. s_height (web bh) i (d_scrolls d + Suc j) \<noteq> s_height (web bh) i (d_scrolls d + j)"
  shows "solve_lazy_loading bh =
           Some (Inr (), bh\<lparr>driver := Some (d\<lparr>d_scrolls := d_scrolls d + Suc m\<rparr>),
             trace := trace bh @ [ExecScript ''return document.body.scrollHeight''] @
                      concat (replicate (Suc m) lazy_cycle)\<rparr>)"
proof -
  let ?bh1 = "bh\<lparr>trace := trace bh @ [ExecScript ''return document.body.scrollHeight'']\<rparr>"
  have first: "get_scroll_height bh = (Inr (s_height (web bh) i (d_scrolls d)), ?bh1)"
    using get_scroll_height_live [OF d] by simp
  have "lazy_loop (s_height (web bh) i (d_scrolls d)) ?bh1 =
          Some (Inr (), ?bh1\<lparr>driver := Some (d\<lparr>d_scrolls := d_scrolls d + Suc m\<rparr>),
                             trace := trace ?bh1 @ concat (replicate (Suc m) lazy_cycle)\<rparr>)"
    by (rule lazy_loop_first_repeat) (use d fix_m before in simp_all)
  with first show ?thesis by (simp add: solve_lazy_loading_def)
qed

text \<open>A sequence that grows at every step up to \<open>n\<close> has grown by at least \<open>n\<close>.\<close>

lemma strict_growth:
  assumes "\<forall>j<n. f j < (f (Suc j) :: nat)"
  shows "f 0 + n \<le> f n"
  using assms by (induction n) (auto simp: less_Suc_eq Suc_le_eq intro: le_less_trans)

text \<open>Heights that never shrink and stay below \<open>H\<close> repeat for the first time within
  \<open>H - h 0\<close> scrolls.\<close>

lemma first_repeat_bounded:
  assumes grows: "\<forall>n. h n \<le> (h (Suc n) :: nat)" and bounded: "\<forall>n. h n \<le> H"
  shows "\<exists>m \<le> H - h 0. h (Suc m) = h m \<and> (\<forall>j<m. h (Suc j) \<noteq> h j)"
proof -
  let ?N = "H - h 0"
  have "\<exists>n\<le>?N. h (Suc n) = h n"
  proof (rule ccontr)
    assume "\<not> ?thesis"
    then have neg: "\<And>j. j \<le> ?N \<Longrightarrow> h (Suc j) \<noteq> h j" by blast
    have "\<forall>j<Suc ?N. h j < h (Suc j)"
    proof (intro allI impI)
      fix j assume "j < Suc ?N"
      then have "h (Suc j) \<noteq> h j" using neg by simp
      with grows show "h j < h (Suc j)" using le_neq_implies_less by metis
    qed
    then have "h 0 + Suc ?N \<le> h (Suc ?N)" by (rule strict_growth)
    moreover have "h (Suc ?N) \<le> H" "h 0 \<le> H" using bounded by auto
    ultimately show False by simp
  qed
  then obtain n where n: "n \<le> ?N" "h (Suc n) = h n" by blast
  define m where "m = (LEAST n. h (Suc n) = h n)"
  have "h (Suc m) = h m" unfolding m_def using n(2) by (rule LeastI)
  moreover have "\<forall>j<m. h (Suc j) \<noteq> h j" unfolding m_def using not_less_Least by blast
  moreover have "m \<le> ?N" unfolding m_def using n by (meson Least_le order_trans)
  ultimately show ?thesis by blast
qed

lemma lazy_cycles_measures [simp]:
  "sleep_time (concat (replicate n lazy_cycle)) = 500 * n"
  "command_count (concat (replicate n lazy_cycle)) = 2 * n"
  by (induction n) (simp_all add: lazy_cycle_def)

text \<open>
  C5. \<open>solve_lazy_loading\<close> returns exactly when the measured heights reach a fixed
  point: if some scroll leaves the height unchanged, the loop stops after the first such
  scroll, having performed \<open>m + 1\<close> scroll cycles for the least such \<open>m\<close>.
\<close>

theorem solve_lazy_loading_stabilizes:
  assumes "driver bh = Some d" and "d_open d" and "d_page d = Some i"
    and "\<exists>n. s_height (web bh) i (d_scrolls d + Suc n) = s_height (web bh) i (d_scrolls d + n)"
  shows "let m = (LEAST n. s_height (web bh) i (d_scrolls d + Suc n) = s_height (web bh) i (d_scrolls d + n))
         in solve_lazy_loading bh =
              Some (Inr (), bh\<lparr>driver := Some (d\<lparr>d_scrolls := d_scrolls d + Suc m\<rparr>),
                trace := trace bh @ [ExecScript ''return document.body.scrollHeight''] @
                         concat (replicate (Suc m) lazy_cycle)\<rparr>)"
proof -
  let ?h = "\<lambda>n. s_height (web bh) i (d_scrolls d + n)"
  define m where "m = (LEAST n. ?h (Suc n) = ?h n)"
  have fix_m: "?h (Suc m) = ?h m"
    unfolding m_def using assms(4) by (rule LeastI_ex)
  have before: "\<forall>j<m. ?h (Suc j) \<noteq> ?h j"
    unfolding m_def using not_less_Least by blast
  show ?thesis
    unfolding Let_def m_def [symmetric]
    by (rule solve_lazy_loading_first_repeat [OF assms(1-3) fix_m before])
qed

theorem solve_lazy_loading_stabilizes_witness:
  "driver (ex_lazy_handler (\<lambda>i k. if k = 0 then 100 else 250)) =
     Some \<lparr>d_page = Some 0, d_scrolls = 0, d_cookies = [], d_open = True, d_options = [], d_selected = [], d_values = []\<rparr> \<and>
   solve_lazy_loading (ex_lazy_handler (\<lambda>i k. if k = 0 then 100 else 250)) =
     Some (Inr (), (ex_lazy_handler (\<lambda>i k. if k = 0 then 100 else 250))\<lparr>
        driver := Some \<lparr>d_page = Some 0, d_scrolls = 2, d_cookies = [], d_open = True, d_options = [], d_selected = [], d_values = []\<rparr>,
        trace := [ExecScript ''return document.body.scrollHeight''] @ lazy_cycle @ lazy_cycle\<rparr>)"
proof -
  let ?bh = "ex_lazy_handler (\<lambda>i k. if k = 0 then 100 else 250)"
  let ?d = "\<lparr>d_page = Some 0, d_scrolls = 0, d_cookies = [], d_open = True, d_options = [], d_selected = [], d_values = []\<rparr>"
  have d: "driver ?bh = Some ?d" by (simp add: ex_lazy_handler_def)
  have fx: "\<exists>n. s_height (web ?bh) 0 (d_scrolls ?d + Suc n) = s_height (web ?bh) 0 (d_scrolls ?d + n)"
    by (rule exI [of _ 1]) (simp add: ex_lazy_handler_def)
  have least: "(LEAST n. s_height (web ?bh) 0 (d_scrolls ?d + Suc n) = s_height (web ?bh) 0 (d_scrolls ?d + n)) = 1"
    by (rule Least_equality) (auto simp: ex_lazy_handler_def split: if_splits)
  show ?thesis
    using solve_lazy_loading_stabilizes [OF d _ _ fx] least d
    by (simp add: ex_lazy_handler_def Let_def numeral_2_eq_2)
qed

text \<open>
  C6. If every scroll changes the measured height (a page that keeps growing), the
  stabilization loop never returns.
\<close>

theorem solve_lazy_loading_diverges:
  assumes "driver bh = Some d" and "d_open d" and "d_page d = Some i"
    and "\<forall>n. s_height (web bh) i (d_scrolls d + Suc n) \<noteq> s_height (web bh) i (d_scrolls d + n)"
  shows "solve_lazy_loading bh = None"
proof -
  let ?bh1 = "bh\<lparr>trace := trace bh @ [ExecScript ''return document.body.scrollHeight'']\<rparr>"
  have first: "get_scroll_height bh = (Inr (s_height (web bh) i (d_scrolls d)), ?bh1)"
    using get_scroll_height_live [OF assms(1-3)] by simp
  have "lazy_loop (s_height (web bh) i (d_scrolls d)) ?bh1 = None"
  proof (cases "lazy_loop (s_height (web bh) i (d_scrolls d)) ?bh1")
    case (Some r)
    from lazy_loop_no_repeat [OF Some] assms(1-3)
    obtain n where "n \<ge> d_scrolls d" "s_height (web bh) i (Suc n) = s_height (web bh) i n"
      by auto
    with assms(4) [rule_format, of "n - d_scrolls d"] show ?thesis by simp
  qed
  with first show ?thesis by (simp add: solve_lazy_loading_def)
qed

theorem solve_lazy_loading_diverges_witness:
  "driver (ex_lazy_handler (\<lambda>i k. 100 * Suc k)) =
     Some \<lparr>d_page = Some 0, d_scrolls = 0, d_cookies = [], d_open = True, d_options = [], d_selected = [], d_values = []\<rparr> \<and>
   solve_lazy_loading (ex_lazy_handler (\<lambda>i k. 100 * Suc k)) = None"
proof -
  let ?bh = "ex_lazy_handler (\<lambda>i k. 100 * Suc k)"
  let ?d = "\<lparr>d_page = Some 0, d_scrolls = 0, d_cookies = [], d_open = True, d_options = [], d_selected = [], d_values = []\<rparr>"
  have d: "driver ?bh = Some ?d" by (simp add: ex_lazy_handler_def)
  have g: "\<forall>n. s_height (web ?bh) 0 (d_scrolls ?d + Suc n) \<noteq> s_height (web ?bh) 0 (d_scrolls ?d + n)"
    by (simp add: ex_lazy_handler_def)
  show ?thesis using solve_lazy_loading_diverges [OF d _ _ g] d by simp
qed

text \<open>
  C17. Liveness with a bound: on a page whose measured height never shrinks and never
  exceeds \<open>H\<close>, \<open>solve_lazy_loading\<close> returns, after at most \<open>H - h0 + 1\<close> scroll cycles
  where \<open>h0\<close> is the height it measures first.
\<close>

theorem solve_lazy_loading_bounded:
  assumes d: "driver bh = Some d" "d_open d" "d_page d = Some i"
    and grows: "\<forall>n. s_height (web bh) i n \<le> s_height (web bh) i (Suc n)"
    and bounded: "\<forall>n. s_height (web bh) i n \<le> H"
  shows "\<exists>m \<le> H - s_height (web bh) i (d_scrolls d).
           solve_lazy_loading bh =
             Some (Inr (), bh\<lparr>driver := Some (d\<lparr>d_scrolls := d_scrolls d + Suc m\<rparr>),
               trace := trace bh @ [ExecScript ''return document.body.scrollHeight''] @
                        concat (replicate (Suc m) lazy_cycle)\<rparr>)"
proof -
  let ?h = "\<lambda>n. s_height (web bh) i (d_scrolls d + n)"
  obtain m where m: "m \<le> H - ?h 0" "?h (Suc m) = ?h m" "\<forall>j<m. ?h (Suc j) \<noteq> ?h j"
    using first_repeat_bounded [of ?h H] grows bounded by auto
  then show ?thesis using solve_lazy_loading_first_repeat [OF d m(2,3)] by auto
qed

theorem solve_lazy_loading_bounded_witness:
  "driver (ex_lazy_handler (\<lambda>i k. if k = 0 then 100 else 250)) =
     Some \<lparr>d_page = Some 0, d_scrolls = 0, d_cookies = [], d_open = True, d_options = [], d_selected = [], d_values = []\<rparr> \<and>
   (\<forall>n. s_height (web (ex_lazy_handler (\<lambda>i k. if k = 0 then 100 else 250))) 0 n \<le>
        s_height (web (ex_lazy_handler (\<lambda>i k. if k = 0 then 100 else 250))) 0 (Suc n)) \<and>
   (\<forall>n. s_height (web (ex_lazy_handler (\<lambda>i k. if k = 0 then 100 else 250))) 0 n \<le> 250) \<and>
   (\<exists>m \<le> 150. solve_lazy_loading (ex_lazy_handler (\<lambda>i k. if k = 0 then 100 else 250)) =
      Some (Inr (), (ex_lazy_handler (\<lambda>i k. if k = 0 then 100 else 250))\<lparr>
        driver := Some \<lparr>d_page = Some 0, d_scrolls = Suc m, d_cookies = [], d_open = True, d_options = [], d_selected = [], d_values = []\<rparr>,
        trace := [ExecScript ''return document.body.scrollHeight''] @ concat (replicate (Suc m) lazy_cycle)\<rparr>))"
proof -
  let ?bh = "ex_lazy_handler (\<lambda>i k. if k = 0 then 100 else 250)"
  let ?d = "\<lparr>d_page = Some 0, d_scrolls = 0, d_cookies = [], d_open = True, d_options = [], d_selected = [], d_values = []\<rparr>"
  have d: "driver ?bh = Some ?d" by (simp add: ex_lazy_handler_def)
  have g: "\<forall>n. s_height (web ?bh) 0 n \<le> s_height (web ?bh) 0 (Suc n)"
    by (simp add: ex_lazy_handler_def)
  have b: "\<forall>n. s_height (web ?bh) 0 n \<le> 250"
    by (simp add: ex_lazy_handler_def)
  have h0: "s_height (web ?bh) 0 0 = 100" by (simp add: ex_lazy_handler_def)
  show ?thesis
    using solve_lazy_loading_bounded [OF d _ _ g b] d g b h0 by (simp add: ex_lazy_handler_def)
qed


text \<open>
  C29. The cost of lazy loading: on a page whose measured height never shrinks and never
  exceeds \<open>H\<close>, \<open>solve_lazy_loading\<close> returns having paused at most
  \<open>0.5 (H - h0 + 1)\<close> seconds and sent at most \<open>2 (H - h0) + 3\<close> commands to the browser,
  where \<open>h0\<close> is the height it measures first.
\<close>

theorem solve_lazy_loading_cost:
  assumes d: "driver bh = Some d" "d_open d" "d_page d = Some i"
    and grows: "\<forall>n. s_height (web bh) i n \<le> s_height (web bh) i (Suc n)"
    and bounded: "\<forall>n. s_height (web bh) i n \<le> H"
  shows "\<exists>bh' t. solve_lazy_loading bh = Some (Inr (), bh') \<and> trace bh' = trace bh @ t \<and>
           sleep_time t \<le> 500 * (H - s_height (web bh) i (d_scrolls d) + 1) \<and>
           command_count t \<le> 2 * (H - s_height (web bh) i (d_scrolls d)) + 3"
proof -
  let ?h = "\<lambda>n. s_height (web bh) i (d_scrolls d + n)"
  obtain m where m: "m \<le> H - ?h 0" "?h (Suc m) = ?h m" "\<forall>j<m. ?h (Suc j) \<noteq> ?h j"
    using first_repeat_bounded [of ?h H] grows bounded by auto
  let ?t = "[ExecScript ''return document.body.scrollHeight''] @ concat (replicate (Suc m) lazy_cycle)"
  have "sleep_time ?t \<le> 500 * (H - ?h 0 + 1)" "command_count ?t \<le> 2 * (H - ?h 0) + 3"
    using m(1) by (simp_all del: replicate_Suc)
  then show ?thesis using solve_lazy_loading_first_repeat [OF d m(2,3)] by auto
qed

theorem solve_lazy_loading_cost_witness:
  "driver (ex_lazy_handler (\<lambda>i k. if k = 0 then 100 else 250)) =
     Some \<lparr>d_page = Some 0, d_scrolls = 0, d_cookies = [], d_open = True, d_options = [], d_selected = [], d_values = []\<rparr> \<and>
   (\<forall>n. s_height (web (ex_lazy_handler (\<lambda>i k. if k = 0 then 100 else 250))) 0 n \<le>
        s_height (web (ex_lazy_handler (\<lambda>i k. if k = 0 then 100 else 250))) 0 (Suc n)) \<and>
   (\<forall>n. s_height (web (ex_lazy_handler (\<lambda>i k. if k = 0 then 100 else 250))) 0 n \<le> 250) \<and>
   (\<exists>bh' t. solve_lazy_loading (ex_lazy_handler (\<lambda>i k. if k = 0 then 100 else 250)) = Some (Inr (), bh') \<and>
      trace bh' = trace (ex_lazy_handler (\<lambda>i k. if k = 0 then 100 else 250)) @ t \<and>
      sleep_time t \<le> 75500 \<and> command_count t \<le> 303)"
proof -
  let ?bh = "ex_lazy_handler (\<lambda>i k. if k = 0 then 100 else 250)"
  let ?d = "\<lparr>d_page = Some 0, d_scrolls = 0, d_cookies = [], d_open = True, d_options = [], d_selected = [], d_values = []\<rparr>"
  have d: "driver ?bh = Some ?d" by (simp add: ex_lazy_handler_def)
  have g: "\<forall>n. s_height (web ?bh) 0 n \<le> s_height (web ?bh) 0 (Suc n)"
    by (simp add: ex_lazy_handler_def)
  have b: "\<forall>n. s_height (web ?bh) 0 n \<le> 250"
    by (simp add: ex_lazy_handler_def)
  have h0: "s_height (web ?bh) 0 0 = 100" by (simp add: ex_lazy_handler_def)
  show ?thesis
    using solve_lazy_loading_cost [OF d _ _ g b] d g b h0 by simp
qed

end
