(* ===== verification/Session.thy ===== *)
theory Session
  imports Forms LazyLoad
begin

text \<open>
  A session of \<open>BrowserHandler\<close>: the public methods of the class (and the two
  \<open>WebElement\<close> methods the crawler calls on what they return) as a datatype of
  operations, one step function over the handler, and its iteration over a sequence of
  calls made by a client that catches every exception and goes on. A step is \<open>None\<close> when
  the call never returns (\<open>solve_lazy_loading\<close> on a page that keeps growing). Every call
  but \<open>set_driver\<close> and \<open>quit_driver\<close> keeps the window as it is (\<open>window_stable\<close>),
  so the windows launched, closed and held can be counted over any session
  (\<open>window_balance\<close>, which no call decreases), and a \<open>set_driver\<close> on a running
  handler leaves one browser that no later call closes.
\<close>

section \<open>Operations\<close>

datatype handler_op =
    OpSetResourceData "string list"
  | OpSetDriver "string option"
  | OpGetDriver
  | OpGetUrl string
  | OpGetCurrentUrl
  | OpSelectItem string string
  | OpClickElement string
  | OpJsClickElement locator
  | OpJsClickOnElement web_element
  | OpQuitDriver
  | OpWaitUntilElementVisible "locator list" nat
  | OpGetElement locator
  | OpGetElementText locator
  | OpGetElementClick locator
  | OpClearCookies
  | OpFindElement locator
  | OpFindElements locator
  | OpScrollViewToBottom
  | OpScrollElementIntoView locator
  | OpScrollToGivenElement web_element
  | OpPaste string string
  | OpSelect web_element string
  | OpSolveLazyLoading
  | OpIsDisplayed locator
  | OpIsClickable web_element
  | OpElementClick web_element
  | OpElementText web_element

fun run_op :: "handler_op \<Rightarrow> browser_handler \<Rightarrow> browser_handler option" where
  "run_op (OpSetResourceData rd) bh = Some (set_resource_data rd bh)"
| "run_op (OpSetDriver p) bh = Some (set_driver p bh)"
| "run_op OpGetDriver bh = Some (snd (page_source bh))"
| "run_op (OpGetUrl u) bh = Some (snd (get_url u bh))"
| "run_op OpGetCurrentUrl bh = Some (snd (get_current_url bh))"
| "run_op (OpSelectItem s v) bh = Some (snd (select_item s v bh))"
| "run_op (OpClickElement s) bh = Some (snd (click_element s bh))"
| "run_op (OpJsClickElement l) bh = Some (snd (js_click_element l bh))"
| "run_op (OpJsClickOnElement e) bh = Some (snd (js_click_on_element e bh))"
| "run_op OpQuitDriver bh = Some (snd (quit_driver bh))"
| "run_op (OpWaitUntilElementVisible ls t) bh = Some (snd (wait_until_element_visible ls t bh))"
| "run_op (OpGetElement l) bh = Some (snd (get_element l bh))"
| "run_op (OpGetElementText l) bh = Some (snd (get_element_text l bh))"
| "run_op (OpGetElementClick l) bh = Some (snd (get_element_click l bh))"
| "run_op OpClearCookies bh = Some (snd (clear_cookies bh))"
| "run_op (OpFindElement l) bh = Some (snd (find_element l bh))"
| "run_op (OpFindElements l) bh = Some (snd (find_elements l bh))"
| "run_op OpScrollViewToBottom bh = Some (snd (scroll_view_to_bottom bh))"
| "run_op (OpScrollElementIntoView l) bh = Some (snd (scroll_element_into_view l bh))"
| "run_op (OpScrollToGivenElement e) bh = Some (snd (scroll_to_given_element e bh))"
| "run_op (OpPaste i d) bh = Some (snd (paste i d bh))"
| "run_op (OpSelect e v) bh = Some (snd (select e v bh))"
| "run_op OpSolveLazyLoading bh = map_option snd (solve_lazy_loading bh)"
| "run_op (OpIsDisplayed l) bh = Some (snd (is_displayed l bh))"
| "run_op (OpIsClickable e) bh = Some (snd (is_clickable e bh))"
| "run_op (OpElementClick e) bh = Some (snd (element_click e bh))"
| "run_op (OpElementText e) bh = Some (snd (element_text e bh))"

fun run_ops :: "handler_op list \<Rightarrow> browser_handler \<Rightarrow> browser_handler option" where
  "run_ops [] bh = Some bh"
| "run_ops (op # ops) bh = (case run_op op bh of None \<Rightarrow> None | Some bh' \<Rightarrow> run_ops ops bh')"

section \<open>What a call may change\<close>

text \<open>A later handler of the same session: same site, same settings, the trace extended.\<close>

definition extends :: "browser_handler \<Rightarrow> browser_handler \<Rightarrow> bool" where
  "extends bh bh' \<longleftrightarrow>
     web bh' = web bh \<and> headless bh' = headless bh \<and> path_to_driver bh' = path_to_driver bh \<and>
     (\<exists>t. trace bh' = trace bh @ t)"

text \<open>Browser windows: the launches in a trace, calls that keep the window and add no
  launch or close, and the windows launched that are neither closed nor held by the
  handler (a window is held while the handler's driver is live).\<close>

fun is_launch :: "action \<Rightarrow> bool" where
  "is_launch (Launch opts) = True"
| "is_launch _ = False"

definition launches :: "action list \<Rightarrow> nat" where
  "launches tr = length (filter is_launch tr)"

definition window_stable :: "browser_handler \<Rightarrow> browser_handler \<Rightarrow> bool" where
  "window_stable bh bh' \<longleftrightarrow>
     extends bh bh' \<and> live bh' = live bh \<and> launches (trace bh') = launches (trace bh) \<and>
     count_list (trace bh') Close = count_list (trace bh) Close"

definition window_balance :: "browser_handler \<Rightarrow> int" where
  "window_balance bh =
     int (launches (trace bh)) - int (count_list (trace bh) Close) - (if live bh then 1 else 0)"

text \<open>The only call that starts a browser.\<close>

fun starts_browser :: "handler_op \<Rightarrow> bool" where
  "starts_browser (OpSetDriver p) = True"
| "starts_browser _ = False"

section \<open>Lemmas\<close>

lemma extends_refl [simp]: "extends bh bh"
  by (simp add: extends_def)

lemma extends_trans: "extends bh1 bh2 \<Longrightarrow> extends bh2 bh3 \<Longrightarrow> extends bh1 bh3"
  by (auto simp: extends_def)

lemma drv_extends: "drv a f bh = (r, bh') \<Longrightarrow> extends bh bh'"
  by (auto simp: drv_def extends_def split: option.splits prod.splits if_splits)

lemma stable_refl [simp]: "window_stable bh bh"
  by (simp add: window_stable_def)

lemma stable_trans: "window_stable bh1 bh2 \<Longrightarrow> window_stable bh2 bh3 \<Longrightarrow> window_stable bh1 bh3"
  by (auto simp: window_stable_def intro: extends_trans)

lemma stable_extends: "window_stable bh bh' \<Longrightarrow> extends bh bh'"
  by (simp add: window_stable_def)

text \<open>A driver call that is neither a launch nor a close and keeps the window as it is.\<close>

lemma drv_stable:
  assumes "drv a f bh = (r, bh')" "\<not> is_launch a" "a \<noteq> Close" "\<And>w d. d_open (snd (f w d)) = d_open d"
  shows "window_stable bh bh'"
proof (cases "driver bh")
  case None
  then show ?thesis using assms(1) by simp
next
  case (Some d)
  show ?thesis
  proof (cases "d_open d")
    case False
    then show ?thesis using assms(1) Some drv_closed [of bh d a f] by simp
  next
    case True
    obtain r' d' where f: "f (web bh) d = (r', d')" by fastforce
    have "d_open d' = d_open d" using assms(4) [of "web bh" d] f by simp
    moreover have "bh' = bh\<lparr>driver := Some d', trace := trace bh @ [a]\<rparr>"
      using assms(1) Some True f drv_live [of bh d a f] by simp
    ultimately show ?thesis
      using Some True assms(2,3) by (simp add: window_stable_def extends_def live_def launches_def)
  qed
qed

lemma sleep_stable: "window_stable bh (sleep n bh)"
  by (simp add: sleep_def window_stable_def extends_def live_def launches_def)

lemma element_cmd_stable [ext_steps]: "element_cmd c e f bh = (r, bh') \<Longrightarrow> window_stable bh bh'"
  unfolding element_cmd_def by (erule drv_stable) simp_all

lemma find_elements_stable [ext_steps]: "find_elements l bh = (r, bh') \<Longrightarrow> window_stable bh bh'"
  unfolding find_elements_def by (erule drv_stable) simp_all

lemma find_element_stable [ext_steps]: "find_element l bh = (r, bh') \<Longrightarrow> window_stable bh bh'"
  by (auto simp: find_element_def split: prod.splits dest: find_elements_stable)

lemma element_click_stable [ext_steps]: "element_click e bh = (r, bh') \<Longrightarrow> window_stable bh bh'"
  unfolding element_click_def
  by (erule drv_stable) (auto simp: load_page_def split: sum.splits web_element.splits option.splits click_outcome.splits)

lemma js_click_on_element_stable [ext_steps]: "js_click_on_element e bh = (r, bh') \<Longrightarrow> window_stable bh bh'"
  unfolding js_click_on_element_def
  by (erule drv_stable) (auto simp: load_page_def split: sum.splits web_element.splits option.splits)

lemma scroll_to_given_element_stable [ext_steps]: "scroll_to_given_element e bh = (r, bh') \<Longrightarrow> window_stable bh bh'"
  unfolding scroll_to_given_element_def by (erule drv_stable) simp_all

lemma option_click_stable [ext_steps]: "option_click s m e bh = (r, bh') \<Longrightarrow> window_stable bh bh'"
  unfolding option_click_def by (erule drv_stable) (auto simp: Let_def split: sum.splits)

lemma page_source_stable [ext_steps]: "page_source bh = (r, bh') \<Longrightarrow> window_stable bh bh'"
  unfolding page_source_def by (erule drv_stable) simp_all

lemma get_current_url_stable [ext_steps]: "get_current_url bh = (r, bh') \<Longrightarrow> window_stable bh bh'"
  unfolding get_current_url_def by (erule drv_stable) simp_all

lemma clear_cookies_stable [ext_steps]: "clear_cookies bh = (r, bh') \<Longrightarrow> window_stable bh bh'"
  unfolding clear_cookies_def
  by (cases "drv DeleteCookies (\<lambda>w d. (Inr (), d\<lparr>d_cookies := []\<rparr>)) bh") (auto elim: drv_stable)

lemma scroll_view_to_bottom_stable [ext_steps]: "scroll_view_to_bottom bh = (r, bh') \<Longrightarrow> window_stable bh bh'"
  unfolding scroll_view_to_bottom_def by (erule drv_stable) simp_all

lemma paste_stable [ext_steps]: "paste i v bh = (r, bh') \<Longrightarrow> window_stable bh bh'"
  unfolding paste_def by (erule drv_stable) (auto simp: js_paste_def split: option.splits list.splits sum.splits)

lemma element_text_state: "element_text e bh = (r, bh') \<Longrightarrow> bh' = bh"
  by (auto simp: element_text_def split: option.splits)

lemma element_text_stable [ext_steps]: "element_text e bh = (r, bh') \<Longrightarrow> window_stable bh bh'"
  by (auto dest: element_text_state)

lemma get_element_stable [ext_steps]: "get_element l bh = (r, bh') \<Longrightarrow> window_stable bh bh'"
  by (auto simp: get_element_def wait_until_element_visible_def split: prod.splits sum.splits dest: find_element_stable)

lemma set_selected_stable [ext_steps]: "set_selected s m opt bh = (r, bh') \<Longrightarrow> window_stable bh bh'"
  unfolding set_selected_def
  by (auto split: prod.splits sum.splits bool.splits
      dest!: element_cmd_stable option_click_stable intro: stable_trans)

lemma select_loop_stable [ext_steps]:
  "select_loop s m opts matched bh = (r, bh') \<Longrightarrow> window_stable bh bh'"
proof (induction opts arbitrary: matched bh)
  case Nil
  then show ?case by (auto split: if_splits)
next
  case (Cons opt os)
  obtain r1 bh1 where s: "set_selected s m opt bh = (r1, bh1)" by fastforce
  have e1: "window_stable bh bh1" using s by (rule set_selected_stable)
  show ?case using Cons s e1 by (auto split: sum.splits if_splits intro: stable_trans)
qed

lemma Select_init_stable [ext_steps]: "Select_init e bh = (r, bh') \<Longrightarrow> window_stable bh bh'"
  unfolding Select_init_def
  by (auto split: prod.splits sum.splits if_splits dest!: element_cmd_stable intro: stable_trans)

lemma select_find_options_stable [ext_steps]: "select_find_options e v bh = (r, bh') \<Longrightarrow> window_stable bh bh'"
  unfolding select_find_options_def by (rule element_cmd_stable)

lemma select_stable [ext_steps]: "select e v bh = (r, bh') \<Longrightarrow> window_stable bh bh'"
  unfolding select_def
  by (auto split: prod.splits sum.splits
      dest!: Select_init_stable select_find_options_stable select_loop_stable intro: stable_trans)

lemma select_item_stable [ext_steps]: "select_item s v bh = (r, bh') \<Longrightarrow> window_stable bh bh'"
  unfolding select_item_def
  by (auto split: prod.splits sum.splits dest!: find_element_stable select_stable intro: stable_trans)

lemma is_clickable_stable [ext_steps]: "is_clickable e bh = (r, bh') \<Longrightarrow> window_stable bh bh'"
  unfolding is_clickable_def
  by (auto split: prod.splits sum.splits bool.splits dest!: element_cmd_stable intro: stable_trans)

lemma get_element_text_stable [ext_steps]: "get_element_text l bh = (r, bh') \<Longrightarrow> window_stable bh bh'"
  unfolding get_element_text_def
  by (auto split: prod.splits sum.splits dest!: get_element_stable element_text_state intro: stable_trans)

lemma get_element_click_stable [ext_steps]: "get_element_click l bh = (r, bh') \<Longrightarrow> window_stable bh bh'"
  unfolding get_element_click_def
  by (auto split: prod.splits sum.splits dest!: get_element_stable element_click_stable
      intro: stable_trans [OF sleep_stable] stable_trans)

lemma click_element_stable [ext_steps]: "click_element s bh = (r, bh') \<Longrightarrow> window_stable bh bh'"
  unfolding click_element_def
  by (auto split: prod.splits sum.splits dest!: find_element_stable element_click_stable intro: stable_trans)

lemma scroll_element_into_view_stable [ext_steps]: "scroll_element_into_view l bh = (r, bh') \<Longrightarrow> window_stable bh bh'"
  unfolding scroll_element_into_view_def
  by (auto split: prod.splits sum.splits dest!: find_element_stable scroll_to_given_element_stable
      intro: stable_trans)

lemma js_click_element_stable [ext_steps]: "js_click_element l bh = (r, bh') \<Longrightarrow> window_stable bh bh'"
  unfolding js_click_element_def
  by (auto split: prod.splits sum.splits dest!: find_element_stable js_click_on_element_stable
      intro: stable_trans)

lemma get_url_drv_stable:
  "drv (Get u) (\<lambda>w d. case s_resolve w u of None \<Rightarrow> (Inl WebDriverError, d)
                   | Some i \<Rightarrow> (Inr (), load_page w i d)) bh = (r, bh') \<Longrightarrow> window_stable bh bh'"
  by (erule drv_stable) (auto simp: load_page_def split: option.splits)

lemma get_url_stable [ext_steps]: "get_url u bh = (r, bh') \<Longrightarrow> window_stable bh bh'"
  unfolding get_url_def
  by (auto split: prod.splits sum.splits if_splits dest!: get_url_drv_stable
      intro: stable_trans [OF _ sleep_stable])

lemma is_displayed_stable [ext_steps]: "is_displayed l bh = (r, bh') \<Longrightarrow> window_stable bh bh'"
  unfolding is_displayed_def by (auto split: prod.splits dest!: find_elements_stable)

lemma get_scroll_height_stable: "get_scroll_height bh = (r, bh') \<Longrightarrow> window_stable bh bh'"
  unfolding get_scroll_height_def by (erule drv_stable) simp_all

lemma scroll_drv_stable:
  "drv (ExecScript ''window.scrollTo(0, document.body.scrollHeight);'')
     (\<lambda>w d. (Inr (), d\<lparr>d_scrolls := Suc (d_scrolls d)\<rparr>)) bh = (r, bh') \<Longrightarrow> window_stable bh bh'"
  by (erule drv_stable) simp_all

lemma lazy_iteration_stable:
  "lazy_iteration h bh = Inl (r, bh') \<Longrightarrow> window_stable bh bh'"
  "lazy_iteration h bh = Inr (h', bh') \<Longrightarrow> window_stable bh bh'"
  unfolding lazy_iteration_def
  by (auto split: prod.splits sum.splits if_splits dest!: scroll_drv_stable get_scroll_height_stable
      intro: stable_trans [OF _ stable_trans [OF sleep_stable]] stable_trans)

lemma lazy_loop_stable:
  assumes "lazy_loop h bh = Some r"
  shows "window_stable bh (snd r)"
proof (rule lazy_loop.raw_induct [where P = "\<lambda>h bh r. window_stable bh (snd r)", OF _ assms])
  fix f :: "nat \<Rightarrow> browser_handler \<Rightarrow> (unit py_result \<times> browser_handler) option" and h bh r
  assume IH: "\<And>h bh r. f h bh = Some r \<Longrightarrow> window_stable bh (snd r)"
    and run: "(case lazy_iteration h bh of Inl r \<Rightarrow> Some r | Inr (h', bh') \<Rightarrow> f h' bh') = Some r"
  show "window_stable bh (snd r)"
  proof (cases "lazy_iteration h bh")
    case (Inl r')
    then show ?thesis using run lazy_iteration_stable(1) [of h bh "fst r'" "snd r'"] by simp
  next
    case (Inr y)
    obtain h' bh' where y: "y = (h', bh')" by fastforce
    with Inr run have "f h' bh' = Some r" by simp
    then have "window_stable bh' (snd r)" by (rule IH)
    moreover have "window_stable bh bh'" using lazy_iteration_stable(2) Inr y by simp
    ultimately show ?thesis by (blast intro: stable_trans)
  qed
qed

lemma solve_lazy_loading_stable:
  "solve_lazy_loading bh = Some r \<Longrightarrow> window_stable bh (snd r)"
  unfolding solve_lazy_loading_def
  by (auto split: prod.splits sum.splits dest!: get_scroll_height_stable lazy_loop_stable intro: stable_trans)

lemma set_resource_data_stable: "window_stable bh (set_resource_data rd bh)"
  by (simp add: window_stable_def extends_def set_resource_data_def live_def)

lemma set_driver_extends: "extends bh (set_driver p bh)"
  by (simp add: extends_def set_driver_def Let_def)

lemma snd_stable: "(\<And>r bh'. f = (r, bh') \<Longrightarrow> window_stable bh bh') \<Longrightarrow> window_stable bh (snd f)"
  by (cases f) auto

text \<open>Every call but \<open>set_driver\<close> and \<open>quit_driver\<close> keeps the window and adds no launch
  or close.\<close>

lemma run_op_stable:
  assumes "run_op op bh = Some bh'" and "\<not> starts_browser op" and "op \<noteq> OpQuitDriver"
  shows "window_stable bh bh'"
proof (cases op)
  case OpSolveLazyLoading
  then show ?thesis using assms solve_lazy_loading_stable by auto
next
  case (OpSetResourceData rd)
  then show ?thesis using assms set_resource_data_stable [of bh rd] by simp
qed (use assms in \<open>auto intro!: snd_stable dest: ext_steps\<close>)


section \<open>Browser windows\<close>

lemma set_driver_balance:
  "window_balance (set_driver p bh) = window_balance bh + (if live bh then 1 else 0)"
  by (simp add: window_balance_def set_driver_def Let_def live_def launches_def)

lemma quit_driver_balance: "window_balance (snd (quit_driver bh)) = window_balance bh"
  by (auto simp: window_balance_def quit_driver_def drv_def live_def launches_def split: option.splits)

lemma stable_balance: "window_stable bh bh' \<Longrightarrow> window_balance bh' = window_balance bh"
  by (simp add: window_stable_def window_balance_def)

text \<open>No call releases a window that is neither closed nor held.\<close>

lemma run_op_balance: "run_op op bh = Some bh' \<Longrightarrow> window_balance bh \<le> window_balance bh'"
proof (cases "starts_browser op \<or> op = OpQuitDriver")
  case True
  then show "run_op op bh = Some bh' \<Longrightarrow> window_balance bh \<le> window_balance bh'"
    by (cases op) (auto simp: set_driver_balance quit_driver_balance)
next
  case False
  then show "run_op op bh = Some bh' \<Longrightarrow> window_balance bh \<le> window_balance bh'"
    using run_op_stable stable_balance by fastforce
qed

lemma run_ops_balance: "run_ops ops bh = Some bh' \<Longrightarrow> window_balance bh \<le> window_balance bh'"
proof (induction ops arbitrary: bh)
  case Nil
  then show ?case by simp
next
  case (Cons op ops)
  then obtain bh1 where "run_op op bh = Some bh1" "run_ops ops bh1 = Some bh'"
    by (auto split: option.splits)
  then show ?case using Cons.IH run_op_balance by fastforce
qed

lemma init_balance [simp]: "window_balance (BrowserHandler_init w installed hl) = 0"
  by (simp add: window_balance_def BrowserHandler_init_def live_def launches_def)

text \<open>
  C28. \<open>set_driver\<close> on a running handler leaks the running browser: it replaces
  \<open>self.driver\<close> without closing the window it held, and whatever the client calls next,
  at least one launched browser is then neither closed nor held by the handler.
\<close>

theorem set_driver_leaks_window:
  assumes "run_ops ops (BrowserHandler_init w installed hl) = Some bh" and "live bh"
    and "run_ops ops' (set_driver p bh) = Some bh'"
  shows "count_list (trace bh') Close + (if live bh' then 1 else 0) < launches (trace bh')"
proof -
  have "0 \<le> window_balance bh" using run_ops_balance [OF assms(1)] by simp
  moreover have "window_balance bh + 1 \<le> window_balance bh'"
    using run_ops_balance [OF assms(3)] set_driver_balance [of p bh] assms(2) by simp
  ultimately show ?thesis by (auto simp: window_balance_def)
qed

theorem set_driver_leaks_window_witness:
  "\<exists>bh bh'. run_ops [OpSetDriver None] (BrowserHandler_init ex_form_site ''/usr/bin/chromedriver'' True) = Some bh \<and>
     live bh \<and> run_ops [OpQuitDriver] (set_driver None bh) = Some bh' \<and>
     count_list (trace bh') Close + (if live bh' then 1 else 0) < launches (trace bh')"
proof -
  let ?bh = "set_driver None (BrowserHandler_init ex_form_site ''/usr/bin/chromedriver'' True)"
  have r: "run_ops [OpSetDriver None] (BrowserHandler_init ex_form_site ''/usr/bin/chromedriver'' True) = Some ?bh"
    by simp
  have l: "live ?bh" by (simp add: live_def set_driver_def Let_def)
  have q: "run_ops [OpQuitDriver] (set_driver None ?bh) = Some (snd (quit_driver (set_driver None ?bh)))" by simp
  show ?thesis using set_driver_leaks_window [OF r l q] r l q by blast
qed

end
