(* ===== verification/Spec2Isabelle.thy ===== *)
theory Spec2Isabelle
  imports Pipeline Crawl_Spec Html Session
begin

text \<open>
  \<^bold>\<open>A verification development of the synculario job crawler.\<close>

  The program (\<open>src/synculario.py\<close>, \<open>src/browser_handler.py\<close>) opens the job listing
  of \<open>synculario.odoo.com\<close> in a Chrome browser driven by Selenium, captures the page
  source of every listing page by clicking the last pagination control until the click is
  intercepted, closes the window, and parses the captured pages with BeautifulSoup into a
  pandas DataFrame of job offers. The development is a shallow embedding: each method is a
  HOL function over an explicit handler state, each exception a value, each unbounded loop
  a \<open>partial_function (option)\<close> whose value \<open>None\<close> means that it does not return.

  \<^bold>\<open>Theories.\<close>
  \<^item> \<open>Prelude\<close>: the Python exceptions the code meets (\<open>py_error\<close>, with \<open>OutsideModel\<close>
    for browser answers the model does not decide), the result type
    \<open>'a py_result = py_error + 'a\<close> (\<open>Inl\<close> is a raised exception) with \<open>rbind\<close>, list
    indexing with negative indices (\<open>py_get\<close>), the string methods the parser calls
    (\<open>py_strip\<close>, \<open>py_split\<close> over Python's whitespace, \<open>py_replace\<close>, \<open>py_contains\<close>),
    and \<open>while_break\<close>, the reference semantics of \<open>while True: ... break\<close> as the
    library's \<open>while_option\<close>.
  \<^item> \<open>Markup\<close>: a parsed document as a tree of \<open>node\<close>s and the BeautifulSoup queries the
    code uses: \<open>find_all\<close> over the descendants in document order, \<open>text_of\<close>, item access
    that raises \<open>KeyError\<close>, and bs4's multi-valued class matching.
  \<^item> \<open>Browser\<close>: the class \<open>BrowserHandler\<close>. The browser and the site are a \<open>site\<close> record
    (the tree and URL of each page, where a URL resolves to, what a click on a control
    does, the page height after k scrolls, cookies) and a \<open>driver\<close> record (current page,
    scroll count, cookies, whether the window is open). Every method
    (\<open>__init__\<close>, \<open>set_driver\<close>, \<open>get_url\<close>, \<open>get_driver\<close>, \<open>find_element(s)\<close>, \<open>quit_driver\<close>,
    \<open>clear_cookies\<close> returning \<open>self\<close>, the scrolling methods, \<open>is_displayed\<close>,
    \<open>wait_until_element_visible\<close>, \<open>get_element\<close> and its callers) maps a handler to a
    result and the next handler; \<open>drv\<close> is one call on \<open>self.driver\<close> and appends the
    action to the handler's trace, so the order of the effects is part of every theorem
    about them. Lemmas: the wait always answers True at once (C13), \<open>get_element\<close> on a
    running browser (C14), \<open>is_displayed\<close> reports presence and not visibility (C31), and
    after \<open>quit_driver\<close> the handler keeps the closed driver, so \<open>get_url\<close> silently does
    nothing and the other calls raise WebDriverException (C32).
  \<^item> \<open>Crawler\<close>: the \<open>while True\<close> loop of \<open>get_synculario_offers\<close> (lines 22--31): one
    pass is \<open>crawl_iteration\<close>, the loop is \<open>crawl_loop\<close>. Lemmas: the exact effect of one
    pass on a running browser, termination with the visited pages in order on a linear
    site, divergence when no reachable page intercepts the click, the \<open>IndexError\<close> of
    a page without pagination, and the equality of the loop with \<open>while_break\<close>.
  \<^item> \<open>LazyLoad\<close>: \<open>solve_lazy_loading\<close> (lines 140--153 of the handler): it returns after
    the first scroll that leaves the height unchanged, with the exact number of cycles
    (C5), diverges on a page that grows with every scroll (C6), and on a page whose height
    never shrinks and is bounded by \<open>H\<close> returns within \<open>H - h0 + 1\<close> cycles (C17), pausing
    at most \<open>0.5 (H - h0 + 1)\<close> seconds and sending at most \<open>2 (H - h0) + 3\<close> commands (C29).
  \<^item> \<open>Parser\<close>: the data loop of \<open>get_synculario_offers\<close> (lines 34--46): \<open>parse_row\<close>
    follows the evaluation order of the row literal, so the exception it raises is the
    one Python raises; \<open>parse_pages\<close> is the loop over pages and blocks, \<open>DataFrame\<close> the
    column-count check of the constructor (C7--C12).
  \<^item> \<open>Pipeline\<close>: \<open>get_synculario_offers\<close> as a whole.
  \<^item> \<open>Html\<close>: the string behind \<open>page_source\<close>: the browser's serializer, the tokenizer of
    \<open>html.parser\<close> (tags, text and character references, comments, doctypes, the raw
    text of \<open>script\<close> and \<open>style\<close>) and BeautifulSoup's tree builder (pending string data
    and its whitespace collapse in \<open>endData\<close>, empty-element tags, ignored redundant end
    tags); a well-formed document survives serialization and parsing unchanged
    (\<open>soup_doc_roundtrip\<close>), which is why the other theories represent a captured page by
    its tree.
  \<^item> \<open>Forms\<close>: the handler methods the crawl does not call (\<open>js_click_element\<close>,
    \<open>js_click_on_element\<close>, \<open>is_clickable\<close>, \<open>paste\<close>, \<open>select\<close>, \<open>select_item\<close>) with
    Selenium's \<open>Select\<close>; a scripted click is never intercepted (C18, C19),
    \<open>is_clickable\<close> short-circuits (C20), selection asks whether an option is selected
    before whether it is enabled and clicks the first matching option of a single
    drop-down (C21), leaves the form untouched on error (C22), and \<open>paste\<close> assigns the
    value of the template literal as the target's value sanitization keeps it (C23).
  \<^item> \<open>Session\<close>: the public methods of \<open>BrowserHandler\<close> as a datatype of operations
    with one step function and its iteration over call sequences (a client that catches
    every exception); the windows launched, closed and held are counted over any session,
    and a \<open>set_driver\<close> on a running handler leaks the browser it replaces (C28).
  \<^item> \<open>Crawl_Spec\<close>: the contract of the crawl as a state machine (Loading, Capturing,
    Advancing, Done) given by an inductive step relation; the code's loop refines it (C16).
  \<^item> This theory: example sites (linear, stuck, offline, without pagination, without
    jobs, with a broken job block) and the end-to-end theorems: the table and action trace
    on a linear site (C1), one close (C2), the error paths that leave the browser open (C3,
    C15), divergence (C4), the type of the returned table: nine columns, nine fields per
    row, one row per captured job block (C24), the cost of a run: 0.1 + k seconds of
    pauses, 4k + 4 browser commands and k captures on k pages (C25, measured by
    \<open>sleep_time\<close> and \<open>command_count\<close> of the trace), a parse failure raised after the
    close (C26), the empty table of a listing without jobs (C27), and on every site a
    returned table comes with one launch and one close, the last action (C30).

  \<^bold>\<open>Loops and fuel.\<close> Both unbounded loops of the code are \<open>partial_function (option)\<close>
  and not fuel-bounded functions, because the code has no bound: a theorem that a loop
  returns states \<open>= Some _\<close> and is proved by unfolding it once per pass (n passes on a
  site of n pages, m+1 scroll cycles for the least repeating scroll m), and a theorem that
  it never returns states \<open>= None\<close> and is proved by fixpoint induction.

  \<^bold>\<open>Not modelled.\<close> The HTML the tokenizer does not read (bogus comments, processing
  instructions, unquoted attributes, character references the serializer does not write,
  a \<open>script\<close> whose text contains \<open></\<close>; on the first two it answers \<open>None\<close>). The
  evaluation of a \<open>paste\<close> script whose data needs escaping (escapes, \<open>${...}\<close>, a
  backtick), and the conversion of the value by number, date, range and color inputs and
  by \<open>select\<close>, \<open>li\<close>, \<open>meter\<close> and \<open>progress\<close> elements: the answer is \<open>OutsideModel\<close>.
  Disabledness inherited from a \<open>fieldset\<close> or \<open>optgroup\<close>. \<open>WebElement.text\<close> is taken
  to be bs4's \<open>get_text\<close> of the element (\<open>text_of\<close>), not the rendered text. A failed
  load leaves the page shown before (the blank start page where the crawl begins) rather
  than Chrome's error page; neither has the controls the crawl looks for. Failures of the
  driver itself are not modelled: a launch always succeeds, and no command times out, so
  the \<open>except TimeoutException\<close> of \<open>get_element\<close> is never exercised.
  \<open>pd.DataFrame\<close> is modelled for rows of equal length, which is all the code builds
  (C24); pandas' padding of short rows is not. \<open>ChromeDriverManager().install()\<close> (its
  result is a parameter), printing, \<open>pd.set_option\<close> and the \<open>__main__\<close> block. Real
  time is not modelled: a pause is a \<open>Sleep\<close> action in the trace.
\<close>

section \<open>An example site\<close>

text \<open>
  Two listing pages, each with one job block and the pagination list \<open>1 | Next\<close>; a
  click on \<open>Next\<close> of page 0 opens page 1, on page 1 it is intercepted.
\<close>

definition ex_pagination :: node where
  "ex_pagination = Elem ''ul'' [(''class'', ''pagination'')]
     [Elem ''li'' [(''class'', ''page-item active'')] [Text ''1''],
      Elem ''li'' [(''class'', ''page-item'')] [Text ''Next'']]"

definition ex_job :: "string \<Rightarrow> string \<Rightarrow> node" where
  "ex_job title href = Elem ''div'' [(''class'', ''job-list'')]
     [Elem ''h2'' [] [Text title],
      Elem ''a'' [(''class'', ''button-read2''), (''href'', href)] [Text ''Read more''],
      Elem ''h5'' [] [Text '' Prague ''],
      Elem ''ul'' []
        [Elem ''li'' [(''class'', ''company'')] [Text ''\<newline>  Contract type:\<newline>Full-time ''],
         Elem ''li'' [(''class'', ''job-type temporary'')] [Text ''Salary:\<newline>\<newline>40 EUR'']]]"

definition ex_page :: "nat \<Rightarrow> dom" where
  "ex_page i = Elem ''[document]'' []
     [ex_job (if i = 0 then ''Tester'' else ''Analyst'') (if i = 0 then ''/jobs/42'' else ''/jobs/43''),
      ex_pagination]"

definition ex_site :: site where
  "ex_site = \<lparr>s_dom = ex_page, s_url = (\<lambda>i. link),
     s_resolve = (\<lambda>u. if u = link then Some 0 else None),
     s_click = (\<lambda>i c. if i = 0 then Navigates 1 else Intercepted),
     s_height = (\<lambda>i k. 100), s_cookies = (\<lambda>i. []),
             s_activate = (\<lambda>i c. None), s_displayed = (\<lambda>i c. True)\<rparr>"

text \<open>The same pages, but the advance click does nothing (a disabled \<open>Next\<close>).\<close>

definition ex_stuck_site :: site where
  "ex_stuck_site = ex_site\<lparr>s_click := (\<lambda>i c. Stays)\<rparr>"

text \<open>A site whose listing URL does not load.\<close>

definition ex_offline_site :: site where
  "ex_offline_site = ex_site\<lparr>s_resolve := (\<lambda>u. None)\<rparr>"

text \<open>A listing page without pagination controls.\<close>

definition ex_bare_site :: site where
  "ex_bare_site = ex_site\<lparr>s_dom := (\<lambda>i. Elem ''[document]'' [] [ex_job ''Tester'' ''/jobs/42''])\<rparr>"

text \<open>Two listing pages with pagination and no job block.\<close>

definition ex_empty_site :: site where
  "ex_empty_site = ex_site\<lparr>s_dom := (\<lambda>i. Elem ''[document]'' [] [ex_pagination])\<rparr>"

text \<open>The second listing page holds a job block without a title.\<close>

definition ex_broken_site :: site where
  "ex_broken_site = ex_site\<lparr>s_dom := (\<lambda>i. if i = 0 then ex_page 0
                                          else Elem ''[document]'' [] [ex_untitled_block, ex_pagination])\<rparr>"

section \<open>The crawl from end to end\<close>

lemma get_synculario_offers_linear_run:
  assumes "s_resolve w link = Some 0" "linear_site w k" "0 < k"
  shows "\<exists>d. get_synculario_offers w installed http_proxy =
     Some (rbind (parse_pages base_url (map (s_dom w) [0..<k])) (\<lambda>data. DataFrame data columns),
           (launched w installed http_proxy)\<lparr>driver := Some d,
              trace := launch_trace http_proxy @ [Get link, Sleep 100] @
                concat (map (\<lambda>j. iter_trace j (last (pagination_controls w j))) [0..<k]) @ [Close]\<rparr>)
     \<and> \<not> d_open d"
proof -
  let ?bh1 = "launched w installed http_proxy"
  obtain d0 where d0: "driver ?bh1 = Some d0" "d_open d0" "d_page d0 = None"
    using launched_driver by blast
  let ?bh2 = "?bh1\<lparr>driver := Some (load_page w 0 d0), trace := trace ?bh1 @ [Get link, Sleep 100]\<rparr>"
  have get: "get_url link ?bh1 = (Inr (), ?bh2)"
    using get_url_loads [of ?bh1 d0 link 0] d0 assms(1) by simp
  obtain d' where run: "crawl_loop [] ?bh2 =
      Some (Inr (map (s_dom w) [0..<k]),
            ?bh2\<lparr>driver := Some d',
                 trace := trace ?bh2 @ concat (map (\<lambda>j. iter_trace j (last (pagination_controls w j))) [0..<k])\<rparr>)"
    and d': "d_open d'"
    using crawl_loop_linear_from [of ?bh2 k 0 k "load_page w 0 d0" "[]"] assms d0
    by (auto simp: load_page_def)
  show ?thesis
    using get run d'
    by (auto simp: get_synculario_offers_launched quit_driver_open intro!: exI [of _ "d'\<lparr>d_open := False\<rparr>"])
qed

lemma linear_run_trace_close:
  "count_list (launch_trace http_proxy @ [Get link, Sleep 100] @
     concat (map (\<lambda>j. iter_trace j (last (pagination_controls w j))) [0..<k]) @ [Close]) Close = 1"
  by (simp add: launch_trace_def trace_measures_concat)

text \<open>
  C1. On a site of \<open>k \<ge> 1\<close> listing pages whose last pagination control advances to
  the next page and is intercepted on the last one, \<open>get_synculario_offers\<close> returns:
  the table is built from exactly the \<open>k\<close> page snapshots in visiting order, and the
  browser performs the launch, the request, one pass per page and one close, in order.
\<close>

theorem get_synculario_offers_linear:
  assumes "s_resolve w link = Some 0" and "linear_site w k" and "0 < k"
  shows "\<exists>bh. get_synculario_offers w installed http_proxy =
           Some (rbind (parse_pages base_url (map (s_dom w) [0..<k])) (\<lambda>data. DataFrame data columns), bh)
         \<and> trace bh = launch_trace http_proxy @ [Get link, Sleep 100] @
             concat (map (\<lambda>j. iter_trace j (last (pagination_controls w j))) [0..<k]) @ [Close]"
  using get_synculario_offers_linear_run [OF assms] by fastforce

theorem get_synculario_offers_linear_witness:
  "s_resolve ex_site link = Some 0 \<and> linear_site ex_site 2 \<and> (0::nat) < 2 \<and>
   (\<exists>bh. get_synculario_offers ex_site ''/usr/bin/chromedriver'' None =
      Some (rbind (parse_pages base_url (map (s_dom ex_site) [0..<2])) (\<lambda>data. DataFrame data columns), bh)
    \<and> trace bh = launch_trace None @ [Get link, Sleep 100] @
        concat (map (\<lambda>j. iter_trace j (last (pagination_controls ex_site j))) [0..<2]) @ [Close])"
proof -
  have r: "s_resolve ex_site link = Some 0" by (simp add: ex_site_def)
  have l: "linear_site ex_site 2" by code_simp
  show ?thesis using get_synculario_offers_linear [OF r l, of "''/usr/bin/chromedriver''" None] r l
    by simp
qed

text \<open>
  C2. On the same sites the browser window is closed exactly once, and it is closed when
  the function returns.
\<close>

theorem get_synculario_offers_closes_once:
  assumes "s_resolve w link = Some 0" and "linear_site w k" and "0 < k"
  shows "\<exists>r bh d. get_synculario_offers w installed http_proxy = Some (r, bh) \<and>
           count_list (trace bh) Close = 1 \<and> driver bh = Some d \<and> \<not> d_open d"
proof -
  obtain d where run: "get_synculario_offers w installed http_proxy =
     Some (rbind (parse_pages base_url (map (s_dom w) [0..<k])) (\<lambda>data. DataFrame data columns),
           (launched w installed http_proxy)\<lparr>driver := Some d,
              trace := launch_trace http_proxy @ [Get link, Sleep 100] @
                concat (map (\<lambda>j. iter_trace j (last (pagination_controls w j))) [0..<k]) @ [Close]\<rparr>)"
    and closed: "\<not> d_open d"
    using get_synculario_offers_linear_run [OF assms] by blast
  then show ?thesis
    using closed linear_run_trace_close by simp
qed

theorem get_synculario_offers_closes_once_witness:
  "s_resolve ex_site link = Some 0 \<and> linear_site ex_site 2 \<and> (0::nat) < 2 \<and>
   (\<exists>r bh d. get_synculario_offers ex_site ''/usr/bin/chromedriver'' None = Some (r, bh) \<and>
      count_list (trace bh) Close = 1 \<and> driver bh = Some d \<and> \<not> d_open d)"
proof -
  have r: "s_resolve ex_site link = Some 0" by (simp add: ex_site_def)
  have l: "linear_site ex_site 2" by code_simp
  show ?thesis using get_synculario_offers_closes_once [OF r l, of "''/usr/bin/chromedriver''" None] r l
    by simp
qed

text \<open>
  C25. The cost of a crawl: on a site of \<open>k \<ge> 1\<close> listing pages as in C1, the run pauses
  exactly \<open>0.1 + k\<close> seconds (the pause after \<open>get_url\<close> and one second per pass),
  sends exactly \<open>4 k + 4\<close> commands to the browser (launch, cookie deletion, request and
  close, and per page: the control search, the capture, the scroll and the click) and
  captures the page source exactly \<open>k\<close> times.
\<close>

theorem get_synculario_offers_cost:
  assumes "s_resolve w link = Some 0" and "linear_site w k" and "0 < k"
  shows "\<exists>r bh. get_synculario_offers w installed http_proxy = Some (r, bh) \<and>
           sleep_time (trace bh) = 100 + 1000 * k \<and> command_count (trace bh) = 4 * k + 4 \<and>
           count_list (trace bh) PageSource = k"
proof -
  let ?tr = "concat (map (\<lambda>j. iter_trace j (last (pagination_controls w j))) [0..<k])"
  obtain r bh where run: "get_synculario_offers w installed http_proxy = Some (r, bh)"
    and tr: "trace bh = launch_trace http_proxy @ [Get link, Sleep 100] @ ?tr @ [Close]"
    using get_synculario_offers_linear_run [OF assms] by fastforce
  have "sleep_time ?tr = 1000 * k" "command_count ?tr = 4 * k" "count_list ?tr PageSource = k"
    by (simp_all add: trace_measures_concat sum_list_triv)
  then show ?thesis
    using run tr by (simp add: launch_trace_def)
qed

theorem get_synculario_offers_cost_witness:
  "s_resolve ex_site link = Some 0 \<and> linear_site ex_site 2 \<and> (0::nat) < 2 \<and>
   (\<exists>r bh. get_synculario_offers ex_site ''/usr/bin/chromedriver'' None = Some (r, bh) \<and>
      sleep_time (trace bh) = 2100 \<and> command_count (trace bh) = 12 \<and>
      count_list (trace bh) PageSource = 2)"
proof -
  have r: "s_resolve ex_site link = Some 0" by (simp add: ex_site_def)
  have l: "linear_site ex_site 2" by code_simp
  show ?thesis using get_synculario_offers_cost [OF r l, of "''/usr/bin/chromedriver''" None] r l
    by simp
qed

text \<open>
  C26. A parse failure comes after the close: on a linear site whose captured pages hold a
  job block the row extraction fails on, \<open>get_synculario_offers\<close> raises the exception of
  the parse, and the browser window has been closed exactly once before it is raised
  (unlike the failures inside the loop, C3 and C16).
\<close>

theorem get_synculario_offers_parse_error:
  assumes "s_resolve w link = Some 0" and "linear_site w k" and "0 < k"
    and "parse_pages base_url (map (s_dom w) [0..<k]) = Inl e"
  shows "\<exists>bh d. get_synculario_offers w installed http_proxy = Some (Inl e, bh) \<and>
           driver bh = Some d \<and> \<not> d_open d \<and> count_list (trace bh) Close = 1"
  using get_synculario_offers_linear_run [OF assms(1-3)] assms(4) linear_run_trace_close
  by (fastforce simp: rbind_def)

theorem get_synculario_offers_parse_error_witness:
  "s_resolve ex_broken_site link = Some 0 \<and> linear_site ex_broken_site 2 \<and> (0::nat) < 2 \<and>
   parse_pages base_url (map (s_dom ex_broken_site) [0..<2]) = Inl IndexError \<and>
   (\<exists>bh d. get_synculario_offers ex_broken_site ''/usr/bin/chromedriver'' None = Some (Inl IndexError, bh) \<and>
      driver bh = Some d \<and> \<not> d_open d \<and> count_list (trace bh) Close = 1)"
proof -
  have r: "s_resolve ex_broken_site link = Some 0" by (simp add: ex_broken_site_def ex_site_def)
  have l: "linear_site ex_broken_site 2" by code_simp
  have p: "parse_pages base_url (map (s_dom ex_broken_site) [0..<2]) = Inl IndexError" by code_simp
  show ?thesis using get_synculario_offers_parse_error [OF r l _ p, of "''/usr/bin/chromedriver''" None] r l p
    by simp
qed

text \<open>
  C27. An empty listing is not an error: on a linear site whose pages hold no job block,
  \<open>get_synculario_offers\<close> returns the empty table with the nine columns.
\<close>

theorem get_synculario_offers_empty_listing:
  assumes "s_resolve w link = Some 0" and "linear_site w k" and "0 < k"
    and "job_blocks (map (s_dom w) [0..<k]) = []"
  shows "\<exists>bh. get_synculario_offers w installed http_proxy =
           Some (Inr \<lparr>df_columns = columns, df_rows = []\<rparr>, bh)"
proof -
  have "parse_pages base_url (map (s_dom w) [0..<k]) = Inr []"
    using assms(4) by (simp add: parse_pages_blocks)
  then show ?thesis
    using get_synculario_offers_linear_run [OF assms(1-3)] by (fastforce simp: rbind_def DataFrame_def)
qed

theorem get_synculario_offers_empty_listing_witness:
  "s_resolve ex_empty_site link = Some 0 \<and> linear_site ex_empty_site 2 \<and> (0::nat) < 2 \<and>
   job_blocks (map (s_dom ex_empty_site) [0..<2]) = [] \<and>
   (\<exists>bh. get_synculario_offers ex_empty_site ''/usr/bin/chromedriver'' None =
      Some (Inr \<lparr>df_columns = columns, df_rows = []\<rparr>, bh))"
proof -
  have r: "s_resolve ex_empty_site link = Some 0" by (simp add: ex_empty_site_def ex_site_def)
  have l: "linear_site ex_empty_site 2" by code_simp
  have j: "job_blocks (map (s_dom ex_empty_site) [0..<2]) = []" by code_simp
  show ?thesis using get_synculario_offers_empty_listing [OF r l _ j, of "''/usr/bin/chromedriver''" None] r l j
    by simp
qed

text \<open>
  C3. A listing page without pagination controls ends the run with IndexError, raised
  before \<open>quit_driver\<close> is reached: the window is left open and never closed.
\<close>

theorem get_synculario_offers_no_pagination:
  assumes "s_resolve w link = Some 0" and "pagination_controls w 0 = []"
  shows "\<exists>bh d. get_synculario_offers w installed http_proxy = Some (Inl IndexError, bh) \<and>
           driver bh = Some d \<and> d_open d \<and> Close \<notin> set (trace bh)"
proof -
  let ?bh1 = "launched w installed http_proxy"
  obtain d0 where d0: "driver ?bh1 = Some d0" "d_open d0" "d_page d0 = None"
    using launched_driver by blast
  let ?bh2 = "?bh1\<lparr>driver := Some (load_page w 0 d0), trace := trace ?bh1 @ [Get link, Sleep 100]\<rparr>"
  have get: "get_url link ?bh1 = (Inr (), ?bh2)"
    using get_url_loads [of ?bh1 d0 link 0] d0 assms(1) by simp
  have run: "crawl_loop [] ?bh2 =
      Some (Inl IndexError, ?bh2\<lparr>trace := trace ?bh2 @ [Sleep 1000, FindElements page_item]\<rparr>)"
    by (rule crawl_loop_no_controls [of ?bh2 "load_page w 0 d0" 0]) (use d0 assms(2) in \<open>simp_all add: load_page_def\<close>)
  show ?thesis
    using get run d0 by (simp add: get_synculario_offers_launched load_page_def launch_trace_def)
qed

theorem get_synculario_offers_no_pagination_witness:
  "s_resolve ex_bare_site link = Some 0 \<and> pagination_controls ex_bare_site 0 = [] \<and>
   (\<exists>bh d. get_synculario_offers ex_bare_site ''/usr/bin/chromedriver'' None = Some (Inl IndexError, bh) \<and>
      driver bh = Some d \<and> d_open d \<and> Close \<notin> set (trace bh))"
proof -
  have r: "s_resolve ex_bare_site link = Some 0" by (simp add: ex_bare_site_def ex_site_def)
  have p: "pagination_controls ex_bare_site 0 = []" by code_simp
  show ?thesis using get_synculario_offers_no_pagination [OF r p, of "''/usr/bin/chromedriver''" None] r p
    by simp
qed

text \<open>
  C4. If no page reachable by the advance click ever intercepts it (here: a \<open>Next\<close>
  that does nothing), \<open>get_synculario_offers\<close> never returns.
\<close>

theorem get_synculario_offers_diverges:
  assumes "s_resolve w link = Some 0" and "never_intercepted w S" and "0 \<in> S"
  shows "get_synculario_offers w installed http_proxy = None"
proof -
  let ?bh1 = "launched w installed http_proxy"
  obtain d0 where d0: "driver ?bh1 = Some d0" "d_open d0" "d_page d0 = None"
    using launched_driver by blast
  let ?bh2 = "?bh1\<lparr>driver := Some (load_page w 0 d0), trace := trace ?bh1 @ [Get link, Sleep 100]\<rparr>"
  have get: "get_url link ?bh1 = (Inr (), ?bh2)"
    using get_url_loads [of ?bh1 d0 link 0] d0 assms(1) by simp
  have "crawl_loop [] ?bh2 = None"
    by (rule crawl_loop_diverges [of ?bh2 S "load_page w 0 d0" 0])
      (use assms d0 in \<open>simp_all add: load_page_def\<close>)
  with get show ?thesis by (simp add: get_synculario_offers_launched)
qed

theorem get_synculario_offers_diverges_witness:
  "s_resolve ex_stuck_site link = Some 0 \<and> never_intercepted ex_stuck_site {0} \<and> (0::nat) \<in> {0} \<and>
   get_synculario_offers ex_stuck_site ''/usr/bin/chromedriver'' None = None"
proof -
  have r: "s_resolve ex_stuck_site link = Some 0" by (simp add: ex_stuck_site_def ex_site_def)
  have n: "never_intercepted ex_stuck_site {0}" by code_simp
  show ?thesis using get_synculario_offers_diverges [OF r n, of "''/usr/bin/chromedriver''" None] r n
    by simp
qed

text \<open>
  C15. A listing URL that fails to load is not an error: the failure is swallowed, the
  loop then looks for pagination controls on the blank start page, finds none, and the run
  ends with IndexError with the browser window still open.
\<close>

theorem get_synculario_offers_load_failure:
  assumes "s_resolve w link = None"
  shows "\<exists>bh d. get_synculario_offers w installed http_proxy = Some (Inl IndexError, bh) \<and>
           driver bh = Some d \<and> d_open d \<and> d_page d = None \<and> Close \<notin> set (trace bh)"
proof -
  let ?bh1 = "launched w installed http_proxy"
  obtain d0 where d0: "driver ?bh1 = Some d0" "d_open d0" "d_page d0 = None"
    using launched_driver by blast
  let ?bh2 = "?bh1\<lparr>trace := trace ?bh1 @ [Get link]\<rparr>"
  have get: "get_url link ?bh1 = (Inr (), ?bh2)"
    using get_url_fails [of ?bh1 d0 link] d0 assms by simp
  have run: "crawl_loop [] ?bh2 =
      Some (Inl IndexError, ?bh2\<lparr>trace := trace ?bh2 @ [Sleep 1000, FindElements page_item]\<rparr>)"
    by (rule crawl_loop_blank [of ?bh2 d0]) (use d0 in simp_all)
  show ?thesis
    using get run d0 by (simp add: get_synculario_offers_launched launch_trace_def)
qed

theorem get_synculario_offers_load_failure_witness:
  "s_resolve ex_offline_site link = None \<and>
   (\<exists>bh d. get_synculario_offers ex_offline_site ''/usr/bin/chromedriver'' None = Some (Inl IndexError, bh) \<and>
      driver bh = Some d \<and> d_open d \<and> d_page d = None \<and> Close \<notin> set (trace bh))"
proof -
  have r: "s_resolve ex_offline_site link = None" by (simp add: ex_offline_site_def)
  show ?thesis using get_synculario_offers_load_failure [OF r, of "''/usr/bin/chromedriver''" None] r
    by simp
qed

text \<open>
  C24. The type of the result: whenever \<open>get_synculario_offers\<close> returns a table, the
  table has the nine columns, every row has exactly one field per column, and there is one
  row per job block of the pages the crawl captured.
\<close>

theorem get_synculario_offers_table_typed:
  assumes "get_synculario_offers w installed http_proxy = Some (Inr df, bh)"
  shows "\<exists>pages bh3. crawl_loop [] (snd (get_url link (launched w installed http_proxy))) = Some (Inr pages, bh3) \<and>
           df_columns df = columns \<and> list_all (\<lambda>r. length r = length columns) (df_rows df) \<and>
           length (df_rows df) = length (job_blocks pages)"
proof -
  obtain pages bh3 data where
    run: "crawl_loop [] (snd (get_url link (launched w installed http_proxy))) = Some (Inr pages, bh3)"
    and parsed: "parse_pages base_url pages = Inr data" and df: "DataFrame data columns = Inr df"
    using assms
    by (auto simp: get_synculario_offers_launched rbind_def split: prod.splits sum.splits option.splits)
  show ?thesis
    using run df parse_pages_length [OF parsed] by (auto simp: DataFrame_Inr)
qed

theorem get_synculario_offers_table_typed_witness:
  "\<exists>df bh. get_synculario_offers ex_site ''/usr/bin/chromedriver'' None = Some (Inr df, bh) \<and>
     (\<exists>pages bh3. crawl_loop [] (snd (get_url link (launched ex_site ''/usr/bin/chromedriver'' None))) =
                    Some (Inr pages, bh3) \<and>
        df_columns df = columns \<and> list_all (\<lambda>r. length r = length columns) (df_rows df) \<and>
        length (df_rows df) = length (job_blocks pages))"
proof -
  have r: "s_resolve ex_site link = Some 0" by (simp add: ex_site_def)
  have l: "linear_site ex_site 2" by code_simp
  have p: "\<not> isl (rbind (parse_pages base_url (map (s_dom ex_site) [0..<2])) (\<lambda>data. DataFrame data columns))"
    by code_simp
  obtain df where df: "rbind (parse_pages base_url (map (s_dom ex_site) [0..<2])) (\<lambda>data. DataFrame data columns) = Inr df"
    using p by (cases "rbind (parse_pages base_url (map (s_dom ex_site) [0..<2])) (\<lambda>data. DataFrame data columns)") auto
  obtain bh where g: "get_synculario_offers ex_site ''/usr/bin/chromedriver'' None = Some (Inr df, bh)"
    using get_synculario_offers_linear_run [OF r l, of "''/usr/bin/chromedriver''" None] df by auto
  show ?thesis using get_synculario_offers_table_typed [OF g] g by blast
qed

section \<open>Release of the browser on every site\<close>

text \<open>One pass of the pagination loop, and so the loop, keeps the window open and
  launches and closes nothing.\<close>

lemma advance_stable: "advance e bh = (r, bh') \<Longrightarrow> window_stable bh bh'"
  unfolding advance_def
  by (auto split: prod.splits sum.splits dest!: scroll_to_given_element_stable element_click_stable
      intro: stable_trans)

lemma crawl_iteration_stable:
  "crawl_iteration pages bh = Inl (r, bh') \<Longrightarrow> window_stable bh bh'"
  "crawl_iteration pages bh = Inr (pages', bh') \<Longrightarrow> window_stable bh bh'"
proof -
  obtain r2 bh2 where f: "find_elements page_item (sleep 1000 bh) = (r2, bh2)" by fastforce
  have s2: "window_stable bh bh2"
    using sleep_stable find_elements_stable [OF f] by (blast intro: stable_trans)
  obtain r3 bh3 where p: "page_source bh2 = (r3, bh3)" by fastforce
  have s3: "window_stable bh bh3" using s2 page_source_stable [OF p] by (blast intro: stable_trans)
  have s4: "\<And>e x bh4. advance e bh3 = (x, bh4) \<Longrightarrow> window_stable bh bh4"
    using s3 advance_stable by (blast intro: stable_trans)
  show "crawl_iteration pages bh = Inl (r, bh') \<Longrightarrow> window_stable bh bh'"
    using f p s2 s3 s4 unfolding crawl_iteration_def
    by (auto simp: Let_def split: prod.splits sum.splits)
  show "crawl_iteration pages bh = Inr (pages', bh') \<Longrightarrow> window_stable bh bh'"
    using f p s2 s3 s4 unfolding crawl_iteration_def
    by (auto simp: Let_def split: prod.splits sum.splits)
qed

lemma crawl_loop_stable:
  assumes "crawl_loop pages bh = Some r"
  shows "window_stable bh (snd r)"
proof (rule crawl_loop.raw_induct [where P = "\<lambda>pages bh r. window_stable bh (snd r)", OF _ assms])
  fix f :: "dom list \<Rightarrow> browser_handler \<Rightarrow> (dom list py_result \<times> browser_handler) option" and pages bh r
  assume IH: "\<And>pages bh r. f pages bh = Some r \<Longrightarrow> window_stable bh (snd r)"
    and run: "(case crawl_iteration pages bh of Inl r \<Rightarrow> Some r | Inr (pages', bh') \<Rightarrow> f pages' bh') = Some r"
  show "window_stable bh (snd r)"
  proof (cases "crawl_iteration pages bh")
    case (Inl r')
    then show ?thesis using run crawl_iteration_stable(1) [of pages bh "fst r'" "snd r'"] by simp
  next
    case (Inr y)
    obtain pages' bh' where y: "y = (pages', bh')" by fastforce
    with Inr run have "f pages' bh' = Some r" by simp
    then have "window_stable bh' (snd r)" by (rule IH)
    moreover have "window_stable bh bh'" using crawl_iteration_stable(2) Inr y by simp
    ultimately show ?thesis by (blast intro: stable_trans)
  qed
qed

text \<open>
  C30. Whenever \<open>get_synculario_offers\<close> returns a table, on any site whatever its pages
  and clicks, the run launched one browser and closed its window exactly once, as its last
  browser action, and the handler no longer holds a running browser.
\<close>

theorem get_synculario_offers_table_releases:
  assumes "get_synculario_offers w installed http_proxy = Some (Inr df, bh)"
  shows "launches (trace bh) = 1 \<and> count_list (trace bh) Close = 1 \<and> last (trace bh) = Close \<and> \<not> live bh"
proof -
  let ?bh1 = "launched w installed http_proxy"
  obtain bh2 where g: "get_url link ?bh1 = (Inr (), bh2)" and
    rest: "(case crawl_loop [] bh2 of None \<Rightarrow> None | Some (Inl e, bh3) \<Rightarrow> Some (Inl e, bh3)
            | Some (Inr pages, bh3) \<Rightarrow> (case quit_driver bh3 of (Inl e, bh4) \<Rightarrow> Some (Inl e, bh4)
                | (Inr _, bh4) \<Rightarrow> Some (rbind (parse_pages base_url pages) (\<lambda>data. DataFrame data columns), bh4)))
           = Some (Inr df, bh)"
    using assms unfolding get_synculario_offers_launched by (auto split: prod.splits sum.splits)
  obtain pages bh3 where c: "crawl_loop [] bh2 = Some (Inr pages, bh3)"
    and q: "(case quit_driver bh3 of (Inl e, bh4) \<Rightarrow> Some (Inl e, bh4)
             | (Inr _, bh4) \<Rightarrow> Some (rbind (parse_pages base_url pages) (\<lambda>data. DataFrame data columns), bh4))
            = Some (Inr df, bh)"
    using rest by (auto split: option.splits sum.splits)
  have s: "window_stable ?bh1 bh3"
    using get_url_stable [OF g] crawl_loop_stable [OF c] by (auto intro: stable_trans)
  have l1: "live ?bh1" "launches (trace ?bh1) = 1" "count_list (trace ?bh1) Close = 0"
    by (simp_all add: launched_def set_driver_def BrowserHandler_init_def live_def launches_def Let_def)
  then have l3: "live bh3" "launches (trace bh3) = 1" "count_list (trace bh3) Close = 0"
    using s by (simp_all add: window_stable_def)
  then obtain d where d: "driver bh3 = Some d" "d_open d" by (auto simp: live_def split: option.splits)
  have "bh = bh3\<lparr>driver := Some (d\<lparr>d_open := False\<rparr>), trace := trace bh3 @ [Close]\<rparr>"
    using q quit_driver_open [OF d] by (auto split: sum.splits)
  then show ?thesis using l3 by (simp add: launches_def live_def)
qed

theorem get_synculario_offers_table_releases_witness:
  "\<exists>df bh. get_synculario_offers ex_site ''/usr/bin/chromedriver'' None = Some (Inr df, bh) \<and>
     launches (trace bh) = 1 \<and> count_list (trace bh) Close = 1 \<and> last (trace bh) = Close \<and> \<not> live bh"
proof -
  have r: "s_resolve ex_site link = Some 0" by (simp add: ex_site_def)
  have l: "linear_site ex_site 2" by code_simp
  have p: "\<not> isl (rbind (parse_pages base_url (map (s_dom ex_site) [0..<2])) (\<lambda>data. DataFrame data columns))"
    by code_simp
  obtain df where df: "rbind (parse_pages base_url (map (s_dom ex_site) [0..<2])) (\<lambda>data. DataFrame data columns) = Inr df"
    using p by (cases "rbind (parse_pages base_url (map (s_dom ex_site) [0..<2])) (\<lambda>data. DataFrame data columns)") auto
  obtain bh where g: "get_synculario_offers ex_site ''/usr/bin/chromedriver'' None = Some (Inr df, bh)"
    using get_synculario_offers_linear_run [OF r l, of "''/usr/bin/chromedriver''" None] df by auto
  show ?thesis using get_synculario_offers_table_releases [OF g] g by blast
qed

end
